(* ===== verification/Prelude.thy ===== *)
theory Prelude
  imports Complex_Main "HOL-Library.Sublist" "HOL-Library.Code_Target_Nat"
begin

text \<open>
  Shared vocabulary of the development: the theorem collections, the state-and-exception
  computations in which the methods of the Python classes are written, the partial- and
  total-correctness triples used to reason about them, and generic facts on association
  lists (Python's insertion-ordered dictionaries).
\<close>

named_theorems comp_simps \<open>unfolding equations of the computation combinators\<close>
named_theorems triple_rules \<open>introduction rules for triples\<close>

section \<open>Computations with state and exceptions\<close>

text \<open>
  A method that reads and writes the state \<open>'s\<close>, and returns an \<open>'a\<close> or raises an
  \<open>'e\<close>, is a function from the state to the outcome and the new state. The state
  survives an exception, as a mutated Python object does.
\<close>

type_synonym ('e, 's, 'a) comp = "'s \<Rightarrow> ('e + 'a) \<times> 's"

definition ret :: "'a \<Rightarrow> ('e, 's, 'a) comp" where
  "ret x = (\<lambda>s. (Inr x, s))"

definition raise :: "'e \<Rightarrow> ('e, 's, 'a) comp" where
  "raise e = (\<lambda>s. (Inl e, s))"

definition bnd :: "('e, 's, 'a) comp \<Rightarrow> ('a \<Rightarrow> ('e, 's, 'b) comp) \<Rightarrow> ('e, 's, 'b) comp" where
  "bnd m f = (\<lambda>s. case m s of (Inl e, s') \<Rightarrow> (Inl e, s') | (Inr x, s') \<Rightarrow> f x s')"

definition next_do :: "('e, 's, 'a) comp \<Rightarrow> ('e, 's, 'b) comp \<Rightarrow> ('e, 's, 'b) comp" where
  "next_do m n = bnd m (\<lambda>_. n)"

definition gets :: "('s \<Rightarrow> 'a) \<Rightarrow> ('e, 's, 'a) comp" where
  "gets f = (\<lambda>s. (Inr (f s), s))"

definition modify :: "('s \<Rightarrow> 's) \<Rightarrow> ('e, 's, unit) comp" where
  "modify f = (\<lambda>s. (Inr (), f s))"

definition of_sum :: "'e + 'a \<Rightarrow> ('e, 's, 'a) comp" where
  "of_sum r = (\<lambda>s. (r, s))"

definition guard_or :: "bool \<Rightarrow> 'e \<Rightarrow> ('e, 's, unit) comp" where
  "guard_or b e = (if b then ret () else raise e)"

definition when_do :: "bool \<Rightarrow> ('e, 's, unit) comp \<Rightarrow> ('e, 's, unit) comp" where
  "when_do b m = (if b then m else ret ())"

text \<open>\<open>try: m except e: h e\<close>; the handler re-raises what it does not catch.\<close>

definition try_except :: "('e, 's, 'a) comp \<Rightarrow> ('e \<Rightarrow> ('e, 's, 'a) comp) \<Rightarrow> ('e, 's, 'a) comp" where
  "try_except m h = (\<lambda>s. case m s of (Inl e, s') \<Rightarrow> h e s' | (Inr x, s') \<Rightarrow> (Inr x, s'))"

text \<open>\<open>try: m finally: c\<close>; an exception of the clean-up replaces the outcome.\<close>

definition try_finally :: "('e, 's, 'a) comp \<Rightarrow> ('e, 's, unit) comp \<Rightarrow> ('e, 's, 'a) comp" where
  "try_finally m c = (\<lambda>s. case m s of (r, s') \<Rightarrow>
     (case c s' of (Inl e, s'') \<Rightarrow> (Inl e, s'') | (Inr _, s'') \<Rightarrow> (r, s'')))"

text \<open>\<open>with suppress(P): m\<close>.\<close>

definition suppressing :: "('e \<Rightarrow> bool) \<Rightarrow> ('e, 's, unit) comp \<Rightarrow> ('e, 's, unit) comp" where
  "suppressing P m = try_except m (\<lambda>e. if P e then ret () else raise e)"

primrec for_each :: "'a list \<Rightarrow> ('a \<Rightarrow> ('e, 's, unit) comp) \<Rightarrow> ('e, 's, unit) comp" where
  "for_each [] f = ret ()"
| "for_each (x # xs) f = next_do (f x) (for_each xs f)"

text \<open>A computation on the second component of the state.\<close>

definition on_snd :: "('e, 't, 'a) comp \<Rightarrow> ('e, 's \<times> 't, 'a) comp" where
  "on_snd m = (\<lambda>(s, t). case m t of (r, t') \<Rightarrow> (r, (s, t')))"

lemmas comp_defs = ret_def raise_def bnd_def next_do_def gets_def modify_def of_sum_def
  guard_or_def when_do_def try_except_def try_finally_def suppressing_def

lemma ret_bnd [simp, comp_simps]: "bnd (ret x) f = f x"
  by (simp add: comp_defs)

lemma raise_bnd [simp, comp_simps]: "bnd (raise e) f = raise e"
  by (simp add: comp_defs)

lemma bnd_ret [simp, comp_simps]: "bnd m ret = m"
  by (auto simp: comp_defs fun_eq_iff split: prod.splits sum.splits)

lemma bnd_assoc [comp_simps]: "bnd (bnd m f) g = bnd m (\<lambda>x. bnd (f x) g)"
  by (auto simp: comp_defs fun_eq_iff split: prod.splits sum.splits)

lemma bnd_cases:
  assumes "bnd m f s = (r, t)"
  obtains (err) e where "m s = (Inl e, t)" "r = Inl e"
  | (ok) x s' where "m s = (Inr x, s')" "f x s' = (r, t)"
  using assms by (auto simp: bnd_def split: prod.splits sum.splits)

section \<open>Triples\<close>

text \<open>
  \<open>triple P m Q E\<close>: started in a state that satisfies \<open>P\<close>, \<open>m\<close> either returns a
  value and a state related by \<open>Q\<close>, or raises an exception and leaves a state related
  by \<open>E\<close>. Computations are total functions, so this is total correctness.
\<close>

definition triple ::
  "('s \<Rightarrow> bool) \<Rightarrow> ('e, 's, 'a) comp \<Rightarrow> ('a \<Rightarrow> 's \<Rightarrow> bool) \<Rightarrow> ('e \<Rightarrow> 's \<Rightarrow> bool) \<Rightarrow> bool" where
  "triple P m Q E \<longleftrightarrow>
     (\<forall>s. P s \<longrightarrow> (case m s of (Inr x, t) \<Rightarrow> Q x t | (Inl e, t) \<Rightarrow> E e t))"

definition keeps :: "('s \<Rightarrow> bool) \<Rightarrow> ('e, 's, 'a) comp \<Rightarrow> bool" where
  "keeps P m \<longleftrightarrow> triple P m (\<lambda>_. P) (\<lambda>_. P)"

lemma tripleD:
  assumes "triple P m Q E" "P s" "m s = (r, t)"
  shows "case r of Inr x \<Rightarrow> Q x t | Inl e \<Rightarrow> E e t"
  using assms unfolding triple_def by (fastforce split: sum.splits)

lemma triple_conseq:
  assumes "triple P' m Q' E'"
    and "\<And>s. P s \<Longrightarrow> P' s" "\<And>x s. Q' x s \<Longrightarrow> Q x s" "\<And>e s. E' e s \<Longrightarrow> E e s"
  shows "triple P m Q E"
  using assms unfolding triple_def by (fastforce split: prod.splits sum.splits)

lemma triple_ret [triple_rules]: "(\<And>s. P s \<Longrightarrow> Q x s) \<Longrightarrow> triple P (ret x) Q E"
  by (simp add: triple_def ret_def)

lemma triple_raise [triple_rules]: "(\<And>s. P s \<Longrightarrow> E e s) \<Longrightarrow> triple P (raise e) Q E"
  by (simp add: triple_def raise_def)

lemma triple_gets [triple_rules]: "(\<And>s. P s \<Longrightarrow> Q (f s) s) \<Longrightarrow> triple P (gets f) Q E"
  by (simp add: triple_def gets_def)

lemma triple_modify [triple_rules]: "(\<And>s. P s \<Longrightarrow> Q () (f s)) \<Longrightarrow> triple P (modify f) Q E"
  by (simp add: triple_def modify_def)

lemma triple_bnd:
  assumes "triple P m R E" and "\<And>x. triple (R x) (f x) Q E"
  shows "triple P (bnd m f) Q E"
  using assms unfolding triple_def bnd_def by (fastforce split: prod.splits sum.splits)

lemma triple_try_except:
  assumes "triple P m Q R" and "\<And>e. triple (R e) (h e) Q E"
  shows "triple P (try_except m h) Q E"
  using assms unfolding triple_def try_except_def by (fastforce split: prod.splits sum.splits)

lemma triple_any: "triple P m (\<lambda>_ _. True) (\<lambda>_ _. True)"
  by (auto simp: triple_def split: prod.split sum.split)

lemma triple_ex: "(\<And>x. triple (P x) m Q E) \<Longrightarrow> triple (\<lambda>s. \<exists>x. P x s) m Q E"
  unfolding triple_def by (intro allI impI, erule exE) simp

lemma triple_pure: "(b \<Longrightarrow> triple P m Q E) \<Longrightarrow> triple (\<lambda>s. b \<and> P s) m Q E"
  unfolding triple_def by auto

lemma triple_const: "(b \<Longrightarrow> triple (\<lambda>_. True) m Q E) \<Longrightarrow> triple (\<lambda>_. b) m Q E"
  unfolding triple_def by auto

lemma triple_if: "(b \<Longrightarrow> triple P m Q E) \<Longrightarrow> (\<not> b \<Longrightarrow> triple P n Q E) \<Longrightarrow> triple P (if b then m else n) Q E"
  by simp

lemma keeps_triple: "keeps P m \<Longrightarrow> triple P m (\<lambda>_. P) (\<lambda>_ _. True)"
  unfolding keeps_def by (erule triple_conseq) auto

lemma keeps_ret [simp, intro]: "keeps P (ret x)"
  by (simp add: keeps_def triple_ret)

lemma keeps_raise [simp, intro]: "keeps P (raise e)"
  by (simp add: keeps_def triple_raise)

lemma keeps_gets [simp, intro]: "keeps P (gets f)"
  by (simp add: keeps_def triple_gets)

lemma keeps_of_sum [simp, intro]: "keeps P (of_sum r)"
  by (auto simp: keeps_def triple_def of_sum_def split: sum.splits)

lemma keeps_guard_or [simp, intro]: "keeps P (guard_or b e)"
  by (auto simp: guard_or_def)

lemma keeps_modify: "(\<And>s. P s \<Longrightarrow> P (f s)) \<Longrightarrow> keeps P (modify f)"
  by (simp add: keeps_def triple_modify)

lemma keeps_bnd [intro]: "keeps P m \<Longrightarrow> (\<And>x. keeps P (f x)) \<Longrightarrow> keeps P (bnd m f)"
  unfolding keeps_def by (rule triple_bnd)

lemma keeps_next_do [intro]: "keeps P m \<Longrightarrow> keeps P n \<Longrightarrow> keeps P (next_do m n)"
  unfolding next_do_def by (rule keeps_bnd)

lemma keeps_when_do [intro]: "(b \<Longrightarrow> keeps P m) \<Longrightarrow> keeps P (when_do b m)"
  by (simp add: when_do_def)

lemma keeps_try_except [intro]:
  "keeps P m \<Longrightarrow> (\<And>e. keeps P (h e)) \<Longrightarrow> keeps P (try_except m h)"
  unfolding keeps_def by (rule triple_try_except)

lemma keeps_suppressing [intro]: "keeps P m \<Longrightarrow> keeps P (suppressing Q m)"
  unfolding suppressing_def by (rule keeps_try_except) auto

lemma keeps_for_each [intro]: "(\<And>x. keeps P (f x)) \<Longrightarrow> keeps P (for_each xs f)"
  by (induction xs) auto

lemma keepsD: "keeps P m \<Longrightarrow> P s \<Longrightarrow> m s = (r, t) \<Longrightarrow> P t"
  unfolding keeps_def by (drule (2) tripleD) (auto split: sum.splits)

lemma keepsI: "(\<And>s r t. P s \<Longrightarrow> m s = (r, t) \<Longrightarrow> P t) \<Longrightarrow> keeps P m"
  unfolding keeps_def triple_def by (auto split: prod.split sum.split)

lemma keeps_on_snd: "keeps P m \<Longrightarrow> keeps (\<lambda>s. P (snd s)) (on_snd m)"
  by (rule keepsI) (auto simp: on_snd_def split: prod.splits dest: keepsD)

section \<open>Dictionaries in insertion order\<close>

type_synonym ('k, 'v) dict = "('k \<times> 'v) list"

text \<open>\<open>d[k] = v\<close>: an existing key keeps its place, a new key goes to the end.\<close>

fun dict_set :: "'k \<Rightarrow> 'v \<Rightarrow> ('k, 'v) dict \<Rightarrow> ('k, 'v) dict" where
  "dict_set k v [] = [(k, v)]"
| "dict_set k v ((k', v') # d) = (if k' = k then (k, v) # d else (k', v') # dict_set k v d)"

text \<open>\<open>{**d, **e}\<close>.\<close>

definition dict_merge :: "('k, 'v) dict \<Rightarrow> ('k, 'v) dict \<Rightarrow> ('k, 'v) dict" where
  "dict_merge d e = fold (\<lambda>(k, v). dict_set k v) e d"

definition dict_pop :: "'k \<Rightarrow> ('k, 'v) dict \<Rightarrow> ('k, 'v) dict" where
  "dict_pop k d = filter (\<lambda>p. fst p \<noteq> k) d"

lemma dict_set_lookup [simp]: "map_of (dict_set k v d) = (map_of d)(k \<mapsto> v)"
  by (induction d) (auto simp: fun_eq_iff)

lemma dict_set_keys [simp]: "fst ` set (dict_set k v d) = insert k (fst ` set d)"
  by (simp flip: dom_map_of_conv_image_fst)

lemma dict_set_distinct: "distinct (map fst d) \<Longrightarrow> distinct (map fst (dict_set k v d))"
proof (induction d)
  case (Cons p d)
  then show ?case by (cases p) auto
qed simp

lemma dict_set_new: "k \<notin> fst ` set d \<Longrightarrow> dict_set k v d = d @ [(k, v)]"
  by (induction d) (auto simp: image_iff)

lemma dict_merge_lookup: "map_of (dict_merge d e) k =
    (case map_of (rev e) k of None \<Rightarrow> map_of d k | Some v \<Rightarrow> Some v)"
proof (induction e arbitrary: d)
  case Nil
  then show ?case by (simp add: dict_merge_def)
next
  case (Cons p e)
  have "dict_merge d (p # e) = dict_merge (dict_set (fst p) (snd p) d) e"
    by (simp add: dict_merge_def case_prod_unfold)
  with Cons.IH show ?case
    by (cases p) (auto simp: map_add_def split: option.splits)
qed

lemma dict_merge_distinct: "distinct (map fst d) \<Longrightarrow> distinct (map fst (dict_merge d e))"
  by (induction e arbitrary: d) (auto simp: dict_merge_def dict_set_distinct)

lemma dict_pop_lookup [simp]: "map_of (dict_pop k d) k' = (if k' = k then None else map_of d k')"
  by (induction d) (auto simp: dict_pop_def)

end
