(* ===== verification/PyText.thy ===== *)
theory PyText
  imports Prelude
begin

text \<open>
  The operations on Python's \<open>str\<close> and \<open>bytes\<close> that the source uses. A \<open>bytes\<close> value is
  a list of \<open>char\<close>, one per byte. A \<open>str\<close> is represented by its UTF-8 encoding, so
  \<open>encode\<close> is the identity, \<open>decode(errors="replace")\<close> is \<open>utf8_decode\<close> below, and
  searching, splitting and replacing act on the encoding as they do on the code points.
  Case folding and white space are those of ASCII: the names the program folds (hosts,
  backend names, the request method) are ASCII.
\<close>

type_synonym str = string
type_synonym bytes = string

section \<open>Characters and stripping\<close>

abbreviation code :: "char \<Rightarrow> nat" where
  "code c \<equiv> of_char c"

definition is_space :: "char \<Rightarrow> bool" where
  "is_space c = (let n = code c in (9 \<le> n \<and> n \<le> 13) \<or> (28 \<le> n \<and> n \<le> 32))"

definition lower_char :: "char \<Rightarrow> char" where
  "lower_char c = (let n = code c in if 65 \<le> n \<and> n \<le> 90 then char_of (n + 32) else c)"

definition upper_char :: "char \<Rightarrow> char" where
  "upper_char c = (let n = code c in if 97 \<le> n \<and> n \<le> 122 then char_of (n - 32) else c)"

definition lower :: "str \<Rightarrow> str" where
  "lower = map lower_char"

definition upper :: "str \<Rightarrow> str" where
  "upper = map upper_char"

definition lstrip_by :: "(char \<Rightarrow> bool) \<Rightarrow> str \<Rightarrow> str" where
  "lstrip_by p s = dropWhile p s"

definition rstrip_by :: "(char \<Rightarrow> bool) \<Rightarrow> str \<Rightarrow> str" where
  "rstrip_by p s = rev (dropWhile p (rev s))"

definition strip :: "str \<Rightarrow> str" where
  "strip s = rstrip_by is_space (lstrip_by is_space s)"

definition contains :: "str \<Rightarrow> str \<Rightarrow> bool" where
  "contains s v = sublist v s"

definition removeprefix :: "str \<Rightarrow> str \<Rightarrow> str" where
  "removeprefix p s = (if prefix p s then drop (length p) s else s)"

lemma code_char_of [simp]: "n < 256 \<Longrightarrow> code (char_of n) = n"
  by simp

lemma lower_char_idem [simp]: "lower_char (lower_char c) = lower_char c"
  by (auto simp: lower_char_def Let_def)

lemma lower_idem [simp]: "lower (lower s) = lower s"
  by (simp add: lower_def)

lemma lower_Nil [simp]: "lower [] = []"
  by (simp add: lower_def)

lemma lower_append: "lower (s @ t) = lower s @ lower t"
  by (simp add: lower_def)

lemma lower_empty_iff [simp]: "lower s = [] \<longleftrightarrow> s = []"
  by (simp add: lower_def)

lemma rstrip_by_Nil [simp]: "rstrip_by p [] = []"
  by (simp add: rstrip_by_def)

lemma rstrip_by_prefix: "prefix (rstrip_by p s) s"
  unfolding rstrip_by_def prefix_def
  by (metis rev_append rev_rev_ident takeWhile_dropWhile_id)

lemma rstrip_by_last: "rstrip_by p s \<noteq> [] \<Longrightarrow> \<not> p (last (rstrip_by p s))"
  unfolding rstrip_by_def by (metis hd_dropWhile last_rev rev_is_Nil_conv)

lemma rstrip_by_id: "s = [] \<or> \<not> p (last s) \<Longrightarrow> rstrip_by p s = s"
  unfolding rstrip_by_def
  by (metis dropWhile_eq_self_iff hd_rev rev_is_Nil_conv rev_rev_ident)

section \<open>Splitting and joining\<close>

text \<open>\<open>s.split(c)\<close> for a one-character separator: always at least one piece.\<close>

fun split_on :: "char \<Rightarrow> str \<Rightarrow> str list" where
  "split_on c [] = [[]]"
| "split_on c (x # xs) =
     (if x = c then [] # split_on c xs
      else (case split_on c xs of [] \<Rightarrow> [[x]] | y # ys \<Rightarrow> (x # y) # ys))"

text \<open>\<open>sep.join(parts)\<close>.\<close>

fun join_with :: "str \<Rightarrow> str list \<Rightarrow> str" where
  "join_with sep [] = []"
| "join_with sep [p] = p"
| "join_with sep (p # q # ps) = p @ sep @ join_with sep (q # ps)"

lemma split_on_nonempty [simp]: "split_on c s \<noteq> []"
  by (cases s) (auto split: list.splits)

lemma join_split [simp]: "join_with [c] (split_on c s) = s"
proof (induction s)
  case (Cons x s)
  obtain y ys where y: "split_on c s = y # ys" by (cases "split_on c s") auto
  with Cons.IH show ?case by (cases ys) auto
qed simp

lemma split_on_no_sep: "p \<in> set (split_on c s) \<Longrightarrow> c \<notin> set p"
  by (induction s arbitrary: p) (auto split: list.splits if_splits)

lemma split_on_append_sep: "c \<notin> set p \<Longrightarrow> split_on c (p @ c # s) = p # split_on c s"
  by (induction p) auto

lemma split_on_plain: "c \<notin> set p \<Longrightarrow> split_on c p = [p]"
  by (induction p) auto

lemma split_join:
  "ps \<noteq> [] \<Longrightarrow> (\<forall>p \<in> set ps. c \<notin> set p) \<Longrightarrow> split_on c (join_with [c] ps) = ps"
  by (induction "[c]" ps rule: join_with.induct) (auto simp: split_on_append_sep split_on_plain)

text \<open>\<open>s.rpartition(c)\<close>: what precedes the last separator and what follows it; with no
  separator the first component is empty and the last is \<open>s\<close>.\<close>

definition rpartition :: "char \<Rightarrow> str \<Rightarrow> str \<times> bool \<times> str" where
  "rpartition c s =
     (if c \<in> set s
      then (rev (drop 1 (dropWhile (\<lambda>x. x \<noteq> c) (rev s))), True, rev (takeWhile (\<lambda>x. x \<noteq> c) (rev s)))
      else ([], False, s))"

lemma rpartition_append:
  assumes "c \<notin> set t"
  shows "rpartition c (s @ c # t) = (s, True, t)"
proof -
  have t: "\<forall>x \<in> set (rev t). x \<noteq> c" using assms by auto
  have r: "rev (s @ c # t) = rev t @ c # rev s" by simp
  have "takeWhile (\<lambda>x. x \<noteq> c) (rev t @ c # rev s) = rev t"
    using t by (subst takeWhile_append2) auto
  moreover have "dropWhile (\<lambda>x. x \<noteq> c) (rev t @ c # rev s) = c # rev s"
    using t by (subst dropWhile_append2) auto
  ultimately show ?thesis unfolding rpartition_def r by simp
qed

lemma rpartition_none: "c \<notin> set s \<Longrightarrow> rpartition c s = ([], False, s)"
  by (simp add: rpartition_def)

text \<open>\<open>s.replace(old, new)\<close>: left to right, without overlaps; an empty \<open>old\<close> inserts
  \<open>new\<close> around every character.\<close>

function replace_text :: "str \<Rightarrow> str \<Rightarrow> str \<Rightarrow> str" where
  "replace_text old new s =
     (if old = [] then new @ concat (map (\<lambda>c. c # new) s)
      else (case s of [] \<Rightarrow> []
            | c # cs \<Rightarrow> if prefix old s then new @ replace_text old new (drop (length old) s)
                       else c # replace_text old new cs))"
  by pat_completeness auto
termination
  by (relation "measure (\<lambda>(old, new, s). length s)") auto

declare replace_text.simps [simp del]

lemma replace_text_Nil [simp]: "old \<noteq> [] \<Longrightarrow> replace_text old new [] = []"
  by (simp add: replace_text.simps)

lemma replace_text_hit: "old \<noteq> [] \<Longrightarrow> replace_text old new (old @ s) = new @ replace_text old new s"
  by (subst replace_text.simps) (cases old; simp)

lemma replace_text_miss:
  "old \<noteq> [] \<Longrightarrow> \<not> prefix old (c # s) \<Longrightarrow> replace_text old new (c # s) = c # replace_text old new s"
  by (subst replace_text.simps) simp

lemma replace_text_cases:
  assumes "old \<noteq> []"
  obtains (Nil) "s = []" | (hit) t where "s = old @ t" | (miss) c t where "s = c # t" "\<not> prefix old s"
  using assms by (cases s) (auto simp: prefix_def)

lemma replace_text_absent:
  assumes "old \<noteq> []" "\<not> sublist old s"
  shows "replace_text old new s = s"
  using assms(2)
proof (induction s)
  case (Cons c s)
  then have "\<not> prefix old (c # s)" and "\<not> sublist old s"
    by (auto simp: sublist_Cons_right)
  with Cons.IH assms(1) show ?case by (simp add: replace_text_miss)
qed (simp add: assms)

section \<open>Numbers as text\<close>

fun nat_digits :: "nat \<Rightarrow> str" where
  "nat_digits n = (if n < 10 then [char_of (48 + n)] else nat_digits (n div 10) @ [char_of (48 + n mod 10)])"

declare nat_digits.simps [simp del]

definition int_text :: "int \<Rightarrow> str" where
  "int_text i = (if i < 0 then CHR ''-'' # nat_digits (nat (- i)) else nat_digits (nat i))"

definition is_digit :: "char \<Rightarrow> bool" where
  "is_digit c = (48 \<le> code c \<and> code c \<le> 57)"

definition digits_value :: "str \<Rightarrow> nat" where
  "digits_value s = foldl (\<lambda>a c. 10 * a + (code c - 48)) 0 s"

lemma nat_digits_nonempty [simp]: "nat_digits n \<noteq> []"
  by (subst nat_digits.simps) simp

lemma nat_digits_all: "\<forall>c \<in> set (nat_digits n). is_digit c"
proof (induction n rule: nat_digits.induct)
  case (1 n)
  then show ?case
    by (subst nat_digits.simps) (auto simp: is_digit_def)
qed

lemma nat_digits_value [simp]: "digits_value (nat_digits n) = n"
proof (induction n rule: nat_digits.induct)
  case (1 n)
  show ?case
  proof (cases "n < 10")
    case True
    then show ?thesis by (subst nat_digits.simps) (simp add: digits_value_def)
  next
    case False
    with 1 show ?thesis
      by (subst nat_digits.simps) (simp add: digits_value_def)
  qed
qed

lemma nat_digits_inj: "nat_digits m = nat_digits n \<longleftrightarrow> m = n"
  by (metis nat_digits_value)

end
