(* ===== verification/Utf8.thy ===== *)
theory Utf8
  imports PyText
begin

text \<open>
  \<open>bytes.decode("utf-8", errors="replace")\<close>: a well-formed sequence is kept, and each
  maximal ill-formed piece becomes one U+FFFD, here its three bytes. The result is again a
  \<open>str\<close>, that is, well-formed UTF-8.
\<close>

definition fffd :: str where
  "fffd = [CHR 0xEF, CHR 0xBF, CHR 0xBD]"

definition is_cont :: "char \<Rightarrow> bool" where
  "is_cont c = (128 \<le> code c \<and> code c \<le> 191)"

definition seq_len :: "char \<Rightarrow> nat" where
  "seq_len c = (let n = code c in
     if n < 128 then 1 else if 194 \<le> n \<and> n \<le> 223 then 2
     else if 224 \<le> n \<and> n \<le> 239 then 3 else if 240 \<le> n \<and> n \<le> 244 then 4 else 0)"

definition second_ok :: "char \<Rightarrow> char \<Rightarrow> bool" where
  "second_ok b c = (let n = code b; m = code c in
     if n = 224 then 160 \<le> m \<and> m \<le> 191 else if n = 237 then 128 \<le> m \<and> m \<le> 159
     else if n = 240 then 144 \<le> m \<and> m \<le> 191 else if n = 244 then 128 \<le> m \<and> m \<le> 143
     else 128 \<le> m \<and> m \<le> 191)"

text \<open>How many of the bytes after the lead byte belong to its sequence.\<close>

fun good_tail :: "char \<Rightarrow> bytes \<Rightarrow> nat" where
  "good_tail b [] = 0"
| "good_tail b (c # cs) =
     (if seq_len b \<le> 1 \<or> \<not> second_ok b c then 0
      else Suc (length (takeWhile is_cont (take (seq_len b - 2) cs))))"

definition utf8_step :: "char \<Rightarrow> bytes \<Rightarrow> str \<times> nat" where
  "utf8_step b bs =
     (if seq_len b = 0 then (fffd, 0)
      else if good_tail b bs = seq_len b - 1 then (b # take (seq_len b - 1) bs, seq_len b - 1)
      else (fffd, good_tail b bs))"

function utf8_decode :: "bytes \<Rightarrow> str" where
  "utf8_decode [] = []"
| "utf8_decode (b # bs) = fst (utf8_step b bs) @ utf8_decode (drop (snd (utf8_step b bs)) bs)"
  by pat_completeness auto
termination
  by (relation "measure length") (auto simp: le_imp_less_Suc)

text \<open>A \<open>str\<close>: every step reads a well-formed sequence.\<close>

function utf8_valid :: "bytes \<Rightarrow> bool" where
  "utf8_valid [] = True"
| "utf8_valid (b # bs) =
     (seq_len b \<noteq> 0 \<and> good_tail b bs = seq_len b - 1 \<and> utf8_valid (drop (seq_len b - 1) bs))"
  by pat_completeness auto
termination
  by (relation "measure length") (auto simp: le_imp_less_Suc)

text \<open>\<open>len(s)\<close> counts code points: the bytes that are not continuation bytes.\<close>

definition py_len :: "str \<Rightarrow> nat" where
  "py_len s = length (filter (\<lambda>c. \<not> is_cont c) s)"

definition is_ascii :: "str \<Rightarrow> bool" where
  "is_ascii s = (\<forall>c \<in> set s. code c < 128)"

lemma py_len_ascii: "is_ascii s \<Longrightarrow> py_len s = length s"
  unfolding py_len_def is_ascii_def is_cont_def by (subst filter_True) auto

lemma takeWhile_take_le: "length (takeWhile P (take k cs)) \<le> min k (length cs)"
  by (rule order_trans [OF length_takeWhile_le]) simp

lemma good_tail_le: "good_tail b bs \<le> seq_len b - 1"
  using takeWhile_take_le [of is_cont "seq_len b - 2" "tl bs"] by (cases bs) auto

lemma good_tail_le_length: "good_tail b bs \<le> length bs"
  using takeWhile_take_le [of is_cont "seq_len b - 2" "tl bs"] by (cases bs) auto

text \<open>Whether a sequence is complete depends on its own bytes only.\<close>

lemma takeWhile_take_append:
  assumes "length (takeWhile P (take k cs)) = k"
  shows "length (take k cs) = k" "takeWhile P (take k (take k cs @ r)) = take k cs"
proof -
  show k: "length (take k cs) = k"
    using assms length_takeWhile_le [of P "take k cs"] by simp
  with assms have "takeWhile P (take k cs) = take k cs"
    by (metis takeWhile_eq_take take_all_iff order_refl)
  with k show "takeWhile P (take k (take k cs @ r)) = take k cs"
    by simp
qed

lemma good_tail_own:
  assumes "good_tail b bs = seq_len b - 1" "seq_len b \<noteq> 0"
  shows "good_tail b (take (seq_len b - 1) bs @ r) = seq_len b - 1"
proof (cases bs)
  case Nil
  with assms show ?thesis by (cases r) auto
next
  case (Cons c cs)
  show ?thesis
  proof (cases "seq_len b \<le> 1")
    case True
    with assms show ?thesis by (cases r) auto
  next
    case False
    with assms(1) Cons have ok: "second_ok b c"
      and n: "length (takeWhile is_cont (take (seq_len b - 2) cs)) = seq_len b - 2"
      by (auto split: if_splits)
    note tw = takeWhile_take_append [OF n]
    moreover obtain k where "seq_len b = Suc (Suc k)"
      using False by (metis add_2_eq_Suc le_Suc_ex not_less_eq_eq numeral_2_eq_2 One_nat_def)
    moreover have "take (seq_len b - 1) bs = c # take (seq_len b - 2) cs"
      using calculation Cons by simp
    ultimately show ?thesis using False ok n by simp
  qed
qed

lemma fffd_valid [simp]: "utf8_valid (fffd @ s) = utf8_valid s"
  by (simp add: fffd_def seq_len_def second_ok_def is_cont_def)

lemma utf8_step_complete:
  assumes "good_tail b bs = seq_len b - 1" "seq_len b \<noteq> 0"
  shows "utf8_valid (b # take (seq_len b - 1) bs @ s) = utf8_valid s"
proof -
  have "length (take (seq_len b - 1) bs) = seq_len b - 1"
    using assms good_tail_le_length [of b bs] by simp
  with assms good_tail_own [OF assms, of s] show ?thesis by simp
qed

text \<open>Decoding always gives a \<open>str\<close>, and keeps what already was one.\<close>

lemma utf8_decode_valid: "utf8_valid (utf8_decode bs)"
proof (induction bs rule: utf8_decode.induct)
  case (2 b bs)
  then show ?case
    by (auto simp: utf8_step_def utf8_step_complete simp del: utf8_valid.simps One_nat_def)
qed simp

lemma utf8_decode_id: "utf8_valid s \<Longrightarrow> utf8_decode s = s"
  by (induction s rule: utf8_valid.induct) (auto simp: utf8_step_def)

lemma utf8_decode_idem [simp]: "utf8_decode (utf8_decode bs) = utf8_decode bs"
  by (rule utf8_decode_id [OF utf8_decode_valid])

lemma utf8_decode_append:
  "utf8_valid s \<Longrightarrow> utf8_decode (s @ bs) = s @ utf8_decode bs"
proof (induction s rule: utf8_valid.induct)
  case (2 b s)
  let ?n = "seq_len b - 1"
  from 2 have len: "?n \<le> length s" using good_tail_le_length [of b s] by auto
  with 2 good_tail_own [of b s "drop ?n s @ bs"]
  have "good_tail b (s @ bs) = ?n" by (metis append_assoc append_take_drop_id utf8_valid.simps(2))
  with 2 len show ?case by (simp add: utf8_step_def)
qed simp

lemma utf8_decode_length: "length (utf8_decode bs) \<le> 3 * length bs"
proof (induction bs rule: utf8_decode.induct)
  case (2 b bs)
  have "length (fst (utf8_step b bs)) \<le> 3 * Suc (snd (utf8_step b bs))"
    by (auto simp: utf8_step_def fffd_def)
  moreover have "snd (utf8_step b bs) \<le> length bs"
    using good_tail_le_length [of b bs] by (auto simp: utf8_step_def)
  ultimately show ?case using 2 by simp
qed simp

lemma ascii_valid: "is_ascii s \<Longrightarrow> utf8_valid s"
  by (induction s) (auto simp: is_ascii_def seq_len_def Let_def intro: good_tail.elims)

end
