(* ===== verification/Errors.thy ===== *)
theory Errors
  imports Utf8
begin

text \<open>
  The exceptions of \<open>src/agentnest/exceptions.py\<close>, with the built-in and Docker SDK classes
  that the source raises or catches. An exception is its class and its message; the
  \<open>except\<close> clauses are the test \<open>exn_isa\<close> on the class hierarchy.
\<close>

datatype exn_class =
    AgentNestError | RuntimeNotAvailableError | SandboxDestroyedError | ExecutionError
  | ExecutionTimeoutError | FileAccessError | PolicyDeniedError | UnsupportedCapabilityError
  | PoolExhaustedError
  | BaseError | PyException | ValueError | KeyError | AssertionError | OverflowError | UnicodeError
  | OSError | FileExistsError | FileNotFoundError | QueueEmpty | TypeError | ImportError | ConfigException
  | DockerException | APIError | NotFound | ImageNotFound

fun superclass :: "exn_class \<Rightarrow> exn_class option" where
  "superclass BaseError = None"
| "superclass PyException = Some BaseError"
| "superclass RuntimeNotAvailableError = Some AgentNestError"
| "superclass SandboxDestroyedError = Some AgentNestError"
| "superclass ExecutionError = Some AgentNestError"
| "superclass ExecutionTimeoutError = Some ExecutionError"
| "superclass FileAccessError = Some AgentNestError"
| "superclass PolicyDeniedError = Some AgentNestError"
| "superclass UnsupportedCapabilityError = Some AgentNestError"
| "superclass PoolExhaustedError = Some AgentNestError"
| "superclass UnicodeError = Some ValueError"
| "superclass FileExistsError = Some OSError"
| "superclass FileNotFoundError = Some OSError"
| "superclass APIError = Some DockerException"
| "superclass NotFound = Some APIError"
| "superclass ImageNotFound = Some NotFound"
| "superclass c = Some PyException"

text \<open>The distance from the root of the hierarchy; it bounds the walk upwards.\<close>

fun class_depth :: "exn_class \<Rightarrow> nat" where
  "class_depth BaseError = 0"
| "class_depth PyException = 1"
| "class_depth RuntimeNotAvailableError = 3"
| "class_depth SandboxDestroyedError = 3"
| "class_depth ExecutionError = 3"
| "class_depth ExecutionTimeoutError = 4"
| "class_depth FileAccessError = 3"
| "class_depth PolicyDeniedError = 3"
| "class_depth UnsupportedCapabilityError = 3"
| "class_depth PoolExhaustedError = 3"
| "class_depth UnicodeError = 3"
| "class_depth FileExistsError = 3"
| "class_depth FileNotFoundError = 3"
| "class_depth APIError = 3"
| "class_depth NotFound = 4"
| "class_depth ImageNotFound = 5"
| "class_depth c = 2"

lemma superclass_depth: "superclass c = Some d \<Longrightarrow> class_depth d < class_depth c"
  by (cases c) auto

function class_isa :: "exn_class \<Rightarrow> exn_class \<Rightarrow> bool" where
  "class_isa c d = (c = d \<or> (case superclass c of None \<Rightarrow> False | Some p \<Rightarrow> class_isa p d))"
  by pat_completeness auto
termination
  by (relation "measure (\<lambda>(c, d). class_depth c)") (auto simp: superclass_depth)

declare class_isa.simps [simp del]

datatype exn = Exn (exn_class: exn_class) (exn_msg: str)

definition exn_isa :: "exn \<Rightarrow> exn_class \<Rightarrow> bool" where
  "exn_isa e c = class_isa (exn_class e) c"

lemma exn_isa_Exn [simp]: "exn_isa (Exn c m) d = class_isa c d"
  by (simp add: exn_isa_def)

lemma class_isa_refl [simp]: "class_isa c c"
  by (simp add: class_isa.simps)

text \<open>The evaluated hierarchy, for the \<open>except\<close> clauses of the source.\<close>

lemma isa_OSError: "class_isa c OSError \<longleftrightarrow> c \<in> {OSError, FileExistsError, FileNotFoundError}"
  by (cases c; simp add: class_isa.simps)

lemma isa_DockerException:
  "class_isa c DockerException \<longleftrightarrow> c \<in> {DockerException, APIError, NotFound, ImageNotFound}"
  by (cases c; simp add: class_isa.simps)

lemma isa_APIError: "class_isa c APIError \<longleftrightarrow> c \<in> {APIError, NotFound, ImageNotFound}"
  by (cases c; simp add: class_isa.simps)

lemma isa_NotFound: "class_isa c NotFound \<longleftrightarrow> c \<in> {NotFound, ImageNotFound}"
  by (cases c; simp add: class_isa.simps)

lemma isa_leaf: "class_isa c FileNotFoundError \<longleftrightarrow> c = FileNotFoundError"
  "class_isa c FileExistsError \<longleftrightarrow> c = FileExistsError"
  "class_isa c ImageNotFound \<longleftrightarrow> c = ImageNotFound"
  "class_isa c UnsupportedCapabilityError \<longleftrightarrow> c = UnsupportedCapabilityError"
  "class_isa c FileAccessError \<longleftrightarrow> c = FileAccessError"
  "class_isa c QueueEmpty \<longleftrightarrow> c = QueueEmpty"
  "class_isa c ImportError \<longleftrightarrow> c = ImportError"
  "class_isa c ConfigException \<longleftrightarrow> c = ConfigException"
  "class_isa c ExecutionTimeoutError \<longleftrightarrow> c = ExecutionTimeoutError"
  by (cases c; simp add: class_isa.simps)+

lemma isa_ValueError: "class_isa c ValueError \<longleftrightarrow> c \<in> {ValueError, UnicodeError}"
  by (cases c; simp add: class_isa.simps)

lemma isa_PyException: "class_isa c PyException \<longleftrightarrow> c \<noteq> BaseError"
  by (cases c; simp add: class_isa.simps)

lemma isa_AgentNestError: "class_isa c AgentNestError \<longleftrightarrow>
    c \<in> {AgentNestError, RuntimeNotAvailableError, SandboxDestroyedError, ExecutionError,
      ExecutionTimeoutError, FileAccessError, PolicyDeniedError, UnsupportedCapabilityError,
      PoolExhaustedError}"
  by (cases c; simp add: class_isa.simps)

lemmas isa_simps = isa_OSError isa_DockerException isa_APIError isa_NotFound isa_leaf
  isa_ValueError isa_PyException isa_AgentNestError

text \<open>Shorthands used by the models.\<close>

abbreviation value_error :: "str \<Rightarrow> exn" where
  "value_error m \<equiv> Exn ValueError m"

abbreviation destroyed_error :: exn where
  "destroyed_error \<equiv> Exn SandboxDestroyedError ''the sandbox has been destroyed''"

text \<open>\<open>repr(s)\<close>, which error messages embed.\<close>

definition repr_char :: "char \<Rightarrow> char \<Rightarrow> str" where
  "repr_char q c =
     (if c = q \<or> c = CHR 0x5C then [CHR 0x5C, c]
      else if c = CHR 0x0A then [CHR 0x5C, CHR ''n'']
      else if c = CHR 0x0D then [CHR 0x5C, CHR ''r'']
      else if c = CHR 0x09 then [CHR 0x5C, CHR ''t'']
      else [c])"

definition py_repr :: "str \<Rightarrow> str" where
  "py_repr s = (let q = (if CHR 0x27 \<in> set s \<and> CHR 0x22 \<notin> set s then CHR 0x22 else CHR 0x27)
     in q # concat (map (repr_char q) s) @ [q])"

end
