(* ===== verification/Policy.thy ===== *)
theory Policy
  imports Errors
begin

text \<open>
  \<open>src/agentnest/policy.py\<close>: the network and security policies with the validation of their
  \<open>__post_init__\<close> methods, and the image check \<open>validate_image\<close>.
\<close>

datatype network_mode = DENY | ALLOW | ALLOWLIST

fun mode_value :: "network_mode \<Rightarrow> str" where
  "mode_value DENY = ''deny''"
| "mode_value ALLOW = ''allow''"
| "mode_value ALLOWLIST = ''allowlist''"

text \<open>\<open>NetworkMode(value)\<close>.\<close>

definition mode_of_value :: "str \<Rightarrow> exn + network_mode" where
  "mode_of_value v =
     (if v = ''deny'' then Inr DENY else if v = ''allow'' then Inr ALLOW
      else if v = ''allowlist'' then Inr ALLOWLIST
      else Inl (value_error (py_repr v @ '' is not a valid NetworkMode'')))"

record network_policy =
  np_mode :: network_mode
  np_domains :: "str list"
  np_cidrs :: "str list"

definition make_network_policy :: "network_mode \<Rightarrow> str list \<Rightarrow> str list \<Rightarrow> exn + network_policy" where
  "make_network_policy mode domains cidrs =
     (if mode = ALLOWLIST \<and> \<not> (domains \<noteq> [] \<or> cidrs \<noteq> [])
      then Inl (value_error ''an allowlist policy requires at least one domain or CIDR'')
      else if mode \<noteq> ALLOWLIST \<and> (domains \<noteq> [] \<or> cidrs \<noteq> [])
      then Inl (value_error ''domains and CIDRs are only valid in allowlist mode'')
      else Inr \<lparr>np_mode = mode, np_domains = domains, np_cidrs = cidrs\<rparr>)"

definition denied :: network_policy where
  "denied = \<lparr>np_mode = DENY, np_domains = [], np_cidrs = []\<rparr>"

definition allowed :: network_policy where
  "allowed = \<lparr>np_mode = ALLOW, np_domains = [], np_cidrs = []\<rparr>"

definition allowlist :: "str list \<Rightarrow> str list \<Rightarrow> exn + network_policy" where
  "allowlist domains cidrs = make_network_policy ALLOWLIST domains cidrs"

record security_policy =
  sp_network :: network_policy
  max_output_bytes :: int
  max_file_read_bytes :: int
  allowed_images :: "str list"
  require_image_digest :: bool
  seccomp_profile :: "str option"
  apparmor_profile :: "str option"
  rootless :: bool
  egress_proxy_image :: str

definition default_policy :: security_policy where
  "default_policy = \<lparr>sp_network = denied, max_output_bytes = 10 * 1024 * 1024,
     max_file_read_bytes = 64 * 1024 * 1024, allowed_images = [], require_image_digest = False,
     seccomp_profile = None, apparmor_profile = None, rootless = False,
     egress_proxy_image = ''python:3.12-slim''\<rparr>"

text \<open>The \<open>__post_init__\<close> of \<open>SecurityPolicy\<close>, applied to the field values.\<close>

definition make_security_policy :: "security_policy \<Rightarrow> exn + security_policy" where
  "make_security_policy p =
     (if max_output_bytes p \<le> 0 then Inl (value_error ''max_output_bytes must be positive'')
      else if max_file_read_bytes p \<le> 0 then Inl (value_error ''max_file_read_bytes must be positive'')
      else Inr p)"

definition validate_image :: "security_policy \<Rightarrow> str \<Rightarrow> exn + unit" where
  "validate_image p img =
     (if require_image_digest p \<and> \<not> contains img ''@sha256:''
      then Inl (value_error ''security policy requires an image pinned by sha256 digest'')
      else if allowed_images p \<noteq> [] \<and> img \<notin> set (allowed_images p)
      then Inl (value_error (''image is not allowed by security policy: '' @ py_repr img))
      else Inr ())"

text \<open>Well-formed policies: what the constructors admit.\<close>

definition network_wf :: "network_policy \<Rightarrow> bool" where
  "network_wf p = (np_mode p = ALLOWLIST \<longleftrightarrow> np_domains p \<noteq> [] \<or> np_cidrs p \<noteq> [])"

definition security_wf :: "security_policy \<Rightarrow> bool" where
  "security_wf p = (network_wf (sp_network p) \<and> 0 < max_output_bytes p \<and> 0 < max_file_read_bytes p)"

text \<open>What an image must satisfy to be trusted under a policy.\<close>

definition image_trusted :: "security_policy \<Rightarrow> str \<Rightarrow> bool" where
  "image_trusted p img =
     ((require_image_digest p \<longrightarrow> contains img ''@sha256:'') \<and>
      (allowed_images p = [] \<or> img \<in> set (allowed_images p)))"

lemma mode_roundtrip [simp]: "mode_of_value (mode_value m) = Inr m"
  by (cases m) (simp_all add: mode_of_value_def)

lemma make_network_policy_wf:
  "make_network_policy m ds cs = Inr p \<longleftrightarrow>
     p = \<lparr>np_mode = m, np_domains = ds, np_cidrs = cs\<rparr> \<and> network_wf p"
  by (auto simp: make_network_policy_def network_wf_def)

lemma network_wf_presets [simp]: "network_wf denied" "network_wf allowed"
  by (simp_all add: network_wf_def denied_def allowed_def)

lemma default_policy_wf [simp]: "security_wf default_policy"
  by (simp add: security_wf_def default_policy_def)

lemma make_security_policy_ok:
  "make_security_policy p = Inr q \<longleftrightarrow> q = p \<and> 0 < max_output_bytes p \<and> 0 < max_file_read_bytes p"
  by (auto simp: make_security_policy_def)

lemma validate_image_trusted: "validate_image p img = Inr () \<longleftrightarrow> image_trusted p img"
  by (auto simp: validate_image_def image_trusted_def)

lemma validate_image_error:
  "\<not> image_trusted p img \<Longrightarrow> \<exists>m. validate_image p img = Inl (value_error m)"
  by (auto simp: validate_image_def image_trusted_def)

end
