(* ===== verification/Secrets.thy ===== *)
theory Secrets
  imports Policy
begin

text \<open>
  \<open>src/agentnest/secrets.py\<close>: secret environment values, their resolution before execution
  and their redaction from captured text. The main facts: a secret free of square brackets
  that is no part of the word \<open>REDACTED\<close> does not occur in redacted text, whatever the
  other secrets are; and a secret is always replaced as a whole, because longer secrets go
  first.
\<close>

datatype env_value = Plain str | Secret str

type_synonym secret_env = "(str, env_value) dict"
type_synonym environment = "(str, str) dict"

fun env_plain :: "env_value \<Rightarrow> str" where
  "env_plain (Secret v) = v"
| "env_plain (Plain v) = v"

definition reveal_environment :: "secret_env \<Rightarrow> environment" where
  "reveal_environment env = map (\<lambda>(k, v). (k, env_plain v)) env"

text \<open>The generator inside \<open>redact\<close>: the non-empty secret values, in dictionary order.\<close>

fun secret_of :: "env_value \<Rightarrow> str list" where
  "secret_of (Secret v) = (if v = [] then [] else [v])"
| "secret_of (Plain v) = []"

definition secret_values :: "secret_env \<Rightarrow> str list" where
  "secret_values env = concat (map (secret_of \<circ> snd) env)"

definition marker :: str where
  "marker = ''[REDACTED]''"

text \<open>\<open>sorted(..., key=len, reverse=True)\<close>: longest first, stable.\<close>

definition redaction_order :: "str list \<Rightarrow> str list" where
  "redaction_order vs = sort_key (\<lambda>v. - int (py_len v)) vs"

definition redact :: "str \<Rightarrow> secret_env \<Rightarrow> str" where
  "redact s env = fold (\<lambda>v t. replace_text v marker t) (redaction_order (secret_values env)) s"

text \<open>\<open>Secret.__repr__\<close> and \<open>Secret.__str__\<close>.\<close>

definition secret_repr :: "env_value \<Rightarrow> str" where
  "secret_repr v = (case v of Secret _ \<Rightarrow> ''Secret('' @ [CHR 0x27] @ ''********'' @ [CHR 0x27] @ '')''
     | Plain s \<Rightarrow> py_repr s)"

definition secret_str :: "env_value \<Rightarrow> str" where
  "secret_str v = (case v of Secret _ \<Rightarrow> ''********'' | Plain s \<Rightarrow> s)"

text \<open>Secrets that the marker cannot spell or complete.\<close>

definition markable :: "str \<Rightarrow> bool" where
  "markable v = (v \<noteq> [] \<and> CHR ''['' \<notin> set v \<and> CHR '']'' \<notin> set v \<and> \<not> contains ''REDACTED'' v)"

lemma secret_values_iff: "v \<in> set (secret_values env) \<longleftrightarrow> Secret v \<in> snd ` set env \<and> v \<noteq> []"
proof -
  have "v \<in> set (secret_of x) \<longleftrightarrow> x = Secret v \<and> v \<noteq> []" for x
    by (cases x) auto
  then show ?thesis by (force simp: secret_values_def)
qed

lemma redaction_order_set [simp]: "set (redaction_order vs) = set vs"
  by (simp add: redaction_order_def)

lemma sublist_between:
  assumes "sublist v (a # r @ [b])" "v \<noteq> []" "a \<notin> set v" "b \<notin> set v"
  shows "sublist v r"
proof -
  from assms(1) obtain ps ss where eq: "a # r @ [b] = ps @ v @ ss" by (auto simp: sublist_def)
  with assms(2,3) obtain ps' where ps: "ps = a # ps'" by (cases ps; cases v) auto
  with eq have eq': "r @ [b] = (ps' @ v) @ ss" by simp
  with assms(2,4) obtain ss' where "ss = ss' @ [b]"
    by (cases ss rule: rev_cases; cases v rule: rev_cases) (auto simp flip: append_assoc)
  with eq' have "r = ps' @ v @ ss'" by simp
  then show ?thesis by (auto simp: sublist_def)
qed

lemma markable_not_in_marker: "markable v \<Longrightarrow> \<not> sublist v marker"
  using sublist_between [of v "CHR ''[''" "''REDACTED''" "CHR '']''"]
  by (auto simp: markable_def marker_def contains_def)

text \<open>A piece without an opening bracket that starts a replaced text starts the original.\<close>

lemma replace_prefix_inv:
  assumes "old \<noteq> []" "CHR ''['' \<notin> set v" "prefix v (replace_text old marker s)"
  shows "prefix v s"
  using assms(2, 3)
proof (induction s arbitrary: v)
  case Nil
  with assms(1) show ?case by simp
next
  case (Cons c s)
  show ?case
  proof (cases "prefix old (c # s)")
    case True
    then obtain t where "c # s = old @ t" by (auto simp: prefix_def)
    with Cons.prems assms(1) have "prefix v (marker @ replace_text old marker t)"
      by (simp add: replace_text_hit)
    with Cons.prems(1) have "v = []" by (cases v) (auto simp: marker_def)
    then show ?thesis by simp
  next
    case False
    with Cons.prems Cons.IH assms(1) show ?thesis
      by (cases v) (auto simp: replace_text_miss)
  qed
qed

text \<open>The core step: replacing \<open>old\<close> removes it, and brings no other secret in.\<close>

lemma replace_keeps_absent:
  assumes "old \<noteq> []" "markable v" "old = v \<or> \<not> sublist v s"
  shows "\<not> sublist v (replace_text old marker s)"
  using assms(3)
proof (induction "length s" arbitrary: s rule: less_induct)
  case less
  have v: "v \<noteq> []" "CHR ''['' \<notin> set v" "CHR '']'' \<notin> set v"
    using assms(2) by (simp_all add: markable_def)
  from assms(1) show ?case
  proof (cases rule: replace_text_cases [of old s])
    case Nil
    with v assms(1) show ?thesis by simp
  next
    case (hit t)
    with less.prems have "old = v \<or> \<not> sublist v t" by (auto simp: sublist_append)
    with less.hyps [of t] hit assms(1) have IH: "\<not> sublist v (replace_text old marker t)" by simp
    have "\<not> sublist v (marker @ replace_text old marker t)"
    proof
      assume "sublist v (marker @ replace_text old marker t)"
      with IH markable_not_in_marker [OF assms(2)] obtain xs ys
        where "v = xs @ ys" "suffix xs marker" "prefix ys (replace_text old marker t)"
        by (auto simp only: sublist_append)
      moreover from this v(3) have "xs = []"
        by (cases xs rule: rev_cases) (auto simp: marker_def suffix_def)
      ultimately show False using IH by auto
    qed
    with hit assms(1) show ?thesis by (simp add: replace_text_hit)
  next
    case (miss c t)
    with less.prems have "old = v \<or> \<not> sublist v t" by (auto simp: sublist_Cons_right)
    with less.hyps [of t] miss have IH: "\<not> sublist v (replace_text old marker t)" by simp
    have "\<not> prefix v (c # replace_text old marker t)"
    proof
      assume p: "prefix v (c # replace_text old marker t)"
      then have "prefix v (replace_text old marker s)"
        using miss assms(1) by (simp add: replace_text_miss)
      then have "prefix v s" by (rule replace_prefix_inv [OF assms(1) v(2)])
      with less.prems miss show False by auto
    qed
    with IH miss assms(1) show ?thesis by (simp add: replace_text_miss sublist_Cons_right)
  qed
qed

lemma redact_steps_absent:
  "\<lbrakk>\<forall>w \<in> set vs. w \<noteq> []; markable v; v \<in> set vs \<or> \<not> sublist v s\<rbrakk>
    \<Longrightarrow> \<not> sublist v (fold (\<lambda>v t. replace_text v marker t) vs s)"
proof (induction vs arbitrary: s)
  case (Cons w vs)
  from Cons.prems have "v \<in> set vs \<or> \<not> sublist v (replace_text w marker s)"
    using replace_keeps_absent [of w v s] by auto
  with Cons show ?case by simp
qed auto

lemma redact_absent:
  assumes "v \<in> set (secret_values env)" "markable v"
  shows "\<not> contains (redact s env) v"
  unfolding contains_def redact_def
  by (rule redact_steps_absent) (use assms in \<open>auto simp: secret_values_iff\<close>)

lemma redact_no_secrets: "secret_values env = [] \<Longrightarrow> redact s env = s"
  by (simp add: redact_def redaction_order_def)

lemma replace_steps_absent:
  "\<forall>w \<in> set ws. w \<noteq> [] \<and> \<not> sublist w t \<Longrightarrow> fold (\<lambda>v t. replace_text v marker t) ws t = t"
  by (induction ws) (auto simp: replace_text_absent)

lemma replace_text_self: "v \<noteq> [] \<Longrightarrow> replace_text v new v = new"
  using replace_text_hit [of v new "[]"] by simp

lemma sublist_same_length: "sublist w v \<Longrightarrow> length v \<le> length w \<Longrightarrow> w = v"
  by (auto simp: sublist_def)

lemma redaction_order_sorted: "sorted_wrt (\<lambda>v w. py_len w \<le> py_len v) (redaction_order vs)"
proof -
  have "sorted (map (\<lambda>v. - int (py_len v)) (redaction_order vs))"
    by (simp add: redaction_order_def)
  then show ?thesis by (simp add: sorted_map)
qed

lemma redact_whole:
  assumes all: "\<forall>w \<in> set (secret_values env). markable w \<and> is_ascii w"
    and v: "v \<in> set (secret_values env)"
  shows "redact v env = marker"
proof -
  let ?step = "\<lambda>v t. replace_text v marker t"
  have mv: "v \<noteq> []" using v by (simp add: secret_values_iff)
  from v have "v \<in> set (redaction_order (secret_values env))" by simp
  then obtain as bs where order: "redaction_order (secret_values env) = as @ v # bs" "v \<notin> set as"
    by (meson split_list_first)
  have sub: "set as \<subseteq> set (secret_values env)" "set bs \<subseteq> set (secret_values env)"
    using order(1) redaction_order_set [of "secret_values env"] by auto
  have "\<forall>w \<in> set as. py_len v \<le> py_len w"
    using redaction_order_sorted [of "secret_values env"] by (simp add: order(1) sorted_wrt_append)
  then have "\<forall>w \<in> set as. w \<noteq> [] \<and> \<not> sublist w v"
    using all sub(1) v order(2)
    by (metis markable_def py_len_ascii sublist_same_length subsetD)
  then have "fold ?step as v = v" by (rule replace_steps_absent)
  moreover have "fold ?step bs marker = marker"
    using all sub(2) by (intro replace_steps_absent) (auto simp: markable_not_in_marker markable_def)
  ultimately show ?thesis
    by (simp add: redact_def order(1) replace_text_self [OF mv])
qed

end
