(* ===== verification/Models.thy ===== *)
theory Models
  imports Secrets
begin

text \<open>
  \<open>src/agentnest/models.py\<close>: resource limits, the sandbox configuration, execution results
  and output chunks, with the checks of the constructors. Python's floats (timeouts, CPU
  quotas, clock values) are exact rationals here: rounding is not modelled.
\<close>

datatype memory_limit = MemText str | MemBytes int

record resource_limits =
  memory :: memory_limit
  cpus :: rat
  pids :: int
  gpus :: int

definition default_limits :: resource_limits where
  "default_limits = \<lparr>memory = MemText ''512m'', cpus = 1, pids = 256, gpus = 0\<rparr>"

text \<open>\<open>ResourceLimits.__post_init__\<close> on the field values.\<close>

definition make_limits :: "resource_limits \<Rightarrow> exn + resource_limits" where
  "make_limits l =
     (if (case memory l of MemBytes n \<Rightarrow> n \<le> 0 | _ \<Rightarrow> False)
      then Inl (value_error ''memory must be positive'')
      else if (case memory l of MemText s \<Rightarrow> strip s = [] | _ \<Rightarrow> False)
      then Inl (value_error ''memory must not be empty'')
      else if cpus l \<le> 0 then Inl (value_error ''cpus must be positive'')
      else if pids l \<le> 0 then Inl (value_error ''pids must be positive'')
      else if gpus l < 0 then Inl (value_error ''gpus must be zero or positive'')
      else Inr l)"

record sandbox_config =
  image_name :: str
  lifetime :: rat
  cfg_environment :: environment
  workdir :: str
  network_enabled :: bool
  limits :: resource_limits
  read_only_root :: bool
  policy :: security_policy

text \<open>\<open>SandboxConfig.__post_init__\<close>; the environment is copied, which a value needs not.\<close>

definition make_config :: "sandbox_config \<Rightarrow> exn + sandbox_config" where
  "make_config c =
     (if strip (image_name c) = [] then Inl (value_error ''image must not be empty'')
      else if lifetime c \<le> 0 then Inl (value_error ''timeout must be positive'')
      else if workdir c \<noteq> ''/workspace'' \<and> \<not> prefix ''/workspace/'' (workdir c)
      then Inl (value_error ''workdir must be /workspace or a directory beneath it'')
      else Inr c)"

record exec_result =
  er_command :: str
  exit_code :: int
  stdout :: str
  stderr :: str
  duration :: rat

definition result_ok :: "exec_result \<Rightarrow> bool" where
  "result_ok r = (exit_code r = 0)"

text \<open>\<open>a or b\<close> on strings.\<close>

definition or_else :: "str \<Rightarrow> str \<Rightarrow> str" where
  "or_else a b = (if a = [] then b else a)"

definition check_result :: "exec_result \<Rightarrow> exn + exec_result" where
  "check_result r =
     (if \<not> result_ok r then
        let detail = or_else (or_else (strip (stderr r)) (strip (stdout r))) ''no output''
        in Inl (Exn ExecutionError
             (''command exited with status '' @ int_text (exit_code r) @ '': '' @ detail))
      else Inr r)"

record snapshot_metadata =
  snap_path :: str
  snap_size :: int
  snap_sha256 :: str
  snap_created_at :: rat

datatype stream_name = STDOUT | STDERR | STATUS

record exec_chunk =
  ch_stream :: stream_name
  ch_data :: str
  ch_timestamp :: rat
  ch_exit :: "int option"

text \<open>\<open>src/agentnest/artifacts.py\<close>.\<close>

record artifact =
  art_path :: str
  art_size :: int
  art_sha256 :: str

definition limits_wf :: "resource_limits \<Rightarrow> bool" where
  "limits_wf l = ((case memory l of MemBytes n \<Rightarrow> 0 < n | MemText s \<Rightarrow> strip s \<noteq> []) \<and>
     0 < cpus l \<and> 0 < pids l \<and> 0 \<le> gpus l)"

lemma make_limits_ok: "make_limits l = Inr l' \<longleftrightarrow> l' = l \<and> limits_wf l"
  by (auto simp: make_limits_def limits_wf_def not_le not_less split: memory_limit.splits)

lemma make_limits_error: "make_limits l = Inl e \<Longrightarrow> exn_class e = ValueError"
  by (auto simp: make_limits_def split: if_splits)

lemma make_config_ok: "make_config c = Inr c' \<longleftrightarrow>
    c' = c \<and> strip (image_name c) \<noteq> [] \<and> 0 < lifetime c \<and>
    (workdir c = ''/workspace'' \<or> prefix ''/workspace/'' (workdir c))"
  by (auto simp: make_config_def not_le)

lemma check_result_ok [simp]: "check_result r = Inr r' \<longleftrightarrow> r' = r \<and> exit_code r = 0"
  by (auto simp: check_result_def result_ok_def Let_def)

lemma check_result_error: "exit_code r \<noteq> 0 \<Longrightarrow> \<exists>m. check_result r = Inl (Exn ExecutionError m)"
  by (simp add: check_result_def result_ok_def Let_def)

end
