(* ===== verification/Approvals.thy ===== *)
theory Approvals
  imports Models
begin

text \<open>
  \<open>src/agentnest/approvals.py\<close> and \<open>src/agentnest/events.py\<close>: the approval hook that is
  asked before each sensitive action, and the audit events with their observers.
\<close>

datatype action =
    EXECUTE | EXECUTE_PYTHON | EXECUTE_SHELL | WRITE_FILE | READ_FILE | SNAPSHOT | RESTORE | FORK

fun action_value :: "action \<Rightarrow> str" where
  "action_value EXECUTE = ''execute''"
| "action_value EXECUTE_PYTHON = ''execute_python''"
| "action_value EXECUTE_SHELL = ''execute_shell''"
| "action_value WRITE_FILE = ''write_file''"
| "action_value READ_FILE = ''read_file''"
| "action_value SNAPSHOT = ''snapshot''"
| "action_value RESTORE = ''restore''"
| "action_value FORK = ''fork''"

text \<open>The values that the \<open>Any\<close> entries of details and attributes take in the source.\<close>

datatype detail = DText str | DInt int | DBool bool | DRat rat | DList "str list" | DNone

record approval_request =
  rq_action :: action
  rq_sandbox :: str
  rq_details :: "(str, detail) dict"

text \<open>A hook decides, or raises.\<close>

type_synonym approval_hook = "approval_request \<Rightarrow> exn + bool"

definition allow_all :: approval_hook where
  "allow_all r = Inr True"

definition deny_all :: approval_hook where
  "deny_all r = Inr False"

definition require_approval :: "approval_hook \<Rightarrow> approval_request \<Rightarrow> exn + unit" where
  "require_approval hook r =
     (case hook r of Inl e \<Rightarrow> Inl e
      | Inr ok \<Rightarrow> if \<not> ok then Inl (Exn PolicyDeniedError
            (''sandbox action was denied: '' @ action_value (rq_action r)))
          else Inr ())"

datatype event_type =
    CREATED | EXECUTION_STARTED | EXECUTION_FINISHED | FILE_WRITTEN | FILE_READ
  | SNAPSHOT_CREATED | SNAPSHOT_RESTORED | FORKED | DESTROYED | POLICY_DENIED

fun event_value :: "event_type \<Rightarrow> str" where
  "event_value CREATED = ''sandbox.created''"
| "event_value EXECUTION_STARTED = ''execution.started''"
| "event_value EXECUTION_FINISHED = ''execution.finished''"
| "event_value FILE_WRITTEN = ''file.written''"
| "event_value FILE_READ = ''file.read''"
| "event_value SNAPSHOT_CREATED = ''snapshot.created''"
| "event_value SNAPSHOT_RESTORED = ''snapshot.restored''"
| "event_value FORKED = ''sandbox.forked''"
| "event_value DESTROYED = ''sandbox.destroyed''"
| "event_value POLICY_DENIED = ''policy.denied''"

record sandbox_event =
  ev_type :: event_type
  ev_sandbox :: str
  ev_timestamp :: rat
  ev_attributes :: "(str, detail) dict"
  ev_id :: str

text \<open>\<open>EventObserver.emit\<close>: it may raise.\<close>

type_synonym observer = "sandbox_event \<Rightarrow> exn option"

text \<open>\<open>MemoryObserver\<close>: its state is the list of events it was given.\<close>

definition memory_emit :: "sandbox_event \<Rightarrow> sandbox_event list \<Rightarrow> sandbox_event list" where
  "memory_emit ev events = events @ [ev]"

text \<open>The loop of \<open>Sandbox._emit\<close>: each observer is called in turn, and what it raises is
  suppressed unless it is not an \<open>Exception\<close>.\<close>

primrec notify :: "observer list \<Rightarrow> sandbox_event \<Rightarrow> exn option" where
  "notify [] ev = None"
| "notify (ob # obs) ev =
     (case ob ev of None \<Rightarrow> notify obs ev
      | Some e \<Rightarrow> if exn_isa e PyException then notify obs ev else Some e)"

text \<open>Observers whose failures are ordinary exceptions, as every library observer's are.\<close>

definition tame :: "observer list \<Rightarrow> bool" where
  "tame obs = (\<forall>ob \<in> set obs. \<forall>ev. case ob ev of None \<Rightarrow> True | Some e \<Rightarrow> exn_isa e PyException)"

lemma notify_tame: "tame obs \<Longrightarrow> notify obs ev = None"
  by (induction obs) (auto simp: tame_def split: option.splits dest!: bspec)

lemma require_approval_allow [simp]: "require_approval allow_all r = Inr ()"
  by (simp add: require_approval_def allow_all_def)

lemma require_approval_deny:
  "require_approval deny_all r =
     Inl (Exn PolicyDeniedError (''sandbox action was denied: '' @ action_value (rq_action r)))"
  by (simp add: require_approval_def deny_all_def)

lemma require_approval_ok: "require_approval h r = Inr u \<longleftrightarrow> h r = Inr True"
  by (auto simp: require_approval_def split: sum.splits if_splits)

lemma action_value_inj: "action_value a = action_value b \<longleftrightarrow> a = b"
  by (cases a; cases b) auto

lemma event_value_inj: "event_value a = event_value b \<longleftrightarrow> a = b"
  by (cases a; cases b) auto

end
