(* ===== verification/Backend.thy ===== *)
theory Backend
  imports Approvals
begin

text \<open>
  \<open>src/agentnest/runtime/base.py\<close> and \<open>src/agentnest/capabilities.py\<close>: the contract between
  a sandbox and the runtime that isolates it. A runtime is a table of operations over its own
  state \<open>'b\<close> (the fields of the backend object) and the outside world \<open>'w\<close> it acts on. The
  optional protocols are optional entries. The locale \<open>runtime_contract\<close> states what the
  sandbox layer relies on after destruction.
\<close>

text \<open>The keyword arguments of \<open>exec\<close> and \<open>stream_exec\<close>.\<close>

record exec_request =
  xr_command :: "str list"
  xr_display :: str
  xr_environment :: environment
  xr_workdir :: "str option"
  xr_timeout :: "rat option"

type_synonym ('b, 'w, 'a) runtime_op = "(exn, 'b \<times> 'w, 'a) comp"

text \<open>A generator is the list of chunks it yields, and the exception that ends it, if one does.\<close>

type_synonym stream_result = "exec_chunk list \<times> exn option"

record ('b, 'w) runtime =
  rt_name :: str
  rt_create :: "sandbox_config \<Rightarrow> ('b, 'w, unit) runtime_op"
  rt_exec :: "exec_request \<Rightarrow> ('b, 'w, exec_result) runtime_op"
  rt_write_file :: "str \<Rightarrow> bytes \<Rightarrow> ('b, 'w, unit) runtime_op"
  rt_read_file :: "str \<Rightarrow> ('b, 'w, bytes) runtime_op"
  rt_logs :: "('b, 'w, str) runtime_op"
  rt_destroy :: "('b, 'w, unit) runtime_op"
  rt_snapshot :: "((str \<Rightarrow> ('b, 'w, snapshot_metadata) runtime_op) \<times>
    (str \<Rightarrow> ('b, 'w, unit) runtime_op)) option"
  rt_fork :: "('b, 'w, 'b) runtime_op option"
  rt_stream :: "(exec_request \<Rightarrow> ('b, 'w, stream_result) runtime_op) option"

section \<open>What the sandbox layer relies on\<close>

text \<open>
  \<open>live b\<close>: the backend owns a running environment. A backend without one refuses to execute,
  write or read, its state is settled, and destroying it again does nothing.
\<close>

definition dead :: "('b \<Rightarrow> bool) \<Rightarrow> 'b \<times> 'w \<Rightarrow> bool" where
  "dead live s = (\<not> live (fst s))"

locale runtime_contract =
  fixes R :: "('b, 'w) runtime" and live :: "'b \<Rightarrow> bool"
  assumes destroy_ends: "rt_destroy R (b, w) = (r, (b', w')) \<Longrightarrow> \<not> live b'"
    and destroy_again: "\<not> live b \<Longrightarrow> rt_destroy R (b, w) = (Inr (), (b, w))"
    and dead_exec: "\<not> live b \<Longrightarrow> \<exists>m w'. rt_exec R q (b, w) = (Inl (Exn SandboxDestroyedError m), (b, w'))"
    and dead_write: "\<not> live b \<Longrightarrow> \<exists>e w'. rt_write_file R p c (b, w) = (Inl e, (b, w'))"
    and dead_read: "\<not> live b \<Longrightarrow> \<exists>e w'. rt_read_file R p (b, w) = (Inl e, (b, w'))"
    and dead_logs: "keeps (dead live) (rt_logs R)"
    and dead_snapshot: "rt_snapshot R = Some (save, load) \<Longrightarrow> keeps (dead live) (save p)"
    and dead_restore: "rt_snapshot R = Some (save, load) \<Longrightarrow> keeps (dead live) (load p)"
    and dead_fork: "rt_fork R = Some branch \<Longrightarrow> keeps (dead live) branch"
    and dead_stream: "rt_stream R = Some stream \<Longrightarrow> keeps (dead live) (stream q)"
begin

text \<open>The name of the class plays no part in the contract.\<close>

lemma renamed: "runtime_contract (R\<lparr>rt_name := n\<rparr>) live"
  using runtime_contract_axioms by (simp add: runtime_contract_def)

text \<open>What is dead stays dead under every operation but \<open>create\<close>.\<close>

lemma keeps_dead:
  "keeps (dead live) (rt_exec R q)" "keeps (dead live) (rt_write_file R p c)"
  "keeps (dead live) (rt_read_file R p)"
proof -
  have "\<not> live b'" if "\<not> live b" "rt_exec R q (b, w) = (r, (b', w'))" for b w r b' w'
    using dead_exec [OF that(1), of q w] that by auto
  then show "keeps (dead live) (rt_exec R q)" by (auto intro!: keepsI simp: dead_def)
  have "\<not> live b'" if "\<not> live b" "rt_write_file R p c (b, w) = (r, (b', w'))" for b w r b' w'
    using dead_write [OF that(1), of p c w] that by auto
  then show "keeps (dead live) (rt_write_file R p c)" by (auto intro!: keepsI simp: dead_def)
  have "\<not> live b'" if "\<not> live b" "rt_read_file R p (b, w) = (r, (b', w'))" for b w r b' w'
    using dead_read [OF that(1), of p w] that by auto
  then show "keeps (dead live) (rt_read_file R p)" by (auto intro!: keepsI simp: dead_def)
qed

text \<open>Destruction is idempotent.\<close>

lemma destroy_twice:
  assumes "rt_destroy R (b, w) = (r, (b', w'))"
  shows "rt_destroy R (b', w') = (Inr (), (b', w'))"
  by (rule destroy_again) (rule destroy_ends [OF assms])

lemma exec_after_destroy:
  assumes "rt_destroy R (b, w) = (r, (b', w'))"
  shows "\<exists>m. fst (rt_exec R q (b', w')) = Inl (Exn SandboxDestroyedError m)"
  using dead_exec [OF destroy_ends [OF assms], of q w'] by auto

end

end
