(* ===== verification/Paths.thy ===== *)
theory Paths
  imports Models
begin

text \<open>
  Workspace paths: the components of a \<open>pathlib.Path\<close>, \<open>_relative_parts\<close> and
  \<open>normalize_workspace_path\<close> of \<open>src/agentnest/filesystem.py\<close>, \<open>posixpath.normpath\<close> and
  the working-directory check \<open>Sandbox._normalize_workdir\<close> of \<open>src/agentnest/sandbox.py\<close>.
  What they accept stays inside the workspace.
\<close>

abbreviation slash :: char where
  "slash \<equiv> CHR ''/''"

section \<open>pathlib\<close>

text \<open>The root of a POSIX path: exactly two leading slashes are a root of their own.\<close>

definition path_root :: "str \<Rightarrow> str" where
  "path_root p = (if prefix ''//'' p \<and> \<not> prefix ''///'' p then ''//''
     else if prefix ''/'' p then ''/'' else [])"

definition path_parts :: "str \<Rightarrow> str list" where
  "path_parts p = (if path_root p = [] then [] else [path_root p]) @
     filter (\<lambda>c. c \<noteq> [] \<and> c \<noteq> ''.'') (split_on slash p)"

definition relative_parts :: "str \<Rightarrow> exn + str list" where
  "relative_parts p =
     (if path_root p \<noteq> [] then Inl (Exn FileAccessError ''workspace paths must be relative'')
      else let parts = path_parts p in
        if parts = [] \<or> parts = [''.''] \<or> (\<exists>c \<in> set parts. c \<in> {[], ''.'', ''..''})
        then Inl (Exn FileAccessError (''invalid workspace file path: '' @ py_repr p))
        else Inr parts)"

definition normalize_workspace_path :: "str \<Rightarrow> exn + str" where
  "normalize_workspace_path p =
     (case relative_parts p of Inl e \<Rightarrow> Inl e | Inr parts \<Rightarrow> Inr (join_with ''/'' parts))"

text \<open>A name that a directory entry can have and that does not move upwards.\<close>

definition plain_name :: "str \<Rightarrow> bool" where
  "plain_name c = (c \<noteq> [] \<and> c \<noteq> ''.'' \<and> c \<noteq> ''..'' \<and> slash \<notin> set c)"

definition safe_relative :: "str \<Rightarrow> bool" where
  "safe_relative p = (\<exists>cs. cs \<noteq> [] \<and> p = join_with ''/'' cs \<and> (\<forall>c \<in> set cs. plain_name c))"

lemma relative_parts_plain:
  assumes "relative_parts p = Inr cs"
  shows "cs \<noteq> []" "\<forall>c \<in> set cs. plain_name c"
proof -
  from assms show "cs \<noteq> []" by (auto simp: relative_parts_def Let_def split: if_splits)
  from assms have "cs = path_parts p" "path_root p = []" "\<forall>c \<in> set cs. c \<notin> {[], ''.'', ''..''}"
    by (auto simp: relative_parts_def Let_def split: if_splits)
  then show "\<forall>c \<in> set cs. plain_name c"
    by (auto simp: plain_name_def path_parts_def dest: split_on_no_sep)
qed

lemma path_root_plain:
  assumes "c \<noteq> []" "slash \<notin> set c"
  shows "path_root (c @ s) = []"
  using assms by (cases c) (auto simp: path_root_def)

lemma join_head: "join_with sep (c # cs) = c @ (if cs = [] then [] else sep @ join_with sep cs)"
  by (cases cs) auto

text \<open>Joining plain names and taking the path apart again gives the names back.\<close>

lemma relative_parts_join:
  assumes "cs \<noteq> []" "\<forall>c \<in> set cs. plain_name c"
  shows "relative_parts (join_with ''/'' cs) = Inr cs"
proof -
  obtain c ds where cs: "cs = c # ds" using assms(1) by (cases cs) auto
  have root: "path_root (join_with ''/'' cs) = []"
    using assms(2) by (simp add: cs join_head path_root_plain plain_name_def)
  have split: "split_on slash (join_with ''/'' cs) = cs"
    using split_join [of cs slash] assms by (auto simp: plain_name_def)
  have "filter (\<lambda>c. c \<noteq> [] \<and> c \<noteq> ''.'') cs = cs"
    using assms(2) by (intro filter_True) (simp add: plain_name_def)
  with root split have parts: "path_parts (join_with ''/'' cs) = cs"
    by (simp add: path_parts_def)
  have plain: "c \<notin> {[], ''.'', ''..''}" if "plain_name c" for c
    using that by (auto simp: plain_name_def)
  have "\<forall>c \<in> set cs. c \<notin> {[], ''.'', ''..''}"
  proof
    fix c assume "c \<in> set cs"
    with assms(2) have "plain_name c" ..
    then show "c \<notin> {[], ''.'', ''..''}" by (rule plain)
  qed
  moreover have "cs \<noteq> [''.'']"
  proof
    assume "cs = [''.'']"
    with assms(2) have "plain_name ''.''" by simp
    then show False by (simp add: plain_name_def)
  qed
  ultimately show ?thesis
    using assms(1) by (simp add: relative_parts_def root parts Let_def)
qed

lemma normalize_safe: "normalize_workspace_path p = Inr q \<Longrightarrow> safe_relative q"
  unfolding normalize_workspace_path_def safe_relative_def
  by (auto split: sum.splits dest: relative_parts_plain)

lemma normalize_idem:
  assumes "normalize_workspace_path p = Inr q"
  shows "normalize_workspace_path q = Inr q"
proof -
  from assms obtain cs where "relative_parts p = Inr cs" "q = join_with ''/'' cs"
    by (auto simp: normalize_workspace_path_def split: sum.splits)
  with relative_parts_plain [of p cs] have "relative_parts q = Inr cs"
    by (simp add: relative_parts_join)
  then show ?thesis by (simp add: normalize_workspace_path_def \<open>q = _\<close>)
qed

lemma relative_parts_error: "relative_parts p = Inl e \<Longrightarrow> exn_class e = FileAccessError"
  by (auto simp: relative_parts_def Let_def split: if_splits)

lemma normalize_error: "normalize_workspace_path p = Inl e \<Longrightarrow> exn_class e = FileAccessError"
  by (auto simp: normalize_workspace_path_def split: sum.splits dest: relative_parts_error)

lemma dotdot_rejected:
  assumes "''..'' \<in> set (split_on slash p)"
  shows "\<exists>e. relative_parts p = Inl e"
  using assms by (auto simp: relative_parts_def path_parts_def Let_def)

section \<open>posixpath.normpath and working directories\<close>

text \<open>The loop body: \<open>new_comps\<close> is kept reversed, so its last element is the head.\<close>

definition norm_comp :: "bool \<Rightarrow> str \<Rightarrow> str list \<Rightarrow> str list" where
  "norm_comp rooted part acc =
     (if part = [] \<or> part = ''.'' then acc
      else if part \<noteq> ''..'' \<or> (\<not> rooted \<and> acc = []) \<or> (acc \<noteq> [] \<and> hd acc = ''..'')
      then part # acc
      else if acc \<noteq> [] then tl acc else acc)"

definition normpath :: "str \<Rightarrow> str" where
  "normpath p =
     (if p = [] then ''.''
      else let root = path_root p;
             comps = rev (fold (norm_comp (root \<noteq> [])) (split_on slash p) []);
             q = root @ join_with ''/'' comps
           in if q = [] then ''.'' else q)"

definition normalize_workdir :: "str \<Rightarrow> exn + str" where
  "normalize_workdir w =
     (let n = normpath w in
      if n \<noteq> ''/workspace'' \<and> \<not> prefix ''/workspace/'' n
      then Inl (value_error ''workdir must be /workspace or a directory beneath it'')
      else Inr n)"

definition inside_workspace :: "str \<Rightarrow> bool" where
  "inside_workspace w =
     (\<exists>cs. w = ''/'' @ join_with ''/'' (''workspace'' # cs) \<and> (\<forall>c \<in> set cs. plain_name c))"

lemma norm_fold_plain:
  assumes "\<forall>c \<in> set acc. plain_name c" "\<forall>c \<in> set cs. slash \<notin> set c"
  shows "\<forall>c \<in> set (fold (norm_comp True) cs acc). plain_name c"
  using assms
proof (induction cs arbitrary: acc)
  case (Cons d cs)
  have "\<forall>c \<in> set (norm_comp True d acc). plain_name c"
    using Cons.prems by (cases acc) (auto simp: norm_comp_def plain_name_def)
  with Cons show ?case by simp
qed simp

lemma normpath_rooted:
  assumes "path_root p \<noteq> []"
  obtains cs where "normpath p = path_root p @ join_with ''/'' cs" "\<forall>c \<in> set cs. plain_name c"
proof -
  let ?cs = "rev (fold (norm_comp True) (split_on slash p) [])"
  have "p \<noteq> []" using assms by (auto simp: path_root_def)
  with assms have "normpath p = path_root p @ join_with ''/'' ?cs"
    by (simp add: normpath_def Let_def)
  moreover have "\<forall>c \<in> set ?cs. plain_name c"
    using norm_fold_plain [of "[]" "split_on slash p"] by (auto dest: split_on_no_sep)
  ultimately show ?thesis by (rule that)
qed

lemma norm_comp_set: "set (norm_comp r d acc) \<subseteq> set acc \<union> ({d} - {[]})"
  unfolding norm_comp_def by (cases acc) auto

lemma norm_fold_set: "set (fold (norm_comp r) cs acc) \<subseteq> set acc \<union> (set cs - {[]})"
proof (induction cs arbitrary: acc)
  case (Cons d cs)
  from Cons.IH [of "norm_comp r d acc"] norm_comp_set [of r d acc] show ?case by auto
qed simp

text \<open>A relative path stays relative.\<close>

lemma normpath_relative:
  assumes "w \<noteq> []" "path_root w = []"
  shows "normpath w \<noteq> [] \<and> hd (normpath w) \<noteq> slash"
proof -
  define cs where "cs = rev (fold (norm_comp False) (split_on slash w) [])"
  have named: "c \<noteq> [] \<and> slash \<notin> set c" if "c \<in> set cs" for c
    using norm_fold_set [of False "split_on slash w" "[]"] that split_on_no_sep [of c slash w]
    by (auto simp: cs_def)
  have "normpath w = (if join_with ''/'' cs = [] then ''.'' else join_with ''/'' cs)"
    using assms by (simp add: normpath_def cs_def Let_def)
  moreover have "join_with ''/'' cs = [] \<or> hd (join_with ''/'' cs) \<noteq> slash"
  proof (cases cs)
    case (Cons c ds)
    with named [of c] obtain x xs where "c = x # xs" "x \<noteq> slash" by (cases c) auto
    then show ?thesis by (simp add: Cons join_head)
  qed simp
  ultimately show ?thesis by auto
qed

lemma normalize_workdir_inside:
  assumes "normalize_workdir w = Inr d"
  shows "inside_workspace d"
proof -
  from assms have d: "d = normpath w" and pre: "d = ''/workspace'' \<or> prefix ''/workspace/'' d"
    by (auto simp: normalize_workdir_def Let_def split: if_splits)
  have w: "w \<noteq> []" using d pre by (auto simp: normpath_def)
  have "path_root w \<noteq> []"
  proof
    assume rel: "path_root w = []"
    then have "hd d \<noteq> slash"
      using d w normpath_relative [OF w rel] by simp
    with pre show False by (auto simp: prefix_def)
  qed
  then obtain cs where n: "normpath w = path_root w @ join_with ''/'' cs"
    and cs: "\<forall>c \<in> set cs. plain_name c" by (rule normpath_rooted)
  have root: "path_root w = ''/''"
    using \<open>path_root w \<noteq> []\<close> pre d n by (auto simp: path_root_def prefix_def split: if_splits)
  have ne: "cs \<noteq> []" using pre d n root by (auto simp: prefix_def)
  have split: "split_on slash d = [] # cs"
    using split_join [OF ne, of slash] cs d n root by (auto simp: plain_name_def)
  from pre show ?thesis
  proof
    assume "d = ''/workspace''"
    then show ?thesis by (auto simp: inside_workspace_def intro!: exI [of _ "[]"])
  next
    assume "prefix ''/workspace/'' d"
    then obtain r where "d = ''/workspace/'' @ r" by (auto simp: prefix_def)
    then have "split_on slash d = [] # ''workspace'' # split_on slash r" by simp
    with split have "cs = ''workspace'' # split_on slash r" by simp
    with d n root cs show ?thesis
      by (auto simp: inside_workspace_def join_head intro!: exI [of _ "split_on slash r"])
  qed
qed

lemma normalize_workdir_error: "normalize_workdir w = Inl e \<Longrightarrow> exn_class e = ValueError"
  by (auto simp: normalize_workdir_def Let_def split: if_splits)

lemma norm_fold_same: "\<forall>c \<in> set cs. plain_name c \<Longrightarrow> fold (norm_comp True) cs acc = rev cs @ acc"
  by (induction cs arbitrary: acc) (auto simp: norm_comp_def plain_name_def)

lemma inside_normal:
  assumes "inside_workspace d"
  shows "normalize_workdir d = Inr d"
proof -
  from assms obtain cs where d: "d = ''/'' @ join_with ''/'' (''workspace'' # cs)" and cs: "\<forall>c \<in> set cs. plain_name c"
    by (auto simp: inside_workspace_def)
  have all: "\<forall>c \<in> set (''workspace'' # cs). plain_name c" using cs by (simp add: plain_name_def)
  have "split_on slash (join_with ''/'' (''workspace'' # cs)) = ''workspace'' # cs"
    using all by (intro split_join) (auto simp: plain_name_def)
  then have split: "split_on slash d = [] # ''workspace'' # cs" by (simp add: d)
  have root: "path_root d = ''/''" by (simp add: d path_root_def join_head)
  have "fold (norm_comp True) (split_on slash d) [] = rev (''workspace'' # cs)"
    unfolding split using norm_fold_same [OF all, of "[]"] by (simp add: norm_comp_def)
  then have "normpath d = d" using d root by (simp add: normpath_def Let_def)
  moreover have "d = ''/workspace'' \<or> prefix ''/workspace/'' d" by (cases cs) (simp_all add: d)
  ultimately show ?thesis by (auto simp: normalize_workdir_def Let_def)
qed

lemmas normalize_workdir_idem = inside_normal [OF normalize_workdir_inside]

section \<open>Resolved paths\<close>

text \<open>\<open>resolve_workspace_path\<close>. Paths are lists of components; \<open>realpath\<close> is \<open>Path.resolve\<close> on the disk of the
  host, which follows links and may raise. The parents of a path are its proper prefixes.\<close>

definition resolve_workspace_path :: "(str list \<Rightarrow> exn + str list) \<Rightarrow> str list \<Rightarrow> str \<Rightarrow> exn + str list" where
  "resolve_workspace_path realpath base p =
     (case relative_parts p of Inl e \<Rightarrow> Inl e
      | Inr parts \<Rightarrow> (case realpath base of Inl e \<Rightarrow> Inl e
        | Inr root_resolved \<Rightarrow> (case realpath (root_resolved @ parts) of Inl e \<Rightarrow> Inl e
          | Inr resolved \<Rightarrow> if strict_prefix root_resolved resolved then Inr resolved
              else Inl (Exn FileAccessError (''path escapes the sandbox workspace: '' @ py_repr p)))))"

lemma resolved_inside:
  assumes "resolve_workspace_path realpath base p = Inr q"
  shows "\<exists>r parts. realpath base = Inr r \<and> relative_parts p = Inr parts \<and> realpath (r @ parts) = Inr q \<and> strict_prefix r q"
  using assms by (auto simp: resolve_workspace_path_def split: sum.splits if_splits)

end
