(* ===== verification/Sandbox.thy ===== *)
theory Sandbox
  imports Backend Paths
begin

text \<open>
  \<open>src/agentnest/sandbox.py\<close>: the public sandbox object over an arbitrary runtime. A method is
  a computation on the sandbox's fields and the outside: the world the runtime acts on, a
  counter that indexes the clock readings and identifiers the method draws, and the audit
  events delivered so far. The timer thread that destroys an expired sandbox is the operation
  \<open>timer_fire\<close>; operations are interleaved as whole steps.
\<close>

section \<open>State\<close>

record 'b sandbox =
  sb_id :: str
  sb_secrets :: secret_env
  sb_redaction :: secret_env
  sb_config :: sandbox_config
  sb_backend :: 'b
  sb_destroyed :: bool
  sb_timer :: bool
  sb_deadline :: rat

record 'w outside =
  world :: 'w
  tick :: nat
  emitted :: "sandbox_event list"

record ('b, 'w) ambient =
  am_runtime :: "('b, 'w) runtime"
  am_observers :: "observer list"
  am_hook :: approval_hook
  am_monotonic :: "nat \<Rightarrow> rat"
  am_time :: "nat \<Rightarrow> rat"
  am_uuid :: "nat \<Rightarrow> str"

type_synonym ('b, 'w) state = "'b sandbox \<times> 'w outside"
type_synonym ('b, 'w, 'a) sandbox_method = "(exn, ('b, 'w) state, 'a) comp"

section \<open>Private helpers\<close>

text \<open>A call of the backend.\<close>

definition backend_call :: "('b, 'w, 'a) runtime_op \<Rightarrow> ('b, 'w, 'a) sandbox_method" where
  "backend_call m = (\<lambda>(sb, out). case m (sb_backend sb, world out) of
     (r, (b, w)) \<Rightarrow> (r, (sb\<lparr>sb_backend := b\<rparr>, out\<lparr>world := w\<rparr>)))"

text \<open>\<open>time.monotonic()\<close>.\<close>

definition monotonic :: "('b, 'w) ambient \<Rightarrow> ('b, 'w, rat) sandbox_method" where
  "monotonic A = (\<lambda>(sb, out). (Inr (am_monotonic A (tick out)), (sb, out\<lparr>tick := Suc (tick out)\<rparr>)))"

definition make_event ::
  "('b, 'w) ambient \<Rightarrow> nat \<Rightarrow> event_type \<Rightarrow> str \<Rightarrow> (str, detail) dict \<Rightarrow> sandbox_event" where
  "make_event A n ty sid attrs = \<lparr>ev_type = ty, ev_sandbox = sid, ev_timestamp = am_time A n,
     ev_attributes = attrs, ev_id = am_uuid A n\<rparr>"

definition emit ::
  "('b, 'w) ambient \<Rightarrow> event_type \<Rightarrow> (str, detail) dict \<Rightarrow> ('b, 'w, unit) sandbox_method" where
  "emit A ty attrs = (\<lambda>(sb, out).
     let ev = make_event A (tick out) ty (sb_id sb) attrs;
         out' = out\<lparr>tick := Suc (tick out), emitted := emitted out @ [ev]\<rparr>
     in case notify (am_observers A) ev of
          None \<Rightarrow> (Inr (), (sb, out'))
        | Some e \<Rightarrow> (Inl e, (sb, out')))"

definition ensure_active :: "('b, 'w, unit) sandbox_method" where
  "ensure_active = (\<lambda>(sb, out).
     if sb_destroyed sb then (Inl destroyed_error, (sb, out)) else (Inr (), (sb, out)))"

definition approve ::
  "('b, 'w) ambient \<Rightarrow> action \<Rightarrow> (str, detail) dict \<Rightarrow> ('b, 'w, unit) sandbox_method" where
  "approve A act details = (\<lambda>(sb, out). (require_approval (am_hook A)
     \<lparr>rq_action = act, rq_sandbox = sb_id sb, rq_details = details\<rparr>, (sb, out)))"

text \<open>\<open>Sandbox.destroy\<close>.\<close>

definition destroy :: "('b, 'w) ambient \<Rightarrow> ('b, 'w, unit) sandbox_method" where
  "destroy A =
     bnd (gets (sb_destroyed \<circ> fst)) (\<lambda>gone.
     if gone then ret ()
     else next_do (modify (\<lambda>(sb, out). (sb\<lparr>sb_destroyed := True, sb_timer := False\<rparr>, out)))
       (next_do (backend_call (rt_destroy (am_runtime A)))
          (emit A DESTROYED [])))"

definition effective_timeout ::
  "('b, 'w) ambient \<Rightarrow> rat option \<Rightarrow> ('b, 'w, rat) sandbox_method" where
  "effective_timeout A requested =
     bnd (gets (sb_deadline \<circ> fst)) (\<lambda>deadline.
     bnd (monotonic A) (\<lambda>now.
     let remaining = deadline - now in
     if remaining \<le> 0
     then next_do (destroy A)
       (raise (Exn SandboxDestroyedError ''the sandbox lifetime has expired''))
     else (case requested of
         None \<Rightarrow> ret remaining
       | Some t \<Rightarrow> if t \<le> 0 then raise (value_error ''timeout must be positive'')
           else ret (min t remaining))))"

definition effective_workdir :: "str option \<Rightarrow> ('b, 'w, str) sandbox_method" where
  "effective_workdir requested = (\<lambda>(sb, out).
     (normalize_workdir (case requested of None \<Rightarrow> workdir (sb_config sb)
        | Some d \<Rightarrow> or_else d (workdir (sb_config sb))), (sb, out)))"

definition redact_result :: "secret_env \<Rightarrow> secret_env \<Rightarrow> exec_result \<Rightarrow> exec_result" where
  "redact_result own env r = (let vals = dict_merge own env in
     r\<lparr>stdout := redact (stdout r) vals, stderr := redact (stderr r) vals\<rparr>)"

text \<open>\<open>_remember_secrets\<close>: each secret is kept under \<open>f"{key}:{len(self._redaction_secrets)}"\<close>.\<close>

definition memory_key :: "str \<Rightarrow> nat \<Rightarrow> str" where
  "memory_key k n = k @ '':'' @ int_text (int n)"

fun remember :: "secret_env \<Rightarrow> secret_env \<Rightarrow> secret_env" where
  "remember [] red = red"
| "remember ((k, Plain v) # env) red = remember env red"
| "remember ((k, Secret v) # env) red =
     remember env (dict_set (memory_key k (length red)) (Secret v) red)"

definition remember_secrets :: "secret_env \<Rightarrow> ('b, 'w, unit) sandbox_method" where
  "remember_secrets env = modify (\<lambda>(sb, out). (sb\<lparr>sb_redaction := remember env (sb_redaction sb)\<rparr>, out))"

section \<open>Execution\<close>

definition finished_attributes :: "str \<Rightarrow> exec_result \<Rightarrow> (str, detail) dict" where
  "finished_attributes kind r = [(''kind'', DText kind), (''exit_code'', DInt (exit_code r)),
     (''duration'', DRat (duration r))]"

text \<open>The part that \<open>exec_python\<close>, \<open>exec\<close> and \<open>exec_shell\<close> have in common, from
  \<open>self._remember_secrets\<close> on.\<close>

definition run_request ::
  "('b, 'w) ambient \<Rightarrow> str \<Rightarrow> str list \<Rightarrow> str \<Rightarrow> rat option \<Rightarrow> secret_env \<Rightarrow> str option
     \<Rightarrow> ('b, 'w, exec_result) sandbox_method" where
  "run_request A kind command display timeout env wd =
     next_do (remember_secrets env)
     (next_do (emit A EXECUTION_STARTED [(''kind'', DText kind)])
     (bnd (effective_workdir wd) (\<lambda>dir.
      bnd (effective_timeout A timeout) (\<lambda>limit.
      bnd (backend_call (rt_exec (am_runtime A)
          \<lparr>xr_command = command, xr_display = display, xr_environment = reveal_environment env,
           xr_workdir = Some dir, xr_timeout = Some limit\<rparr>)) (\<lambda>raw.
      bnd (gets (sb_secrets \<circ> fst)) (\<lambda>own.
      let result = redact_result own env raw in
      next_do (emit A EXECUTION_FINISHED (finished_attributes kind result)) (ret result)))))))"

definition exec_python ::
  "('b, 'w) ambient \<Rightarrow> str \<Rightarrow> rat option \<Rightarrow> secret_env \<Rightarrow> str option
     \<Rightarrow> ('b, 'w, exec_result) sandbox_method" where
  "exec_python A source timeout env wd =
     next_do ensure_active
     (next_do (approve A EXECUTE_PYTHON [(''code_bytes'', DInt (int (length source)))])
        (run_request A ''python'' [''python'', ''-c'', source] ''python -c <code>'' timeout env wd))"

definition exec_command ::
  "('b, 'w) ambient \<Rightarrow> str list \<Rightarrow> rat option \<Rightarrow> secret_env \<Rightarrow> str option \<Rightarrow> str option
     \<Rightarrow> ('b, 'w, exec_result) sandbox_method" where
  "exec_command A command timeout env wd display =
     next_do ensure_active
     (next_do (guard_or (command \<noteq> []) (value_error ''command must not be empty''))
     (next_do (approve A EXECUTE [(''command'', DList command)])
        (run_request A ''command'' command
           (or_else (case display of None \<Rightarrow> [] | Some d \<Rightarrow> d) (join_with '' '' command)) timeout env wd)))"

definition exec_shell ::
  "('b, 'w) ambient \<Rightarrow> str \<Rightarrow> rat option \<Rightarrow> secret_env \<Rightarrow> str option
     \<Rightarrow> ('b, 'w, exec_result) sandbox_method" where
  "exec_shell A script timeout env wd =
     next_do ensure_active
     (next_do (approve A EXECUTE_SHELL [(''script_bytes'', DInt (int (length script)))])
        (run_request A ''shell'' [''sh'', ''-c'', script] script timeout env wd))"

text \<open>The loop of \<open>stream_shell\<close>: each chunk is redacted and yielded; a status chunk is
  reported to the observers.\<close>

primrec yield_chunks ::
  "('b, 'w) ambient \<Rightarrow> secret_env \<Rightarrow> exec_chunk list \<Rightarrow> ('b, 'w, exec_chunk list) sandbox_method" where
  "yield_chunks A vals [] = ret []"
| "yield_chunks A vals (c # cs) =
     next_do (when_do (ch_stream c = STATUS)
        (emit A EXECUTION_FINISHED [(''kind'', DText ''shell''), (''streaming'', DBool True),
           (''exit_code'', case ch_exit c of None \<Rightarrow> DNone | Some n \<Rightarrow> DInt n)]))
       (bnd (yield_chunks A vals cs) (\<lambda>rest. ret (c\<lparr>ch_data := redact (ch_data c) vals\<rparr> # rest)))"

definition stream_shell ::
  "('b, 'w) ambient \<Rightarrow> str \<Rightarrow> rat option \<Rightarrow> secret_env \<Rightarrow> str option
     \<Rightarrow> ('b, 'w, stream_result) sandbox_method" where
  "stream_shell A script timeout env wd =
     next_do ensure_active
     (next_do (approve A EXECUTE_SHELL
         [(''script_bytes'', DInt (int (length script))), (''streaming'', DBool True)])
     (next_do (remember_secrets env)
     (case rt_stream (am_runtime A) of
        None \<Rightarrow> raise (Exn UnsupportedCapabilityError
            ''this backend does not support streaming execution'')
      | Some stream_exec \<Rightarrow>
          next_do (emit A EXECUTION_STARTED [(''kind'', DText ''shell''), (''streaming'', DBool True)])
          (bnd (gets (sb_secrets \<circ> fst)) (\<lambda>own.
           bnd (effective_workdir wd) (\<lambda>dir.
           bnd (effective_timeout A timeout) (\<lambda>limit.
           bnd (backend_call (stream_exec
               \<lparr>xr_command = [''sh'', ''-c'', script], xr_display = script,
                xr_environment = reveal_environment env, xr_workdir = Some dir,
                xr_timeout = Some limit\<rparr>)) (\<lambda>(chunks, failure).
           bnd (yield_chunks A (dict_merge own env) chunks) (\<lambda>out. ret (out, failure))))))))))"

section \<open>Files\<close>

text \<open>\<open>str | bytes\<close>; a text is encoded as UTF-8, the default \<open>encoding\<close>.\<close>

datatype content = TextContent str | BytesContent bytes

fun content_len :: "content \<Rightarrow> nat" where
  "content_len (TextContent t) = py_len t"
| "content_len (BytesContent b) = length b"

fun encode :: "content \<Rightarrow> bytes" where
  "encode (TextContent t) = t"
| "encode (BytesContent b) = b"

definition write_file ::
  "('b, 'w) ambient \<Rightarrow> str \<Rightarrow> content \<Rightarrow> ('b, 'w, unit) sandbox_method" where
  "write_file A path content =
     next_do ensure_active
     (bnd (of_sum (normalize_workspace_path path)) (\<lambda>p.
      next_do (approve A WRITE_FILE [(''path'', DText p), (''bytes'', DInt (int (content_len content)))])
      (let payload = encode content in
       next_do (backend_call (rt_write_file (am_runtime A) p payload))
         (emit A FILE_WRITTEN [(''path'', DText p), (''bytes'', DInt (int (length payload)))]))))"

text \<open>\<open>read_file\<close>; \<open>decoded\<close> says whether \<open>encoding\<close> is UTF-8 or \<open>None\<close>.\<close>

definition decode_strict :: "bytes \<Rightarrow> exn + str" where
  "decode_strict b = (if utf8_valid b then Inr b else Inl (Exn UnicodeError ''invalid utf-8''))"

definition read_file ::
  "('b, 'w) ambient \<Rightarrow> str \<Rightarrow> bool \<Rightarrow> ('b, 'w, content) sandbox_method" where
  "read_file A path decoded =
     next_do ensure_active
     (bnd (of_sum (normalize_workspace_path path)) (\<lambda>p.
      next_do (approve A READ_FILE [(''path'', DText p)])
      (bnd (backend_call (rt_read_file (am_runtime A) p)) (\<lambda>payload.
       bnd (gets (sb_config \<circ> fst)) (\<lambda>cfg.
       next_do (guard_or (int (length payload) \<le> max_file_read_bytes (policy cfg))
          (value_error ''file exceeds security policy read limit''))
       (next_do (emit A FILE_READ [(''path'', DText p), (''bytes'', DInt (int (length payload)))])
       (if decoded then bnd (of_sum (decode_strict payload)) (\<lambda>t. ret (TextContent t))
        else ret (BytesContent payload))))))))"

section \<open>Snapshots, forks, logs and the lifecycle\<close>

definition unsupported :: "str \<Rightarrow> exn" where
  "unsupported what = Exn UnsupportedCapabilityError (''this backend does not support '' @ what)"

definition snapshot :: "('b, 'w) ambient \<Rightarrow> str \<Rightarrow> ('b, 'w, snapshot_metadata) sandbox_method" where
  "snapshot A destination =
     next_do ensure_active
     (next_do (approve A SNAPSHOT [(''destination'', DText destination)])
     (case rt_snapshot (am_runtime A) of
        None \<Rightarrow> raise (unsupported ''snapshots'')
      | Some (save, _) \<Rightarrow>
          bnd (backend_call (save destination)) (\<lambda>m.
          next_do (emit A SNAPSHOT_CREATED [(''path'', DText (snap_path m)),
              (''size'', DInt (snap_size m)), (''sha256'', DText (snap_sha256 m))])
            (ret m))))"

definition restore :: "('b, 'w) ambient \<Rightarrow> str \<Rightarrow> ('b, 'w, unit) sandbox_method" where
  "restore A src =
     next_do ensure_active
     (next_do (approve A RESTORE [(''source'', DText src)])
     (case rt_snapshot (am_runtime A) of
        None \<Rightarrow> raise (unsupported ''snapshots'')
      | Some (_, load) \<Rightarrow>
          next_do (backend_call (load src)) (emit A SNAPSHOT_RESTORED [(''path'', DText src)])))"

text \<open>\<open>_adopt\<close>: a sandbox around a backend that already runs.\<close>

definition adopted ::
  "('b, 'w) ambient \<Rightarrow> 'w outside \<Rightarrow> 'b \<Rightarrow> sandbox_config \<Rightarrow> secret_env \<Rightarrow> 'b sandbox" where
  "adopted A out b cfg secrets =
     \<lparr>sb_id = am_uuid A (tick out), sb_secrets = secrets, sb_redaction = secrets, sb_config = cfg,
      sb_backend = b, sb_destroyed = False, sb_timer = True,
      sb_deadline = am_monotonic A (Suc (tick out)) + lifetime cfg\<rparr>"

definition created_attributes :: "('b, 'w) ambient \<Rightarrow> sandbox_config \<Rightarrow> (str, detail) dict" where
  "created_attributes A cfg = [(''image'', DText (image_name cfg)),
     (''backend'', DText (rt_name (am_runtime A)))]"

definition adopt ::
  "('b, 'w) ambient \<Rightarrow> 'b \<Rightarrow> sandbox_config \<Rightarrow> secret_env
     \<Rightarrow> (exn, 'w outside, 'b sandbox) comp" where
  "adopt A b cfg secrets = (\<lambda>out.
     let child = adopted A out b cfg secrets in
     case emit A CREATED (created_attributes A cfg @ [(''forked'', DBool True)])
       (child, out\<lparr>tick := tick out + 2\<rparr>) of
       (Inl e, (_, out')) \<Rightarrow> (Inl e, out') | (Inr _, (child', out')) \<Rightarrow> (Inr child', out'))"

definition with_outside :: "(exn, 'w outside, 'a) comp \<Rightarrow> ('b, 'w, 'a) sandbox_method" where
  "with_outside m = (\<lambda>(sb, out). case m out of (r, out') \<Rightarrow> (r, (sb, out')))"

definition fork :: "('b, 'w) ambient \<Rightarrow> ('b, 'w, 'b sandbox) sandbox_method" where
  "fork A =
     next_do ensure_active
     (next_do (approve A FORK [])
     (case rt_fork (am_runtime A) of
        None \<Rightarrow> raise (unsupported ''forking'')
      | Some branch \<Rightarrow>
          bnd (backend_call branch) (\<lambda>b.
          bnd (gets fst) (\<lambda>sb.
          bnd (with_outside (adopt A b (sb_config sb) (sb_secrets sb))) (\<lambda>child.
          next_do (emit A FORKED [(''child'', DText (sb_id child))]) (ret child))))))"

definition logs :: "('b, 'w) ambient \<Rightarrow> ('b, 'w, str) sandbox_method" where
  "logs A = bnd (backend_call (rt_logs (am_runtime A))) (\<lambda>raw.
     bnd (gets (sb_redaction \<circ> fst)) (\<lambda>red. ret (redact raw red)))"

text \<open>The timer thread: it runs \<open>destroy\<close> unless it was cancelled.\<close>

definition timer_fire :: "('b, 'w) ambient \<Rightarrow> ('b, 'w, unit) sandbox_method" where
  "timer_fire A = bnd (gets (sb_timer \<circ> fst)) (\<lambda>armed. when_do armed (destroy A))"

section \<open>Construction\<close>

record sandbox_args =
  sa_image :: str
  sa_timeout :: rat
  sa_environment :: secret_env
  sa_workdir :: str
  sa_network_enabled :: bool
  sa_limits :: resource_limits
  sa_read_only_root :: bool
  sa_policy :: "security_policy option"

definition default_args :: sandbox_args where
  "default_args = \<lparr>sa_image = ''python:3.12-slim'', sa_timeout = 300, sa_environment = [],
     sa_workdir = ''/workspace'', sa_network_enabled = False, sa_limits = default_limits,
     sa_read_only_root = True, sa_policy = None\<rparr>"

text \<open>The configuration that \<open>__init__\<close> assembles, with the checks in the order Python makes
  them.\<close>

definition init_config :: "sandbox_args \<Rightarrow> exn + sandbox_config" where
  "init_config a =
     (let pol = (case sa_policy a of Some p \<Rightarrow> p
         | None \<Rightarrow> default_policy\<lparr>sp_network := if sa_network_enabled a then allowed else denied\<rparr>)
      in case normalize_workdir (sa_workdir a) of
        Inl e \<Rightarrow> Inl e
      | Inr wd \<Rightarrow> (case make_limits (sa_limits a) of
          Inl e \<Rightarrow> Inl e
        | Inr l \<Rightarrow> make_config
            \<lparr>image_name = sa_image a, lifetime = sa_timeout a,
             cfg_environment = reveal_environment (sa_environment a), workdir = wd,
             network_enabled = (np_mode (sp_network pol) \<noteq> DENY), limits = l,
             read_only_root = sa_read_only_root a, policy = pol\<rparr>))"

text \<open>\<open>__init__\<close> with the backend instance \<open>b\<close>; the identifier is drawn first, the deadline after
  the backend has started.\<close>

definition init ::
  "('b, 'w) ambient \<Rightarrow> 'b \<Rightarrow> sandbox_args \<Rightarrow> (exn, 'w outside, 'b sandbox) comp" where
  "init A b a = (\<lambda>out.
     let sid = am_uuid A (tick out); out = out\<lparr>tick := Suc (tick out)\<rparr> in
     case init_config a of
       Inl e \<Rightarrow> (Inl e, out)
     | Inr cfg \<Rightarrow> (case rt_create (am_runtime A) cfg (b, world out) of
         (Inl e, (_, w)) \<Rightarrow> (Inl e, out\<lparr>world := w\<rparr>)
       | (Inr _, (b', w)) \<Rightarrow>
           let sb = \<lparr>sb_id = sid, sb_secrets = sa_environment a, sb_redaction = sa_environment a,
                 sb_config = cfg, sb_backend = b', sb_destroyed = False, sb_timer = True,
                 sb_deadline = am_monotonic A (tick out) + sa_timeout a\<rparr>
           in case emit A CREATED (created_attributes A cfg)
                (sb, out\<lparr>world := w, tick := Suc (tick out)\<rparr>) of
              (Inl e, (_, out')) \<Rightarrow> (Inl e, out') | (Inr _, (sb', out')) \<Rightarrow> (Inr sb', out')))"

section \<open>All operations of a sandbox\<close>

datatype call =
    ExecPython str "rat option" secret_env "str option"
  | ExecCommand "str list" "rat option" secret_env "str option" "str option"
  | ExecShell str "rat option" secret_env "str option"
  | StreamShell str "rat option" secret_env "str option"
  | WriteFile str content
  | ReadFile str bool
  | TakeSnapshot str
  | RestoreSnapshot str
  | Fork
  | Logs
  | Destroy
  | Timer

datatype 'b outcome =
    Executed exec_result | Streamed stream_result | Written | Contents content
  | Saved snapshot_metadata | Child "'b sandbox" | LogText str | Done

definition as_outcome :: "('a \<Rightarrow> 'b outcome) \<Rightarrow> ('b, 'w, 'a) sandbox_method \<Rightarrow> ('b, 'w, 'b outcome) sandbox_method" where
  "as_outcome f m = bnd m (\<lambda>x. ret (f x))"

fun perform :: "('b, 'w) ambient \<Rightarrow> call \<Rightarrow> ('b, 'w, 'b outcome) sandbox_method" where
  "perform A (ExecPython c t e w) = as_outcome Executed (exec_python A c t e w)"
| "perform A (ExecCommand c t e w d) = as_outcome Executed (exec_command A c t e w d)"
| "perform A (ExecShell c t e w) = as_outcome Executed (exec_shell A c t e w)"
| "perform A (StreamShell c t e w) = as_outcome Streamed (stream_shell A c t e w)"
| "perform A (WriteFile p c) = as_outcome (\<lambda>_. Written) (write_file A p c)"
| "perform A (ReadFile p d) = as_outcome Contents (read_file A p d)"
| "perform A (TakeSnapshot d) = as_outcome Saved (snapshot A d)"
| "perform A (RestoreSnapshot src) = as_outcome (\<lambda>_. Done) (restore A src)"
| "perform A Fork = as_outcome Child (fork A)"
| "perform A Logs = as_outcome LogText (logs A)"
| "perform A Destroy = as_outcome (\<lambda>_. Done) (destroy A)"
| "perform A Timer = as_outcome (\<lambda>_. Done) (timer_fire A)"

text \<open>A run: the caller goes on after an exception, and the timer may fire anywhere.\<close>

primrec perform_all :: "('b, 'w) ambient \<Rightarrow> call list \<Rightarrow> ('b, 'w) state \<Rightarrow> ('b, 'w) state" where
  "perform_all A [] s = s"
| "perform_all A (c # cs) s = perform_all A cs (snd (perform A c s))"

end
