(* ===== verification/Json.thy ===== *)
theory Json
  imports Models
begin

text \<open>
  The JSON values that travel between \<open>src/agentnest/runtime/remote.py\<close> and \<open>src/agentnest/server.py\<close>.
  \<open>json.dumps\<close> and \<open>json.loads\<close> are the identity on them (tuples become lists). Reading a value at a
  type is a partial function, whose error stands for whatever Python does with a value of another type: it
  mostly raises, and where it does not (a truth value used as a number, a text used as a sequence of its
  characters) its behaviour is not modelled.
\<close>

datatype json = JNull | JBool bool | JInt int | JFloat rat | JStr str | JList "json list" | JObj "(str \<times> json) list"

definition type_error :: exn where
  "type_error = Exn TypeError ''unexpected type or argument''"

definition sum_bind :: "'e + 'a \<Rightarrow> ('a \<Rightarrow> 'e + 'b) \<Rightarrow> 'e + 'b" where
  "sum_bind r f = (case r of Inl e \<Rightarrow> Inl e | Inr x \<Rightarrow> f x)"

lemma sum_bind_simps [simp]: "sum_bind (Inl e) f = Inl e" "sum_bind (Inr x) f = f x"
  by (simp_all add: sum_bind_def)

lemma sum_bind_Inr: "sum_bind r f = Inr y \<longleftrightarrow> (\<exists>x. r = Inr x \<and> f x = Inr y)"
  by (cases r) auto

primrec sum_all :: "('a \<Rightarrow> 'e + 'b) \<Rightarrow> 'a list \<Rightarrow> 'e + 'b list" where
  "sum_all f [] = Inr []"
| "sum_all f (x # xs) = sum_bind (f x) (\<lambda>y. sum_bind (sum_all f xs) (\<lambda>ys. Inr (y # ys)))"

lemma sum_all_map: "(\<And>x. x \<in> set xs \<Longrightarrow> f (g x) = Inr (h x)) \<Longrightarrow> sum_all f (map g xs) = Inr (map h xs)"
  by (induction xs) simp_all

section \<open>Reading values\<close>

fun as_rat :: "json \<Rightarrow> exn + rat" where
  "as_rat (JInt n) = Inr (of_int n)" | "as_rat (JFloat q) = Inr q" | "as_rat _ = Inl type_error"

fun as_int :: "json \<Rightarrow> exn + int" where
  "as_int (JInt n) = Inr n" | "as_int _ = Inl type_error"

fun as_str :: "json \<Rightarrow> exn + str" where
  "as_str (JStr s) = Inr s" | "as_str _ = Inl type_error"

fun as_bool :: "json \<Rightarrow> exn + bool" where
  "as_bool (JBool b) = Inr b" | "as_bool _ = Inl type_error"

fun as_list :: "(json \<Rightarrow> exn + 'a) \<Rightarrow> json \<Rightarrow> exn + 'a list" where
  "as_list f (JList xs) = sum_all f xs" | "as_list f _ = Inl type_error"

fun as_object :: "json \<Rightarrow> exn + (str, json) dict" where
  "as_object (JObj d) = Inr d" | "as_object _ = Inl type_error"

fun as_option :: "(json \<Rightarrow> exn + 'a) \<Rightarrow> json \<Rightarrow> exn + 'a option" where
  "as_option f JNull = Inr None"
| "as_option f v = sum_bind (f v) (\<lambda>x. Inr (Some x))"

text \<open>A mapping of texts, the form of an environment.\<close>

definition as_texts :: "json \<Rightarrow> exn + environment" where
  "as_texts v = sum_bind (as_object v) (sum_all (\<lambda>(k, x). sum_bind (as_str x) (\<lambda>s. Inr (k, s))))"

text \<open>\<open>d[key]\<close> and \<open>d.get(key, default)\<close>.\<close>

definition item :: "(str, json) dict \<Rightarrow> str \<Rightarrow> exn + json" where
  "item d key = (case map_of d key of None \<Rightarrow> Inl (Exn KeyError key) | Some v \<Rightarrow> Inr v)"

definition field_or :: "(str, json) dict \<Rightarrow> str \<Rightarrow> (json \<Rightarrow> exn + 'a) \<Rightarrow> 'a \<Rightarrow> exn + 'a" where
  "field_or d key f other = (case map_of d key of None \<Rightarrow> Inr other | Some v \<Rightarrow> f v)"

text \<open>\<open>f(**d)\<close>: no other keywords than those of \<open>f\<close>.\<close>

definition only_keys :: "str list \<Rightarrow> (str, json) dict \<Rightarrow> exn + unit" where
  "only_keys names d = (if list_all (\<lambda>(k, _). k \<in> set names) d then Inr () else Inl type_error)"

section \<open>Writing values\<close>

definition json_texts :: "environment \<Rightarrow> json" where
  "json_texts env = JObj (map (\<lambda>(k, v). (k, JStr v)) env)"

definition json_list :: "str list \<Rightarrow> json" where
  "json_list xs = JList (map JStr xs)"

definition json_option :: "('a \<Rightarrow> json) \<Rightarrow> 'a option \<Rightarrow> json" where
  "json_option f x = (case x of None \<Rightarrow> JNull | Some y \<Rightarrow> f y)"

lemma as_texts_json [simp]: "as_texts (json_texts env) = Inr env"
proof -
  have "sum_all (\<lambda>(k, x). sum_bind (as_str x) (\<lambda>s. Inr (k, s))) (map (\<lambda>(k, v). (k, JStr v)) env) = Inr (map id env)"
    by (rule sum_all_map) auto
  then show ?thesis by (simp add: as_texts_def json_texts_def)
qed

lemma as_list_json [simp]: "as_list as_str (json_list xs) = Inr xs"
  using sum_all_map [of xs as_str JStr id] by (simp add: json_list_def)

lemma as_option_json [simp]:
  "as_option as_str (json_option JStr x) = Inr x" "as_option as_rat (json_option JFloat y) = Inr y"
  by (cases x; simp add: json_option_def) (cases y; simp add: json_option_def)

section \<open>Results\<close>

text \<open>\<open>asdict(result)\<close> and \<open>ExecutionResult(**response)\<close>.\<close>

definition json_result :: "exec_result \<Rightarrow> json" where
  "json_result r = JObj [(''command'', JStr (er_command r)), (''exit_code'', JInt (exit_code r)),
     (''stdout'', JStr (stdout r)), (''stderr'', JStr (stderr r)), (''duration'', JFloat (duration r))]"

definition result_of_json :: "json \<Rightarrow> exn + exec_result" where
  "result_of_json v = sum_bind (as_object v) (\<lambda>d.
     sum_bind (only_keys [''command'', ''exit_code'', ''stdout'', ''stderr'', ''duration''] d) (\<lambda>_.
     sum_bind (sum_bind (item d ''command'') as_str) (\<lambda>c.
     sum_bind (sum_bind (item d ''exit_code'') as_int) (\<lambda>x.
     sum_bind (sum_bind (item d ''stdout'') as_str) (\<lambda>out.
     sum_bind (sum_bind (item d ''stderr'') as_str) (\<lambda>err.
     sum_bind (sum_bind (item d ''duration'') as_rat) (\<lambda>t.
     Inr \<lparr>er_command = c, exit_code = x, stdout = out, stderr = err, duration = t\<rparr>)))))))"

lemma result_roundtrip [simp]: "result_of_json (json_result r) = Inr r"
  by (simp add: result_of_json_def json_result_def only_keys_def item_def)

section \<open>Policies\<close>

definition json_policy :: "security_policy \<Rightarrow> json" where
  "json_policy p = JObj
     [(''network'', JObj [(''mode'', JStr (mode_value (np_mode (sp_network p)))),
        (''domains'', json_list (np_domains (sp_network p))), (''cidrs'', json_list (np_cidrs (sp_network p)))]),
      (''max_output_bytes'', JInt (max_output_bytes p)), (''max_file_read_bytes'', JInt (max_file_read_bytes p)),
      (''allowed_images'', json_list (allowed_images p)), (''require_image_digest'', JBool (require_image_digest p)),
      (''seccomp_profile'', json_option JStr (seccomp_profile p)),
      (''apparmor_profile'', json_option JStr (apparmor_profile p)), (''rootless'', JBool (rootless p))]"

definition network_of_json :: "json \<Rightarrow> exn + network_policy" where
  "network_of_json v = sum_bind (as_object v) (\<lambda>d.
     sum_bind (sum_bind (field_or d ''mode'' as_str ''deny'') mode_of_value) (\<lambda>mode.
     sum_bind (field_or d ''domains'' (as_list as_str) []) (\<lambda>domains.
     sum_bind (field_or d ''cidrs'' (as_list as_str) []) (\<lambda>cidrs.
     make_network_policy mode domains cidrs))))"

text \<open>\<open>options.pop("network", {})\<close>, then \<open>SecurityPolicy(**options)\<close>.\<close>

definition policy_of_json :: "(str, json) dict \<Rightarrow> exn + security_policy" where
  "policy_of_json d =
     sum_bind (network_of_json (case map_of d ''network'' of None \<Rightarrow> JObj [] | Some v \<Rightarrow> v)) (\<lambda>net.
     sum_bind (only_keys [''network'', ''max_output_bytes'', ''max_file_read_bytes'', ''allowed_images'',
       ''require_image_digest'', ''seccomp_profile'', ''apparmor_profile'', ''rootless'', ''egress_proxy_image''] d) (\<lambda>_.
     sum_bind (field_or d ''max_output_bytes'' as_int (max_output_bytes default_policy)) (\<lambda>out.
     sum_bind (field_or d ''max_file_read_bytes'' as_int (max_file_read_bytes default_policy)) (\<lambda>rd.
     sum_bind (field_or d ''allowed_images'' (as_list as_str) []) (\<lambda>images.
     sum_bind (field_or d ''require_image_digest'' as_bool False) (\<lambda>digest.
     sum_bind (field_or d ''seccomp_profile'' (as_option as_str) None) (\<lambda>seccomp.
     sum_bind (field_or d ''apparmor_profile'' (as_option as_str) None) (\<lambda>apparmor.
     sum_bind (field_or d ''rootless'' as_bool False) (\<lambda>root.
     sum_bind (field_or d ''egress_proxy_image'' as_str (egress_proxy_image default_policy)) (\<lambda>proxy.
     make_security_policy \<lparr>sp_network = net, max_output_bytes = out, max_file_read_bytes = rd,
       allowed_images = images, require_image_digest = digest, seccomp_profile = seccomp,
       apparmor_profile = apparmor, rootless = root, egress_proxy_image = proxy\<rparr>))))))))))"

lemma policy_roundtrip:
  assumes "security_wf p"
  shows "sum_bind (as_object (json_policy p)) policy_of_json =
    Inr (p\<lparr>egress_proxy_image := egress_proxy_image default_policy\<rparr>)"
proof -
  have "network_of_json (JObj [(''mode'', JStr (mode_value (np_mode (sp_network p)))),
      (''domains'', json_list (np_domains (sp_network p))), (''cidrs'', json_list (np_cidrs (sp_network p)))]) = Inr (sp_network p)"
    using assms by (simp add: network_of_json_def field_or_def make_network_policy_wf security_wf_def)
  then show ?thesis
    using assms by (simp add: policy_of_json_def json_policy_def field_or_def only_keys_def make_security_policy_ok security_wf_def)
qed

end
