(* ===== verification/Base64.thy ===== *)
theory Base64
  imports Errors
begin

text \<open>
  \<open>base64.b64encode\<close> and \<open>base64.b64decode(\<dots>, validate=True)\<close> of the standard library, with which files
  and snapshots travel as text (\<open>src/agentnest/runtime/kubernetes.py\<close>,
  \<open>src/agentnest/runtime/remote.py\<close>, \<open>src/agentnest/server.py\<close>).
\<close>

definition b64_alphabet :: str where
  "b64_alphabet = ''ABCDEFGHIJKLMNOPQRSTUVWXYZabcdefghijklmnopqrstuvwxyz0123456789+/''"

definition b64_char :: "nat \<Rightarrow> char" where
  "b64_char n = b64_alphabet ! (n mod 64)"

definition b64_value :: "char \<Rightarrow> nat option" where
  "b64_value c = (let n = code c in
     if 65 \<le> n \<and> n \<le> 90 then Some (n - 65) else if 97 \<le> n \<and> n \<le> 122 then Some (n - 71)
     else if 48 \<le> n \<and> n \<le> 57 then Some (n + 4) else if c = CHR ''+'' then Some 62
     else if c = CHR ''/'' then Some 63 else None)"

definition pad :: char where
  "pad = CHR ''=''"

text \<open>Three bytes are four digits of six bits; the rest is padded.\<close>

fun b64encode :: "bytes \<Rightarrow> str" where
  "b64encode [] = []"
| "b64encode [a] = [b64_char (code a div 4), b64_char (code a mod 4 * 16), pad, pad]"
| "b64encode [a, b] = [b64_char (code a div 4), b64_char (code a mod 4 * 16 + code b div 16),
     b64_char (code b mod 16 * 4), pad]"
| "b64encode (a # b # c # s) = [b64_char (code a div 4), b64_char (code a mod 4 * 16 + code b div 16),
     b64_char (code b mod 16 * 4 + code c div 64), b64_char (code c mod 64)] @ b64encode s"

definition b64_error :: exn where
  "b64_error = value_error ''invalid base64''"

fun b64_group :: "nat list \<Rightarrow> bytes" where
  "b64_group [a, b] = [char_of (a * 4 + b div 16)]"
| "b64_group [a, b, c] = [char_of (a * 4 + b div 16), char_of (b mod 16 * 16 + c div 4)]"
| "b64_group [a, b, c, d] = [char_of (a * 4 + b div 16), char_of (b mod 16 * 16 + c div 4), char_of (c mod 4 * 64 + d)]"
| "b64_group _ = []"

definition b64_digits :: "str \<Rightarrow> exn + nat list" where
  "b64_digits s = (let vs = map b64_value s in
     if None \<in> set vs then Inl b64_error else Inr (map the vs))"

text \<open>Padding is accepted in the last group of four only.\<close>

fun b64decode :: "str \<Rightarrow> exn + bytes" where
  "b64decode [] = Inr []"
| "b64decode (a # b # c # d # s) =
     (let ds = (if s = [] \<and> d = pad then (if c = pad then [a, b] else [a, b, c]) else [a, b, c, d]) in
      case b64_digits ds of Inl e \<Rightarrow> Inl e
      | Inr vs \<Rightarrow> (case b64decode s of Inl e \<Rightarrow> Inl e | Inr bs \<Rightarrow> Inr (b64_group vs @ bs)))"
| "b64decode _ = Inl b64_error"

section \<open>Round trip\<close>

lemma b64_digit: "n < 64 \<Longrightarrow> b64_value (b64_char n) = Some n \<and> b64_char n \<noteq> pad"
proof -
  have "\<forall>n \<in> set [0..<64]. b64_value (b64_char n) = Some n \<and> b64_char n \<noteq> pad" by code_simp
  then show "n < 64 \<Longrightarrow> ?thesis" by simp
qed

lemma six_bits:
  "code a div 4 < 64" "code a mod 4 * 16 + code b div 16 < 64" "code b mod 16 * 4 + code c div 64 < 64"
  "code a mod 4 * 16 < 64" "code b mod 16 * 4 < 64"
proof -
  have d: "code x div 4 < 64" "code x div 16 < 16" "code x div 64 < 4" for x
    using nat_of_char_less_256 [of x] by (simp_all add: less_mult_imp_div_less)
  have m: "code x mod 4 < 4" "code x mod 16 < 16" for x by simp_all
  show "code a div 4 < 64" "code a mod 4 * 16 + code b div 16 < 64" "code b mod 16 * 4 + code c div 64 < 64"
    "code a mod 4 * 16 < 64" "code b mod 16 * 4 < 64"
    using d [of a] d [of b] d [of c] m [of a] m [of b] by linarith+
qed

lemma high_bits: "code b div 16 div 16 = 0" "code b div 16 mod 16 = code b div 16"
  "code c div 64 div 4 = 0" "code c div 64 mod 4 = code c div 64"
  using nat_of_char_less_256 [of b] nat_of_char_less_256 [of c]
  by (simp_all add: less_mult_imp_div_less flip: div_mult2_eq)

lemma b64_digits_chars: "\<forall>n \<in> set ns. n < 64 \<Longrightarrow> b64_digits (map b64_char ns) = Inr ns"
  by (auto simp: b64_digits_def b64_digit o_def map_idI)

lemma b64decode_encode [simp]: "b64decode (b64encode s) = Inr s"
proof (induction s rule: b64encode.induct)
  case (2 a)
  have "b64_digits [b64_char (code a div 4), b64_char (code a mod 4 * 16)] = Inr [code a div 4, code a mod 4 * 16]"
    using b64_digits_chars [of "[code a div 4, code a mod 4 * 16]"] six_bits by simp
  moreover have "code a div 4 * 4 + code a mod 4 * 16 div 16 = code a" by simp
  ultimately show ?case by (simp add: Let_def high_bits)
next
  case (3 a b)
  let ?ns = "[code a div 4, code a mod 4 * 16 + code b div 16, code b mod 16 * 4]"
  have "\<forall>n \<in> set ?ns. n < 64" using six_bits by simp
  from b64_digits_chars [OF this] b64_digit [of "code b mod 16 * 4"]
  show ?case by (simp add: Let_def high_bits)
next
  case (4 a b c s)
  let ?ns = "[code a div 4, code a mod 4 * 16 + code b div 16, code b mod 16 * 4 + code c div 64, code c mod 64]"
  have "\<forall>n \<in> set ?ns. n < 64" using six_bits by simp
  from b64_digits_chars [OF this] b64_digit [of "code c mod 64"] 4
  show ?case by (simp add: Let_def high_bits)
qed simp

text \<open>The text is plain: a shell, a header or JSON leave it alone.\<close>

lemma b64_alphabet_chars: "b64_char n \<in> set b64_alphabet"
  unfolding b64_char_def by (rule nth_mem) (simp add: b64_alphabet_def)

lemma b64encode_chars: "c \<in> set (b64encode s) \<Longrightarrow> c \<in> insert pad (set b64_alphabet)"
  by (induction s rule: b64encode.induct) (auto simp: b64_alphabet_chars)

end
