(* ===== verification/Remote.thy ===== *)
theory Remote
  imports Backend Json Base64
begin

text \<open>
  \<open>src/agentnest/runtime/remote.py\<close>: a runtime whose operations are HTTP requests to an AgentNest server.
  The connection, the client's disk and its clock are the parameters of \<open>remote_env\<close>; a response is its
  status, its body as a JSON value when it is one, and as text.
\<close>

section \<open>Requests\<close>

record http_request =
  hq_method :: str
  hq_url :: str
  hq_headers :: "(str, str) dict"
  hq_body :: "json option"
  hq_timeout :: rat

record http_response =
  hp_status :: nat
  hp_json :: "json option"
  hp_text :: str

record 'w remote_env =
  re_transport :: "http_request \<Rightarrow> (exn, 'w, http_response) comp"
  re_save :: "str \<Rightarrow> bytes \<Rightarrow> (exn, 'w, unit) comp"
  re_load :: "str \<Rightarrow> (exn, 'w, bytes) comp"
  re_time :: "(exn, 'w, rat) comp"

record remote_rt =
  rr_url :: str
  rr_token :: "str option"
  rr_request_timeout :: rat
  rr_id :: "str option"

type_synonym ('w, 'a) remote_op = "(remote_rt, 'w, 'a) runtime_op"

definition new_remote :: "str \<Rightarrow> str option \<Rightarrow> rat \<Rightarrow> remote_rt" where
  "new_remote url token request_timeout = \<lparr>rr_url = rstrip_by (\<lambda>c. c = CHR ''/'') url, rr_token = token,
     rr_request_timeout = request_timeout, rr_id = None\<rparr>"

definition auth_header :: "str option \<Rightarrow> (str, str) dict" where
  "auth_header token = (case token of None \<Rightarrow> []
     | Some t \<Rightarrow> if t = [] then [] else [(''Authorization'', ''Bearer '' @ t)])"

definition http_request :: "remote_rt \<Rightarrow> str \<Rightarrow> str \<Rightarrow> json option \<Rightarrow> http_request" where
  "http_request b m path payload =
     \<lparr>hq_method = m, hq_url = rr_url b @ path,
      hq_headers = [(''Accept'', ''application/json''), (''Content-Type'', ''application/json'')] @ auth_header (rr_token b),
      hq_body = payload, hq_timeout = rr_request_timeout b\<rparr>"

text \<open>\<open>urlopen\<close> raises an \<open>HTTPError\<close> for every status that is not a success.\<close>

definition remote_request :: "'w remote_env \<Rightarrow> str \<Rightarrow> str \<Rightarrow> json option \<Rightarrow> ('w, json) remote_op" where
  "remote_request E m path payload =
     bnd (gets fst) (\<lambda>b.
     try_except
       (bnd (on_snd (re_transport E (http_request b m path payload))) (\<lambda>response.
        if 200 \<le> hp_status response \<and> hp_status response < 300
        then (case hp_json response of None \<Rightarrow> raise (value_error ''Expecting value'') | Some v \<Rightarrow> ret v)
        else raise (Exn ExecutionError (''remote AgentNest request failed ('' @
          int_text (int (hp_status response)) @ ''): '' @ utf8_decode (hp_text response)))))
       (\<lambda>e. if exn_isa e OSError \<or> exn_isa e ValueError
        then raise (Exn RuntimeNotAvailableError (''remote AgentNest server is unavailable: '' @ exn_msg e))
        else raise e))"

definition remote_id :: "('w, str) remote_op" where
  "remote_id = bnd (gets (rr_id \<circ> fst)) (\<lambda>i. case i of
     None \<Rightarrow> raise (Exn SandboxDestroyedError ''the remote sandbox has been destroyed'') | Some sid \<Rightarrow> ret sid)"

text \<open>A request about the sandbox of this runtime.\<close>

definition sandbox_request :: "'w remote_env \<Rightarrow> str \<Rightarrow> str \<Rightarrow> json option \<Rightarrow> ('w, json) remote_op" where
  "sandbox_request E m ending payload =
     bnd remote_id (\<lambda>sid. remote_request E m (''/v1/sandboxes/'' @ sid @ ending) payload)"

text \<open>\<open>response[key]\<close>, read as a text.\<close>

definition text_item :: "str \<Rightarrow> json \<Rightarrow> exn + str" where
  "text_item key v = sum_bind (as_object v) (\<lambda>d. sum_bind (item d key) as_str)"

section \<open>Operations\<close>

definition json_memory :: "memory_limit \<Rightarrow> json" where
  "json_memory m = (case m of MemText s \<Rightarrow> JStr s | MemBytes n \<Rightarrow> JInt n)"

definition create_payload :: "sandbox_config \<Rightarrow> json" where
  "create_payload cfg = JObj
     [(''runtime'', JStr (image_name cfg)), (''timeout'', JFloat (lifetime cfg)),
      (''environment'', json_texts (cfg_environment cfg)), (''workdir'', JStr (workdir cfg)),
      (''network_enabled'', JBool (network_enabled cfg)), (''memory'', json_memory (memory (limits cfg))),
      (''cpus'', JFloat (cpus (limits cfg))), (''pids'', JInt (pids (limits cfg))),
      (''gpus'', JInt (gpus (limits cfg))), (''security_policy'', json_policy (policy cfg))]"

definition remote_create :: "'w remote_env \<Rightarrow> sandbox_config \<Rightarrow> ('w, unit) remote_op" where
  "remote_create E cfg =
     bnd (remote_request E ''POST'' ''/v1/sandboxes'' (Some (create_payload cfg))) (\<lambda>response.
     bnd (of_sum (text_item ''id'' response)) (\<lambda>sid.
     modify (\<lambda>(b, w). (b\<lparr>rr_id := Some sid\<rparr>, w))))"

definition exec_payload :: "exec_request \<Rightarrow> json" where
  "exec_payload q = JObj [(''command'', json_list (xr_command q)), (''display_command'', JStr (xr_display q)),
     (''environment'', json_texts (xr_environment q)), (''workdir'', json_option JStr (xr_workdir q)),
     (''timeout'', json_option JFloat (xr_timeout q))]"

definition remote_exec :: "'w remote_env \<Rightarrow> exec_request \<Rightarrow> ('w, exec_result) remote_op" where
  "remote_exec E q = bnd (sandbox_request E ''POST'' ''/exec'' (Some (exec_payload q))) (\<lambda>response.
     of_sum (result_of_json response))"

definition remote_write_file :: "'w remote_env \<Rightarrow> str \<Rightarrow> bytes \<Rightarrow> ('w, unit) remote_op" where
  "remote_write_file E path content = bnd (sandbox_request E ''PUT'' ''/files''
     (Some (JObj [(''path'', JStr path), (''content'', JStr (b64encode content))]))) (\<lambda>_. ret ())"

definition content_of :: "json \<Rightarrow> exn + bytes" where
  "content_of response = sum_bind (text_item ''content'' response) b64decode"

definition remote_read_file :: "'w remote_env \<Rightarrow> str \<Rightarrow> ('w, bytes) remote_op" where
  "remote_read_file E path = bnd (sandbox_request E ''POST'' ''/files/read''
     (Some (JObj [(''path'', JStr path)]))) (\<lambda>response. of_sum (content_of response))"

definition remote_logs :: "'w remote_env \<Rightarrow> ('w, str) remote_op" where
  "remote_logs E = bnd (sandbox_request E ''GET'' ''/logs'' None) (\<lambda>response. of_sum (text_item ''logs'' response))"

definition remote_snapshot :: "'w remote_env \<Rightarrow> str \<Rightarrow> ('w, snapshot_metadata) remote_op" where
  "remote_snapshot E destination =
     bnd (sandbox_request E ''POST'' ''/snapshots'' None) (\<lambda>response.
     bnd (of_sum (content_of response)) (\<lambda>payload.
     next_do (on_snd (re_save E destination payload))
     (bnd (of_sum (text_item ''sha256'' response)) (\<lambda>digest.
      bnd (on_snd (re_time E)) (\<lambda>now.
      bnd (of_sum (sum_bind (as_object response) (\<lambda>d. field_or d ''created_at'' as_rat now))) (\<lambda>t.
      ret \<lparr>snap_path = destination, snap_size = int (length payload), snap_sha256 = digest, snap_created_at = t\<rparr>))))))"

definition remote_restore :: "'w remote_env \<Rightarrow> str \<Rightarrow> ('w, unit) remote_op" where
  "remote_restore E src =
     bnd remote_id (\<lambda>sid.
     bnd (on_snd (re_load E src)) (\<lambda>payload.
     bnd (remote_request E ''POST'' (''/v1/sandboxes/'' @ sid @ ''/snapshots/restore'')
         (Some (JObj [(''content'', JStr (b64encode payload))]))) (\<lambda>_. ret ())))"

definition remote_destroy :: "'w remote_env \<Rightarrow> ('w, unit) remote_op" where
  "remote_destroy E = bnd (gets (rr_id \<circ> fst)) (\<lambda>i. case i of
     None \<Rightarrow> ret ()
   | Some sid \<Rightarrow> next_do (modify (\<lambda>(b, w). (b\<lparr>rr_id := None\<rparr>, w)))
       (suppressing (\<lambda>e. exn_isa e RuntimeNotAvailableError)
         (bnd (remote_request E ''DELETE'' (''/v1/sandboxes/'' @ sid) None) (\<lambda>_. ret ()))))"

definition remote_runtime :: "'w remote_env \<Rightarrow> (remote_rt, 'w) runtime" where
  "remote_runtime E =
     \<lparr>rt_name = ''RemoteRuntime'', rt_create = remote_create E, rt_exec = remote_exec E,
      rt_write_file = remote_write_file E, rt_read_file = remote_read_file E, rt_logs = remote_logs E,
      rt_destroy = remote_destroy E, rt_snapshot = Some (remote_snapshot E, remote_restore E),
      rt_fork = None, rt_stream = None\<rparr>"

text \<open>\<open>FirecrackerRuntime\<close> (\<open>src/agentnest/runtime/firecracker.py\<close>) is a \<open>RemoteRuntime\<close> under its own name.\<close>

definition firecracker_runtime :: "'w remote_env \<Rightarrow> (remote_rt, 'w) runtime" where
  "firecracker_runtime E = (remote_runtime E)\<lparr>rt_name := ''FirecrackerRuntime''\<rparr>"

end
