(* ===== verification/Server.thy ===== *)
theory Server
  imports Sandbox Remote
begin

text \<open>
  \<open>src/agentnest/server.py\<close>: the API server, a table of sandboxes behind authenticated routes. The web
  framework is a third-party package: what it answers for an exception that is not an \<open>HTTPException\<close> and
  for a body of the wrong form are parameters, as are the backends by name and the server's temporary files.
  Requests are handled one after the other.
\<close>

section \<open>State\<close>

record ('b, 'w) server_env =
  se_token :: "str option"
  se_ambient :: "('b, 'w) ambient"
  se_backend :: "str \<Rightarrow> exn + 'b"
  se_temporary :: "nat \<Rightarrow> str"
  se_read :: "str \<Rightarrow> 'w \<Rightarrow> bytes"
  se_write :: "str \<Rightarrow> bytes \<Rightarrow> 'w \<Rightarrow> 'w"
  se_crash :: "exn \<Rightarrow> http_response"
  se_invalid :: http_response
  se_no_route :: http_response

type_synonym ('b, 'w) server = "(str, 'b sandbox) dict \<times> 'w outside"

text \<open>What a handler raises: an \<open>HTTPException\<close>, a refusal of the framework, or any other exception.\<close>

datatype failure = Http nat str | Invalid | Raised exn

type_synonym ('b, 'w, 'a) handler = "(failure, ('b, 'w) server, 'a) comp"

definition of_exn :: "exn + 'a \<Rightarrow> ('b, 'w, 'a) handler" where
  "of_exn r = (case r of Inl e \<Rightarrow> raise (Raised e) | Inr x \<Rightarrow> ret x)"

section \<open>Helpers\<close>

text \<open>\<open>create_app\<close>: the table is empty; the web framework has to be installed.\<close>

definition create_app :: "bool \<Rightarrow> exn + (str, 'b sandbox) dict" where
  "create_app importable = (if importable then Inr []
     else Inl (Exn AgentNestError (''the API server requires: pip install '' @ py_repr ''agentnest[server]'')))"

definition authorize :: "('b, 'w) server_env \<Rightarrow> (str, str) dict \<Rightarrow> ('b, 'w, unit) handler" where
  "authorize S headers = (case se_token S of
     None \<Rightarrow> ret ()
   | Some token \<Rightarrow> guard_or (token = [] \<or> map_of headers ''Authorization'' = Some (''Bearer '' @ token))
       (Http 401 ''invalid bearer token''))"

text \<open>A method of the sandbox that \<open>get_sandbox\<close> finds.\<close>

definition with_sandbox :: "str \<Rightarrow> ('b, 'w, 'a) sandbox_method \<Rightarrow> ('b, 'w, 'a) handler" where
  "with_sandbox sid m = (\<lambda>(table, out). case map_of table sid of
     None \<Rightarrow> (Inl (Http 404 ''sandbox not found''), (table, out))
   | Some sb \<Rightarrow> (case m (sb, out) of
       (Inl e, (sb', out')) \<Rightarrow> (Inl (Raised e), (dict_set sid sb' table, out'))
     | (Inr x, (sb', out')) \<Rightarrow> (Inr x, (dict_set sid sb' table, out'))))"

definition get_sandbox :: "str \<Rightarrow> ('b, 'w, unit) handler" where
  "get_sandbox sid = (\<lambda>(table, out). (if map_of table sid = None then Inl (Http 404 ''sandbox not found'') else Inr (), (table, out)))"

text \<open>The framework admits a body of type \<open>dict[str, Any]\<close> or \<open>dict[str, str]\<close>.\<close>

definition body_object :: "json option \<Rightarrow> ('b, 'w, (str, json) dict) handler" where
  "body_object v = (case v of Some (JObj d) \<Rightarrow> ret d | _ \<Rightarrow> raise Invalid)"

definition body_texts :: "json option \<Rightarrow> ('b, 'w, environment) handler" where
  "body_texts v = (case v of None \<Rightarrow> raise Invalid | Some x \<Rightarrow>
     (case as_texts x of Inl _ \<Rightarrow> raise Invalid | Inr d \<Rightarrow> ret d))"

definition text_field :: "environment \<Rightarrow> str \<Rightarrow> exn + str" where
  "text_field d key = (case map_of d key of None \<Rightarrow> Inl (Exn KeyError key) | Some v \<Rightarrow> Inr v)"

section \<open>Handlers\<close>

text \<open>\<open>Sandbox(**payload)\<close>: the arguments, and the name of the backend. The two arguments that are Python
  objects, \<open>observers\<close> and \<open>approval_hook\<close>, have no JSON form.\<close>

definition as_memory :: "json \<Rightarrow> exn + memory_limit" where
  "as_memory v = (case v of JStr s \<Rightarrow> Inr (MemText s) | JInt n \<Rightarrow> Inr (MemBytes n) | _ \<Rightarrow> Inl type_error)"

definition plain_env :: "environment \<Rightarrow> secret_env" where
  "plain_env env = map (\<lambda>(k, v). (k, Plain v)) env"

definition as_env :: "json \<Rightarrow> exn + secret_env" where
  "as_env v = sum_bind (as_option as_texts v) (\<lambda>e. Inr (plain_env (case e of None \<Rightarrow> [] | Some d \<Rightarrow> d)))"

definition as_policy :: "json \<Rightarrow> exn + security_policy option" where
  "as_policy v = (case v of JObj d \<Rightarrow> sum_bind (policy_of_json d) (\<lambda>p. Inr (Some p))
     | JNull \<Rightarrow> Inr None | _ \<Rightarrow> Inl type_error)"

definition args_of_payload :: "(str, json) dict \<Rightarrow> exn + sandbox_args \<times> str" where
  "args_of_payload d =
     sum_bind (field_or d ''security_policy'' as_policy None) (\<lambda>pol.
     sum_bind (only_keys [''runtime'', ''timeout'', ''environment'', ''workdir'', ''network_enabled'', ''memory'', ''cpus'',
       ''pids'', ''gpus'', ''backend'', ''read_only_root'', ''security_policy''] d) (\<lambda>_.
     sum_bind (field_or d ''runtime'' as_str (sa_image default_args)) (\<lambda>image.
     sum_bind (field_or d ''timeout'' as_rat (sa_timeout default_args)) (\<lambda>t.
     sum_bind (field_or d ''environment'' as_env []) (\<lambda>env.
     sum_bind (field_or d ''workdir'' as_str (sa_workdir default_args)) (\<lambda>wd.
     sum_bind (field_or d ''network_enabled'' as_bool False) (\<lambda>net.
     sum_bind (field_or d ''memory'' as_memory (memory default_limits)) (\<lambda>mem.
     sum_bind (field_or d ''cpus'' as_rat (cpus default_limits)) (\<lambda>c.
     sum_bind (field_or d ''pids'' as_int (pids default_limits)) (\<lambda>p.
     sum_bind (field_or d ''gpus'' as_int (gpus default_limits)) (\<lambda>g.
     sum_bind (field_or d ''backend'' as_str ''docker'') (\<lambda>backend.
     sum_bind (field_or d ''read_only_root'' as_bool True) (\<lambda>ro.
     Inr (\<lparr>sa_image = image, sa_timeout = t, sa_environment = env, sa_workdir = wd, sa_network_enabled = net,
       sa_limits = \<lparr>memory = mem, cpus = c, pids = p, gpus = g\<rparr>, sa_read_only_root = ro, sa_policy = pol\<rparr>, backend))))))))))))))"

text \<open>The arguments are checked before the backend is looked up.\<close>

definition new_sandbox :: "('b, 'w) server_env \<Rightarrow> sandbox_args \<Rightarrow> str \<Rightarrow> (exn, 'w outside, 'b sandbox) comp" where
  "new_sandbox S a backend = (\<lambda>out. case init_config a of
     Inl e \<Rightarrow> (Inl e, out\<lparr>tick := Suc (tick out)\<rparr>)
   | Inr _ \<Rightarrow> (case se_backend S backend of
       Inl e \<Rightarrow> (Inl e, out\<lparr>tick := Suc (tick out)\<rparr>) | Inr b \<Rightarrow> init (se_ambient S) b a out))"

definition serve_create :: "('b, 'w) server_env \<Rightarrow> json option \<Rightarrow> ('b, 'w, json) handler" where
  "serve_create S body =
     bnd (body_object body) (\<lambda>d.
     bnd (of_exn (args_of_payload d)) (\<lambda>(a, backend) (table, out).
     case new_sandbox S a backend out of
       (Inl e, out') \<Rightarrow> (Inl (Raised e), (table, out'))
     | (Inr sb, out') \<Rightarrow> (Inr (JObj [(''id'', JStr (sb_id sb))]), (dict_set (sb_id sb) sb table, out'))))"

text \<open>\<open>sandbox.exec(command, display_command=display, **payload)\<close>.\<close>

definition serve_exec :: "('b, 'w) server_env \<Rightarrow> str \<Rightarrow> json option \<Rightarrow> ('b, 'w, json) handler" where
  "serve_exec S sid body =
     bnd (body_object body) (\<lambda>d.
     next_do (get_sandbox sid)
     (bnd (of_exn (sum_bind (item d ''command'') (as_list as_str))) (\<lambda>command.
      bnd (of_exn (field_or d ''display_command'' (as_option as_str) (Some (join_with '' '' command)))) (\<lambda>display.
      bnd (of_exn (only_keys [''command'', ''display_command'', ''timeout'', ''environment'', ''workdir''] d)) (\<lambda>_.
      bnd (of_exn (field_or d ''timeout'' (as_option as_rat) None)) (\<lambda>t.
      bnd (of_exn (field_or d ''environment'' as_env [])) (\<lambda>env.
      bnd (of_exn (field_or d ''workdir'' (as_option as_str) None)) (\<lambda>wd.
      bnd (with_sandbox sid (exec_command (se_ambient S) command t env wd display)) (\<lambda>r. ret (json_result r))))))))))"

definition serve_write :: "('b, 'w) server_env \<Rightarrow> str \<Rightarrow> json option \<Rightarrow> ('b, 'w, json) handler" where
  "serve_write S sid body =
     bnd (body_texts body) (\<lambda>d.
     next_do (get_sandbox sid)
     (bnd (of_exn (text_field d ''path'')) (\<lambda>path.
      bnd (of_exn (sum_bind (text_field d ''content'') b64decode)) (\<lambda>content.
      bnd (with_sandbox sid (write_file (se_ambient S) path (BytesContent content))) (\<lambda>_.
      ret (JObj [(''ok'', JBool True)]))))))"

definition serve_read :: "('b, 'w) server_env \<Rightarrow> str \<Rightarrow> json option \<Rightarrow> ('b, 'w, json) handler" where
  "serve_read S sid body =
     bnd (body_texts body) (\<lambda>d.
     next_do (get_sandbox sid)
     (bnd (of_exn (text_field d ''path'')) (\<lambda>path.
      bnd (with_sandbox sid (read_file (se_ambient S) path False)) (\<lambda>content. case content of
        BytesContent b \<Rightarrow> ret (JObj [(''content'', JStr (b64encode b))])
      | TextContent _ \<Rightarrow> raise (Raised (Exn AssertionError []))))))"

definition serve_logs :: "('b, 'w) server_env \<Rightarrow> str \<Rightarrow> ('b, 'w, json) handler" where
  "serve_logs S sid = bnd (with_sandbox sid (logs (se_ambient S))) (\<lambda>t. ret (JObj [(''logs'', JStr t)]))"

text \<open>A temporary file of the server, by the number of the request.\<close>

definition temporary :: "('b, 'w) server_env \<Rightarrow> ('b, 'w, str) handler" where
  "temporary S = (\<lambda>(table, out). (Inr (se_temporary S (tick out)), (table, out\<lparr>tick := Suc (tick out)\<rparr>)))"

definition serve_snapshot :: "('b, 'w) server_env \<Rightarrow> str \<Rightarrow> ('b, 'w, json) handler" where
  "serve_snapshot S sid =
     bnd (temporary S) (\<lambda>path.
     bnd (with_sandbox sid (snapshot (se_ambient S) path)) (\<lambda>m.
     bnd (gets (\<lambda>(table, out). se_read S path (world out))) (\<lambda>bytes.
     ret (JObj [(''content'', JStr (b64encode bytes)), (''sha256'', JStr (snap_sha256 m)),
       (''created_at'', JFloat (snap_created_at m))]))))"

definition serve_restore :: "('b, 'w) server_env \<Rightarrow> str \<Rightarrow> json option \<Rightarrow> ('b, 'w, json) handler" where
  "serve_restore S sid body =
     bnd (body_texts body) (\<lambda>d.
     bnd (temporary S) (\<lambda>path.
     bnd (of_exn (sum_bind (text_field d ''content'') b64decode)) (\<lambda>content.
     next_do (modify (\<lambda>(table, out). (table, out\<lparr>world := se_write S path content (world out)\<rparr>)))
     (bnd (with_sandbox sid (restore (se_ambient S) path)) (\<lambda>_.
     ret (JObj [(''ok'', JBool True)]))))))"

definition serve_destroy :: "('b, 'w) server_env \<Rightarrow> str \<Rightarrow> ('b, 'w, json) handler" where
  "serve_destroy S sid =
     next_do (with_sandbox sid (destroy (se_ambient S)))
     (next_do (modify (\<lambda>(table, out). (dict_pop sid table, out)))
       (ret (JObj [(''ok'', JBool True)])))"

text \<open>\<open>cleanup\<close>: the table is emptied first; an exception of one sandbox ends the loop.\<close>

primrec destroy_each :: "('b, 'w) server_env \<Rightarrow> (str, 'b sandbox) dict \<Rightarrow> (exn, 'w outside, unit) comp" where
  "destroy_each S [] = ret ()"
| "destroy_each S (x # xs) = (\<lambda>out. case destroy (se_ambient S) (snd x, out) of
     (Inl e, (_, out')) \<Rightarrow> (Inl e, out') | (Inr _, (_, out')) \<Rightarrow> destroy_each S xs out')"

definition cleanup :: "('b, 'w) server_env \<Rightarrow> (exn, ('b, 'w) server, unit) comp" where
  "cleanup S = (\<lambda>(table, out). case destroy_each S table out of (r, out') \<Rightarrow> (r, ([], out')))"

section \<open>Routes\<close>

definition answer :: "json \<Rightarrow> http_response" where
  "answer v = \<lparr>hp_status = 200, hp_json = Some v, hp_text = []\<rparr>"

definition failed :: "('b, 'w) server_env \<Rightarrow> failure \<Rightarrow> http_response" where
  "failed S f = (case f of
     Http n detail \<Rightarrow> \<lparr>hp_status = n, hp_json = Some (JObj [(''detail'', JStr detail)]), hp_text = detail\<rparr>
   | Invalid \<Rightarrow> se_invalid S
   | Raised e \<Rightarrow> se_crash S e)"

text \<open>The handlers behind \<open>authorize\<close>, by method and path.\<close>

definition route :: "('b, 'w) server_env \<Rightarrow> str \<Rightarrow> str list \<Rightarrow> json option \<Rightarrow> ('b, 'w, json) handler option" where
  "route S m path body =
     (case path of
       [] \<Rightarrow> None
     | _ # rest \<Rightarrow>
         if m = ''POST'' \<and> rest = [''v1'', ''sandboxes''] then Some (serve_create S body)
         else if length rest < 3 \<or> take 2 rest \<noteq> [''v1'', ''sandboxes''] then None
         else let sid = rest ! 2; op = drop 3 rest in
           if m = ''POST'' \<and> op = [''exec''] then Some (serve_exec S sid body)
           else if m = ''PUT'' \<and> op = [''files''] then Some (serve_write S sid body)
           else if m = ''POST'' \<and> op = [''files'', ''read''] then Some (serve_read S sid body)
           else if m = ''GET'' \<and> op = [''logs''] then Some (serve_logs S sid)
           else if m = ''POST'' \<and> op = [''snapshots''] then Some (serve_snapshot S sid)
           else if m = ''POST'' \<and> op = [''snapshots'', ''restore''] then Some (serve_restore S sid body)
           else if m = ''DELETE'' \<and> op = [] then Some (serve_destroy S sid) else None)"

definition serve_request :: "('b, 'w) server_env \<Rightarrow> str \<Rightarrow> http_request \<Rightarrow> ('b, 'w) server \<Rightarrow> http_response \<times> ('b, 'w) server" where
  "serve_request S path q s =
     (if hq_method q = ''GET'' \<and> path = ''/healthz'' then (answer (JObj [(''status'', JStr ''ok'')]), s)
      else case route S (hq_method q) (split_on CHR ''/'' path) (hq_body q) of
        None \<Rightarrow> (se_no_route S, s)
      | Some h \<Rightarrow> (case next_do (authorize S (hq_headers q)) h s of
          (Inl f, s') \<Rightarrow> (failed S f, s') | (Inr v, s') \<Rightarrow> (answer v, s')))"

end
