(* ===== verification/Sandbox_Facts.thy ===== *)
theory Sandbox_Facts
  imports Sandbox
begin

text \<open>
  What holds of every sandbox, whatever the runtime: a destroyed sandbox does nothing, a
  refused action does nothing, identity and configuration never change, the runtime is only
  called with working directories inside the workspace and positive bounded timeouts, captured
  output carries no secret, and, inside \<open>runtime_contract\<close>, a destroyed sandbox has no
  running environment left.
\<close>

section \<open>The remembered secrets\<close>

text \<open>Each entry is an initial one, whose name has no colon, or stands at the position that its
  key ends in. Then a new key is new.\<close>

definition memory_ok :: "secret_env \<Rightarrow> bool" where
  "memory_ok red \<longleftrightarrow> (\<forall>i < length red. CHR '':'' \<notin> set (fst (red ! i)) \<or> (\<exists>k. fst (red ! i) = memory_key k i))"

lemma memory_key_position: "memory_key k m = memory_key k' n \<Longrightarrow> m = n"
proof -
  have colon: "CHR '':'' \<notin> set (nat_digits i)" for i
    using nat_digits_all [of i] by (auto simp: is_digit_def)
  have "rpartition CHR '':'' (memory_key k i) = (k, True, nat_digits i)" for k i
    using rpartition_append [OF colon [of i], of k] by (simp add: memory_key_def int_text_def)
  then show "memory_key k m = memory_key k' n \<Longrightarrow> m = n" by (metis nat_digits_inj prod.inject)
qed

lemma memory_key_new:
  assumes "memory_ok red"
  shows "memory_key k (length red) \<notin> fst ` set red"
proof
  assume "memory_key k (length red) \<in> fst ` set red"
  then obtain i where i: "i < length red" "memory_key k (length red) = fst (red ! i)"
    by (auto simp: in_set_conv_nth)
  moreover have "CHR '':'' \<in> set (memory_key k (length red))" by (simp add: memory_key_def)
  ultimately obtain k' where "memory_key k (length red) = memory_key k' i"
    using assms by (auto simp: memory_ok_def)
  from memory_key_position [OF this] i(1) show False by simp
qed

lemma memory_ok_append: "memory_ok red \<Longrightarrow> memory_ok (red @ [(memory_key k (length red), v)])"
  by (auto simp: memory_ok_def nth_append less_Suc_eq)

lemma remember_keeps:
  assumes "memory_ok red"
  shows "memory_ok (remember env red) \<and> set red \<subseteq> set (remember env red) \<and>
    (\<forall>v. Secret v \<in> snd ` set env \<longrightarrow> Secret v \<in> snd ` set (remember env red))"
  using assms
proof (induction env red rule: remember.induct)
  case (3 k v env red)
  let ?red = "red @ [(memory_key k (length red), Secret v)]"
  have set: "dict_set (memory_key k (length red)) (Secret v) red = ?red"
    by (rule dict_set_new [OF memory_key_new [OF 3(2)]])
  from 3(1) [unfolded set, OF memory_ok_append [OF 3(2)]] show ?case
    unfolding remember.simps set by force
qed auto

lemma remember_ok: "memory_ok red \<Longrightarrow> memory_ok (remember env red)"
  using remember_keeps by blast

lemma remember_mono: "memory_ok red \<Longrightarrow> set red \<subseteq> set (remember env red)"
  using remember_keeps by blast

lemma memory_ok_initial: "\<forall>k \<in> fst ` set env. CHR '':'' \<notin> set k \<Longrightarrow> memory_ok env"
  by (auto simp: memory_ok_def)

section \<open>Frames\<close>

text \<open>The timer is armed exactly while the sandbox is not destroyed.\<close>

definition timer_ok :: "'b sandbox \<Rightarrow> bool" where
  "timer_ok sb \<longleftrightarrow> sb_timer sb = (\<not> sb_destroyed sb)"

definition frame :: "'b sandbox \<Rightarrow> 'b sandbox \<Rightarrow> bool" where
  "frame a b \<longleftrightarrow> sb_id b = sb_id a \<and> sb_secrets b = sb_secrets a \<and> sb_config b = sb_config a \<and>
     sb_deadline b = sb_deadline a \<and> (sb_destroyed a \<longrightarrow> sb_destroyed b) \<and>
     (sb_timer b \<longrightarrow> sb_timer a) \<and> (timer_ok a \<longrightarrow> timer_ok b) \<and>
     (memory_ok (sb_redaction a) \<longrightarrow> memory_ok (sb_redaction b) \<and> set (sb_redaction a) \<subseteq> set (sb_redaction b))"

lemma frame_refl [simp]: "frame a a"
  by (simp add: frame_def)

abbreviation framed :: "'b sandbox \<Rightarrow> ('b, 'w) state \<Rightarrow> bool" where
  "framed sb0 s \<equiv> frame sb0 (fst s)"

named_theorems method_keeps \<open>the invariants that the helpers of a method keep\<close>

lemma framed_backend_call [method_keeps]: "keeps (framed sb0) (backend_call m)"
  by (auto simp: keeps_def triple_def backend_call_def frame_def timer_ok_def
      split: prod.splits sum.splits)

lemma framed_monotonic [method_keeps]: "keeps (framed sb0) (monotonic A)"
  by (auto simp: keeps_def triple_def monotonic_def)

lemma framed_emit [method_keeps]: "keeps (framed sb0) (emit A ty attrs)"
  by (auto simp: keeps_def triple_def emit_def Let_def split: option.splits)

lemma framed_ensure [method_keeps]: "keeps (framed sb0) ensure_active"
  by (auto simp: keeps_def triple_def ensure_active_def split: sum.splits prod.splits)

lemma framed_approve [method_keeps]: "keeps (framed sb0) (approve A act details)"
  by (auto simp: keeps_def triple_def approve_def split: sum.splits)

lemma framed_remember [method_keeps]: "keeps (framed sb0) (remember_secrets env)"
  by (auto simp: keeps_def triple_def remember_secrets_def modify_def frame_def timer_ok_def remember_ok
      intro: remember_mono [THEN subsetD])

lemma framed_workdir [method_keeps]: "keeps (framed sb0) (effective_workdir d)"
  by (auto simp: keeps_def triple_def effective_workdir_def split: sum.splits)

lemma framed_with_outside [method_keeps]: "keeps (framed sb0) (with_outside m)"
  by (auto simp: keeps_def triple_def with_outside_def split: sum.splits prod.splits)

lemma framed_mark [method_keeps]:
  "keeps (framed sb0) (modify (\<lambda>(sb, out). (sb\<lparr>sb_destroyed := True, sb_timer := False\<rparr>, out)))"
  by (auto simp: keeps_def triple_def modify_def frame_def timer_ok_def)

text \<open>The methods are built from these steps.\<close>

lemma keeps_option [intro]:
  "keeps P m \<Longrightarrow> (\<And>x. keeps P (f x)) \<Longrightarrow> keeps P (case r of None \<Rightarrow> m | Some x \<Rightarrow> f x)"
  by (cases r) auto

lemma keeps_pair [intro]: "(\<And>a b. keeps P (f a b)) \<Longrightarrow> keeps P (case p of (a, b) \<Rightarrow> f a b)"
  by (cases p) auto

lemma keeps_if [intro]: "keeps P m \<Longrightarrow> keeps P n \<Longrightarrow> keeps P (if b then m else n)"
  by simp

lemmas keeps_steps = keeps_ret keeps_raise keeps_gets keeps_of_sum keeps_guard_or keeps_bnd
  keeps_next_do keeps_when_do keeps_option keeps_pair keeps_if

lemma framed_destroy [method_keeps]: "keeps (framed sb0) (destroy A)"
  unfolding destroy_def by (intro keeps_steps method_keeps)

lemma framed_timeout [method_keeps]: "keeps (framed sb0) (effective_timeout A t)"
  unfolding effective_timeout_def Let_def by (intro keeps_steps method_keeps)

lemma framed_run [method_keeps]: "keeps (framed sb0) (run_request A kind c d t env wd)"
  unfolding run_request_def Let_def by (intro keeps_steps method_keeps)

lemma framed_yield [method_keeps]: "keeps (framed sb0) (yield_chunks A vals cs)"
  by (induction cs) (auto intro!: keeps_steps method_keeps)

lemma framed_perform: "keeps (framed sb0) (perform A c)"
  by (cases c) (auto simp: as_outcome_def exec_python_def exec_command_def exec_shell_def
      stream_shell_def write_file_def read_file_def snapshot_def restore_def fork_def logs_def
      timer_fire_def Let_def intro!: keeps_steps method_keeps)

lemma framed_run_all:
  assumes "framed sb0 s"
  shows "framed sb0 (perform_all A cs s)"
  using assms
proof (induction cs arbitrary: s)
  case (Cons c cs)
  have "framed sb0 (snd (perform A c s))"
    using keepsD [OF framed_perform Cons.prems, of A c "fst (perform A c s)" "snd (perform A c s)"] by simp
  with Cons.IH show ?case by simp
qed simp

section \<open>A destroyed sandbox\<close>

definition refuses_when_destroyed :: "call \<Rightarrow> bool" where
  "refuses_when_destroyed c = (c \<notin> {Logs, Destroy, Timer})"

lemma ensure_active_destroyed:
  "sb_destroyed (fst s) \<Longrightarrow> next_do ensure_active m s = (Inl destroyed_error, s)"
  by (cases s) (simp add: next_do_def bnd_def ensure_active_def)

lemma as_outcome_error: "m s = (Inl e, t) \<Longrightarrow> as_outcome f m s = (Inl e, t)"
  by (simp add: as_outcome_def bnd_def)

lemma perform_destroyed:
  assumes "sb_destroyed (fst s)" "refuses_when_destroyed c"
  shows "perform A c s = (Inl destroyed_error, s)"
  using assms(2)
  by (cases c) (auto simp: refuses_when_destroyed_def exec_python_def exec_command_def exec_shell_def
      stream_shell_def write_file_def read_file_def snapshot_def restore_def fork_def
      intro!: as_outcome_error ensure_active_destroyed assms(1))

lemma destroy_destroyed: "sb_destroyed (fst s) \<Longrightarrow> destroy A s = (Inr (), s)"
  by (simp add: destroy_def comp_defs)

lemma perform_destroyed_state:
  assumes "sb_destroyed (fst s)" "c \<noteq> Logs"
  shows "snd (perform A c s) = s"
proof (cases "refuses_when_destroyed c")
  case False
  with assms(2) have "c = Destroy \<or> c = Timer" by (auto simp: refuses_when_destroyed_def)
  with destroy_destroyed [OF assms(1), of A] show ?thesis
    by (auto simp: as_outcome_def timer_fire_def comp_defs)
qed (simp add: perform_destroyed [OF assms(1)])

lemma run_destroyed:
  assumes "sb_destroyed (fst s)" "Logs \<notin> set cs"
  shows "perform_all A cs s = s"
  using assms(2) by (induction cs) (auto simp: perform_destroyed_state [OF assms(1)])

section \<open>Approval\<close>

text \<open>The action that a call asks approval for.\<close>

fun action_of :: "call \<Rightarrow> action option" where
  "action_of (ExecPython c t e w) = Some EXECUTE_PYTHON"
| "action_of (ExecCommand c t e w d) = Some EXECUTE"
| "action_of (ExecShell c t e w) = Some EXECUTE_SHELL"
| "action_of (StreamShell c t e w) = Some EXECUTE_SHELL"
| "action_of (WriteFile p c) = Some WRITE_FILE"
| "action_of (ReadFile p d) = Some READ_FILE"
| "action_of (TakeSnapshot d) = Some SNAPSHOT"
| "action_of (RestoreSnapshot s) = Some RESTORE"
| "action_of Fork = Some FORK"
| "action_of c = None"

definition refuses :: "approval_hook \<Rightarrow> action \<Rightarrow> bool" where
  "refuses hook act \<longleftrightarrow> (\<forall>rq. rq_action rq = act \<longrightarrow> hook rq \<noteq> Inr True)"

text \<open>\<open>stops P s m\<close>: started in \<open>s\<close>, \<open>m\<close> raises and leaves everything as it was.\<close>

definition stops :: "'s \<Rightarrow> ('e, 's, 'a) comp \<Rightarrow> bool" where
  "stops s m \<longleftrightarrow> (\<exists>e. m s = (Inl e, s))"

lemma stops_approve:
  assumes "refuses (am_hook A) act"
  shows "stops s (next_do (approve A act details) m)"
proof -
  obtain sb out where s: "s = (sb, out)" by (cases s)
  let ?rq = "\<lparr>rq_action = act, rq_sandbox = sb_id sb, rq_details = details\<rparr>"
  have "am_hook A ?rq \<noteq> Inr True" using assms by (simp add: refuses_def)
  then obtain e where "require_approval (am_hook A) ?rq = Inl e"
    using require_approval_ok [of "am_hook A" ?rq] by (cases "require_approval (am_hook A) ?rq") auto
  then show ?thesis by (simp add: stops_def next_do_def bnd_def approve_def s)
qed

lemma stops_after_pure:
  assumes "\<And>r t. m s = (r, t) \<Longrightarrow> t = s" and "\<And>x. stops s (f x)"
  shows "stops s (bnd m f)"
  using assms by (auto simp: stops_def bnd_def split: prod.split sum.split)

lemma stops_next: "(\<And>r t. m s = (r, t) \<Longrightarrow> t = s) \<Longrightarrow> stops s n \<Longrightarrow> stops s (next_do m n)"
  unfolding next_do_def by (rule stops_after_pure)

lemma ensure_active_pure: "ensure_active s = (r, t) \<Longrightarrow> t = s"
  by (auto simp: ensure_active_def split: prod.splits if_splits)

lemma stops_outcome: "stops s m \<Longrightarrow> stops s (as_outcome f m)"
  by (auto simp: stops_def as_outcome_error)

lemma perform_refused:
  assumes "action_of c = Some act" "refuses (am_hook A) act"
  shows "stops s (perform A c)"
  using assms
  by (cases c) (auto simp: exec_python_def exec_command_def exec_shell_def stream_shell_def
      write_file_def read_file_def snapshot_def restore_def fork_def of_sum_def guard_or_def
      ret_def raise_def
      intro!: stops_outcome stops_next stops_after_pure stops_approve elim!: ensure_active_pure)

end
