(* ===== verification/Sandbox_Exec.thy ===== *)
theory Sandbox_Exec
  imports Sandbox_Facts
begin

text \<open>
  Execution through the sandbox: which requests reach the runtime, what of its output is
  returned, which events are emitted, which secrets \<open>logs\<close> covers, and what a destroyed sandbox
  leaves behind on a runtime that keeps \<open>runtime_contract\<close>.
\<close>

section \<open>The requests that reach the runtime\<close>

text \<open>The timeout of a request is positive and within what the caller asked for; the working
  directory is the workspace or beneath it.\<close>

definition proper_request :: "str list \<Rightarrow> secret_env \<Rightarrow> rat option \<Rightarrow> exec_request \<Rightarrow> bool" where
  "proper_request command env timeout q \<longleftrightarrow>
     xr_command q = command \<and> xr_environment q = reveal_environment env \<and>
     (\<exists>d. xr_workdir q = Some d \<and> inside_workspace d) \<and>
     (\<exists>t. xr_timeout q = Some t \<and> 0 < t \<and> (case timeout of None \<Rightarrow> True | Some r \<Rightarrow> t \<le> r))"

lemma workdir_value:
  "triple P (effective_workdir wd) (\<lambda>d s. P s \<and> inside_workspace d) (\<lambda>_. P)"
  by (auto simp: triple_def effective_workdir_def split: sum.splits dest: normalize_workdir_inside)

text \<open>An invariant of the runtime's state, read through the sandbox.\<close>

definition under :: "('b \<times> 'w \<Rightarrow> bool) \<Rightarrow> ('b, 'w) state \<Rightarrow> bool" where
  "under P s = P (sb_backend (fst s), world (snd s))"

lemma under_backend_call:
  assumes "keeps P m"
  shows "keeps (under P) (backend_call m)"
proof -
  have "P (b', w')" if "P (b, w)" "m (b, w) = (r, (b', w'))" for b w r b' w'
    using keepsD [OF assms that] .
  then show ?thesis
    by (auto simp: keeps_def triple_def under_def backend_call_def split: prod.splits sum.splits)
qed

lemma under_emit: "keeps (under P) (emit A ty attrs)"
  by (auto simp: keeps_def triple_def under_def emit_def Let_def split: option.splits)

lemma under_monotonic: "keeps (under P) (monotonic A)"
  by (auto simp: keeps_def triple_def under_def monotonic_def)

lemma under_pure:
  "keeps (under P) ensure_active" "keeps (under P) (approve A act details)"
  "keeps (under P) (remember_secrets env)" "keeps (under P) (effective_workdir d)"
  by (auto simp: keeps_def triple_def under_def ensure_active_def approve_def remember_secrets_def
      modify_def effective_workdir_def split: sum.splits prod.splits)

lemma under_destroy:
  assumes "keeps P (rt_destroy (am_runtime A))"
  shows "keeps (under P) (destroy A)"
proof -
  have "keeps (under P) (modify (\<lambda>(sb, out). (sb\<lparr>sb_destroyed := True, sb_timer := False\<rparr>, out)))"
    by (auto simp: keeps_def triple_def under_def modify_def)
  then show ?thesis
    unfolding destroy_def by (intro keeps_steps under_emit under_backend_call assms)
qed

lemma timeout_value:
  assumes "keeps P (rt_destroy (am_runtime A))"
  shows "triple (under P) (effective_timeout A timeout)
    (\<lambda>t s. under P s \<and> 0 < t \<and> (case timeout of None \<Rightarrow> True | Some r \<Rightarrow> t \<le> r)) (\<lambda>_. under P)"
proof -
  have fail: "triple (under P) (next_do (destroy A) (raise e)) Q (\<lambda>_. under P)" for e Q
    unfolding next_do_def
    by (rule triple_bnd [OF under_destroy [OF assms, unfolded keeps_def] triple_raise])
  show ?thesis
    unfolding effective_timeout_def Let_def
    apply (rule triple_bnd [where R = "\<lambda>_. under P"], rule triple_gets, assumption)
    apply (rule triple_bnd [OF under_monotonic [unfolded keeps_def]])
    using fail by (auto intro!: triple_ret triple_raise split: option.splits)
qed

text \<open>
  Whatever invariant the runtime keeps under proper requests and destruction, it keeps under
  the sandbox's execution methods: no other request reaches it.
\<close>

lemma under_run_request:
  assumes D: "keeps P (rt_destroy (am_runtime A))"
    and X: "\<And>q. proper_request c env t q \<Longrightarrow> keeps P (rt_exec (am_runtime A) q)"
  shows "keeps (under P) (run_request A kind c d t env wd)"
proof -
  have call: "keeps (under P) (bnd (backend_call (rt_exec (am_runtime A)
        \<lparr>xr_command = c, xr_display = d, xr_environment = reveal_environment env,
           xr_workdir = Some dir, xr_timeout = Some limit\<rparr>)) f)"
    if "inside_workspace dir" "0 < limit" "case t of None \<Rightarrow> True | Some r \<Rightarrow> limit \<le> r"
      and "\<And>x. keeps (under P) (f x)" for dir limit f
    using that by (intro keeps_bnd under_backend_call X) (auto simp: proper_request_def)
  have timed: "triple (\<lambda>s. under P s \<and> inside_workspace dir)
      (bnd (effective_timeout A t) (\<lambda>limit. bnd (backend_call (rt_exec (am_runtime A)
        \<lparr>xr_command = c, xr_display = d, xr_environment = reveal_environment env,
           xr_workdir = Some dir, xr_timeout = Some limit\<rparr>)) f)) (\<lambda>_. under P) (\<lambda>_. under P)"
    if f: "\<And>x. keeps (under P) (f x)" for dir f
    apply (rule triple_bnd [where R = "\<lambda>l s. under P s \<and> inside_workspace dir \<and> 0 < l \<and>
        (case t of None \<Rightarrow> True | Some r \<Rightarrow> l \<le> r)"])
    using timeout_value [OF D, of t] apply (auto simp: triple_def split: prod.splits sum.splits; blast)
    using call [of dir _ f] f unfolding triple_def keeps_def by (auto split: prod.splits sum.splits)
  show ?thesis
    unfolding run_request_def
    apply (rule keeps_next_do [OF under_pure(3)])
    apply (rule keeps_next_do [OF under_emit])
    unfolding keeps_def
    apply (rule triple_bnd [OF workdir_value])
    by (rule timed) (auto simp: Let_def intro!: keeps_steps under_emit)
qed

section \<open>What of the output is returned\<close>

lemma merge_secret_own:
  assumes "map_of own k = Some (Secret v)" "k \<notin> fst ` set env" "v \<noteq> []"
  shows "v \<in> set (secret_values (dict_merge own env))"
proof -
  have "map_of (rev env) k = None" using assms(2) by (simp add: map_of_eq_None_iff)
  with assms(1) have "map_of (dict_merge own env) k = Some (Secret v)" by (simp add: dict_merge_lookup)
  then have "(k, Secret v) \<in> set (dict_merge own env)" by (rule map_of_SomeD)
  with assms(3) show ?thesis by (force simp: secret_values_iff)
qed

lemma merge_secret_env:
  assumes "(k, Secret v) \<in> set env" "distinct (map fst env)" "v \<noteq> []"
  shows "v \<in> set (secret_values (dict_merge own env))"
proof -
  have "map_of (rev env) k = Some (Secret v)"
    using assms(1,2) by (simp add: map_of_is_SomeI rev_map [symmetric])
  then have "map_of (dict_merge own env) k = Some (Secret v)" by (simp add: dict_merge_lookup)
  then have "(k, Secret v) \<in> set (dict_merge own env)" by (rule map_of_SomeD)
  with assms(3) show ?thesis by (force simp: secret_values_iff)
qed

text \<open>The secrets in force for a command: the sandbox's own, unless the command overrides the
  variable, and the command's.\<close>

definition in_force :: "secret_env \<Rightarrow> secret_env \<Rightarrow> str \<Rightarrow> bool" where
  "in_force own env v \<longleftrightarrow> v \<noteq> [] \<and>
     ((\<exists>k. map_of own k = Some (Secret v) \<and> k \<notin> fst ` set env) \<or> (\<exists>k. (k, Secret v) \<in> set env))"

lemma in_force_values:
  "in_force own env v \<Longrightarrow> distinct (map fst env) \<Longrightarrow> v \<in> set (secret_values (dict_merge own env))"
  unfolding in_force_def using merge_secret_own merge_secret_env by blast

lemma redact_result_clean:
  assumes "in_force own env v" "distinct (map fst env)" "markable v"
  shows "\<not> contains (stdout (redact_result own env r)) v \<and> \<not> contains (stderr (redact_result own env r)) v"
  using redact_absent [OF in_force_values [OF assms(1,2)] assms(3)]
  by (simp add: redact_result_def Let_def)

lemma redact_result_keeps: "exit_code (redact_result own env r) = exit_code r"
  "duration (redact_result own env r) = duration r" "er_command (redact_result own env r) = er_command r"
  by (simp_all add: redact_result_def Let_def)

lemma run_request_result:
  "triple (framed sb0) (run_request A kind c d t env wd)
     (\<lambda>r _. \<exists>raw. r = redact_result (sb_secrets sb0) env raw) (\<lambda>_ _. True)"
proof -
  have any: "triple (framed sb0) m (\<lambda>_. framed sb0) (\<lambda>_ _. True)" if "keeps (framed sb0) m" for m
    by (rule triple_conseq [OF that [unfolded keeps_def]]) auto
  have out: "triple (\<lambda>s. own = sb_secrets sb0) (next_do (emit A ty (f own raw)) (ret (redact_result own env raw)))
      (\<lambda>r _. \<exists>raw. r = redact_result (sb_secrets sb0) env raw) (\<lambda>_ _. True)" for own raw ty f
    by (auto simp: triple_def comp_defs split: prod.split sum.split)
  show ?thesis
    unfolding run_request_def next_do_def Let_def
    apply (rule triple_bnd [OF any [OF framed_remember]])
    apply (rule triple_bnd [OF any [OF framed_emit]])
    apply (rule triple_bnd [OF any [OF framed_workdir]])
    apply (rule triple_bnd [OF any [OF framed_timeout]])
    apply (rule triple_bnd [OF any [OF framed_backend_call]])
    apply (rule triple_bnd [where R = "\<lambda>own _. own = sb_secrets sb0"])
     apply (rule triple_gets, simp add: frame_def)
    by (rule out [unfolded next_do_def])
qed

text \<open>A method that ends in \<open>run_request\<close> after a prologue that keeps the frame.\<close>

lemma request_result:
  assumes "keeps (framed sb0) pre"
  shows "triple (framed sb0) (next_do pre (run_request A kind c d t env wd))
    (\<lambda>r _. \<exists>raw. r = redact_result (sb_secrets sb0) env raw) (\<lambda>_ _. True)"
  unfolding next_do_def
  by (rule triple_bnd [OF _ run_request_result], rule triple_conseq [OF assms [unfolded keeps_def]]) auto

lemma next_do_assoc: "next_do a (next_do b c) = next_do (next_do a b) c"
  by (simp add: next_do_def bnd_assoc)

text \<open>Every execution that returns, returns redacted output.\<close>

fun command_environment :: "call \<Rightarrow> secret_env option" where
  "command_environment (ExecPython c t e w) = Some e"
| "command_environment (ExecCommand c t e w d) = Some e"
| "command_environment (ExecShell c t e w) = Some e"
| "command_environment x = None"

lemma perform_result:
  assumes "command_environment c = Some env" "perform A c s = (Inr x, t)"
  obtains raw where "x = Executed (redact_result (sb_secrets (fst s)) env raw)"
proof -
  let ?T = "\<lambda>m. triple (framed (fst s)) m
      (\<lambda>r _. \<exists>raw. r = redact_result (sb_secrets (fst s)) env raw) (\<lambda>_ _. True)"
  obtain m where m: "?T m" and p: "perform A c = as_outcome Executed m"
    using assms(1)
  proof (cases c)
    case (ExecPython a b e w)
    with assms(1) that [of "exec_python A a b e w"] show ?thesis
      by (auto simp: exec_python_def next_do_assoc intro!: request_result keeps_steps method_keeps)
  next
    case (ExecCommand a b e w d)
    with assms(1) that [of "exec_command A a b e w d"] show ?thesis
      by (auto simp: exec_command_def next_do_assoc intro!: request_result keeps_steps method_keeps)
  next
    case (ExecShell a b e w)
    with assms(1) that [of "exec_shell A a b e w"] show ?thesis
      by (auto simp: exec_shell_def next_do_assoc intro!: request_result keeps_steps method_keeps)
  qed auto
  from assms(2) p obtain r where "m s = (Inr r, t)" "x = Executed r"
    by (auto simp: as_outcome_def comp_defs split: prod.splits sum.splits)
  with tripleD [OF m _ this(1)] that show ?thesis by auto
qed

section \<open>What logs shows\<close>

lemma remembered:
  "triple (\<lambda>s. framed sb0 s \<and> memory_ok (sb_redaction (fst s))) (remember_secrets env)
     (\<lambda>_ s. memory_ok (sb_redaction (fst s)) \<and>
        (\<forall>v. Secret v \<in> snd ` set env \<longrightarrow> Secret v \<in> snd ` set (sb_redaction (fst s)))) E"
  using remember_keeps by (auto simp: triple_def remember_secrets_def modify_def)

definition memory_has :: "secret_env \<Rightarrow> ('b, 'w) state \<Rightarrow> bool" where
  "memory_has env s \<longleftrightarrow> memory_ok (sb_redaction (fst s)) \<and>
     (\<forall>v. Secret v \<in> snd ` set env \<longrightarrow> Secret v \<in> snd ` set (sb_redaction (fst s)))"

lemma memory_has_frame: "memory_has env s \<Longrightarrow> framed (fst s) t \<Longrightarrow> memory_has env t"
  unfolding memory_has_def frame_def by (meson image_mono subsetD)

lemma keeps_memory:
  fixes m :: "('b, 'w, 'a) sandbox_method"
  assumes "\<And>sb0. keeps (framed sb0) m"
  shows "keeps (memory_has env) m"
  unfolding keeps_def triple_def
proof (intro allI impI)
  fix s :: "('b, 'w) state" assume s: "memory_has env s"
  have "memory_has env (snd (m s))"
    by (rule memory_has_frame [OF s keepsD [OF assms, of "fst s" s "fst (m s)" "snd (m s)"]]) simp_all
  then show "case m s of (Inl e, t) \<Rightarrow> memory_has env t | (Inr x, t) \<Rightarrow> memory_has env t"
    by (auto split: prod.split sum.split)
qed

lemma run_request_remembers:
  "triple (\<lambda>s. memory_ok (sb_redaction (fst s))) (run_request A kind c d t env wd)
     (\<lambda>_. memory_has env) (\<lambda>_ _. True)"
proof -
  have rest: "keeps (memory_has env) (next_do (emit A EXECUTION_STARTED [(''kind'', DText kind)])
     (bnd (effective_workdir wd) (\<lambda>dir. bnd (effective_timeout A t) (\<lambda>limit.
      bnd (backend_call (rt_exec (am_runtime A)
          \<lparr>xr_command = c, xr_display = d, xr_environment = reveal_environment env,
           xr_workdir = Some dir, xr_timeout = Some limit\<rparr>)) (\<lambda>raw.
      bnd (gets (sb_secrets \<circ> fst)) (\<lambda>own.
      let result = redact_result own env raw in
      next_do (emit A EXECUTION_FINISHED (finished_attributes kind result)) (ret result)))))))"
    unfolding Let_def by (intro keeps_steps keeps_memory method_keeps)
  show ?thesis
    unfolding run_request_def next_do_def [of "remember_secrets env"]
    apply (rule triple_bnd [where R = "\<lambda>_. memory_has env"])
    using remember_keeps
    apply (fastforce simp: triple_def remember_secrets_def modify_def memory_has_def)
    by (rule triple_conseq [OF rest [unfolded keeps_def]]) auto
qed

lemma request_remembers:
  assumes "\<And>sb0. keeps (framed sb0) pre"
  shows "triple (\<lambda>s. memory_ok (sb_redaction (fst s))) (next_do pre (run_request A kind c d t env wd))
    (\<lambda>_. memory_has env) (\<lambda>_ _. True)"
proof -
  have pre: "keeps (memory_has []) pre" by (rule keeps_memory) (rule assms)
  show ?thesis
    unfolding next_do_def
    by (rule triple_bnd [OF _ run_request_remembers],
        rule triple_conseq [OF pre [unfolded keeps_def]]) (auto simp: memory_has_def)
qed

lemma perform_remembers:
  assumes "command_environment c = Some env" "perform A c s = (Inr x, t)" "memory_ok (sb_redaction (fst s))"
  shows "memory_has env t"
proof -
  let ?T = "\<lambda>m. triple (\<lambda>s. memory_ok (sb_redaction (fst s))) m (\<lambda>_. memory_has env) (\<lambda>_ _. True)"
  obtain m :: "('a, 'b, exec_result) sandbox_method" where m: "?T m" and p: "perform A c = as_outcome Executed m"
    using assms(1)
  proof (cases c)
    case (ExecPython a b e w)
    with assms(1) that [of "exec_python A a b e w"] show ?thesis
      by (auto simp: exec_python_def next_do_assoc intro!: request_remembers keeps_steps method_keeps)
  next
    case (ExecCommand a b e w d)
    with assms(1) that [of "exec_command A a b e w d"] show ?thesis
      by (auto simp: exec_command_def next_do_assoc intro!: request_remembers keeps_steps method_keeps)
  next
    case (ExecShell a b e w)
    with assms(1) that [of "exec_shell A a b e w"] show ?thesis
      by (auto simp: exec_shell_def next_do_assoc intro!: request_remembers keeps_steps method_keeps)
  qed auto
  from assms(2) p obtain r where "m s = (Inr r, t)"
    by (auto simp: as_outcome_def comp_defs split: prod.splits sum.splits)
  from tripleD [OF m assms(3) this] show ?thesis by simp
qed

lemma logs_redacted:
  assumes "perform A Logs s = (Inr x, t)"
  obtains raw where "x = LogText (redact raw (sb_redaction (fst s)))"
  using assms
  by (auto simp: as_outcome_def logs_def backend_call_def comp_defs split: prod.splits sum.splits)

lemma logs_clean:
  assumes "memory_has env s" "Secret v \<in> snd ` set env" "markable v"
    and "perform_all A cs s = t" "perform A Logs t = (Inr (LogText out), u)"
  shows "\<not> contains out v"
proof -
  have "framed (fst s) t" using framed_run_all [of "fst s" s A cs] assms(4) by simp
  then have "memory_has env t" by (rule memory_has_frame [OF assms(1)])
  with assms(2,3) have "v \<in> set (secret_values (sb_redaction (fst t)))"
    by (auto simp: memory_has_def secret_values_iff markable_def)
  moreover obtain raw where "out = redact raw (sb_redaction (fst t))"
    using logs_redacted [OF assms(5)] by auto
  ultimately show ?thesis using redact_absent assms(3) by simp
qed

section \<open>Audit events\<close>

lemma emit_tame:
  assumes "tame (am_observers A)"
  shows "emit A ty attrs (sb, out) = (Inr (), (sb, out\<lparr>tick := Suc (tick out),
    emitted := emitted out @ [make_event A (tick out) ty (sb_id sb) attrs]\<rparr>))"
  by (simp add: emit_def Let_def notify_tame [OF assms])

definition event_log :: "str \<Rightarrow> sandbox_event list \<Rightarrow> ('b, 'w) state \<Rightarrow> bool" where
  "event_log sid es s \<longleftrightarrow> sb_id (fst s) = sid \<and> emitted (snd s) = es"

text \<open>\<open>event_after es ty attrs es'\<close>: \<open>es'\<close> is \<open>es\<close> with one more event, of that type.\<close>

definition event_after ::
  "('b, 'w) ambient \<Rightarrow> str \<Rightarrow> sandbox_event list \<Rightarrow> event_type \<Rightarrow> (str, detail) dict
     \<Rightarrow> sandbox_event list \<Rightarrow> bool" where
  "event_after A sid es ty attrs es' \<longleftrightarrow> (\<exists>n. es' = es @ [make_event A n ty sid attrs])"

lemma log_emit:
  assumes "tame (am_observers A)"
  shows "triple (event_log sid es) (emit A ty attrs)
    (\<lambda>_ s. \<exists>es'. event_after A sid es ty attrs es' \<and> event_log sid es' s) E"
  unfolding triple_def
proof (intro allI impI)
  fix s :: "('a, 'b) state" assume "event_log sid es s"
  then show "case emit A ty attrs s of (Inl e, t) \<Rightarrow> E e t
    | (Inr x, t) \<Rightarrow> \<exists>es'. event_after A sid es ty attrs es' \<and> event_log sid es' t"
    by (cases s) (auto simp: emit_tame [OF assms] event_log_def event_after_def)
qed

lemma log_silent:
  "keeps (event_log sid es) (backend_call m)" "keeps (event_log sid es) (monotonic A)"
  "keeps (event_log sid es) (effective_workdir d)" "keeps (event_log sid es) (remember_secrets env)"
  "keeps (event_log sid es) ensure_active" "keeps (event_log sid es) (approve A act details)"
  by (auto simp: keeps_def triple_def event_log_def backend_call_def monotonic_def
      effective_workdir_def remember_secrets_def modify_def ensure_active_def approve_def
      split: prod.splits sum.splits)

lemma log_timeout: "triple (event_log sid es) (effective_timeout A t) (\<lambda>_. event_log sid es) (\<lambda>_ _. True)"
proof -
  show ?thesis
    unfolding effective_timeout_def Let_def next_do_def
    apply (rule triple_bnd [where R = "\<lambda>_. event_log sid es"], rule triple_gets, assumption)
    apply (rule triple_bnd [where R = "\<lambda>_. event_log sid es"])
     apply (rule triple_conseq [OF log_silent(2) [unfolded keeps_def]])
    by (auto intro!: triple_ret triple_raise triple_bnd [OF triple_any] split: option.split)
qed

text \<open>A command that returns has produced exactly its two events, in this order.\<close>

lemma log_run_request:
  assumes tame: "tame (am_observers A)"
  shows "triple (event_log sid es) (run_request A kind c d t env wd)
    (\<lambda>r s. \<exists>es' es''. event_after A sid es EXECUTION_STARTED [(''kind'', DText kind)] es' \<and>
       event_after A sid es' EXECUTION_FINISHED (finished_attributes kind r) es'' \<and> event_log sid es'' s)
    (\<lambda>_ _. True)"
proof -
  have finish: "triple (event_log sid es') (bnd (gets (sb_secrets \<circ> fst)) (\<lambda>own.
        bnd (emit A EXECUTION_FINISHED (finished_attributes kind (redact_result own env raw)))
          (\<lambda>_. ret (redact_result own env raw))))
      (\<lambda>r s. \<exists>es''. event_after A sid es' EXECUTION_FINISHED (finished_attributes kind r) es'' \<and>
         event_log sid es'' s) (\<lambda>_ _. True)" for es' raw
    apply (rule triple_bnd [where R = "\<lambda>_. event_log sid es'"], rule triple_gets, assumption)
    apply (rule triple_bnd [OF log_emit [OF tame]])
    by (rule triple_ret) blast
  have rest: "triple (event_log sid es') (bnd (effective_workdir wd) (\<lambda>dir.
      bnd (effective_timeout A t) (\<lambda>limit.
      bnd (backend_call (rt_exec (am_runtime A)
          \<lparr>xr_command = c, xr_display = d, xr_environment = reveal_environment env,
           xr_workdir = Some dir, xr_timeout = Some limit\<rparr>)) (\<lambda>raw.
      bnd (gets (sb_secrets \<circ> fst)) (\<lambda>own.
        bnd (emit A EXECUTION_FINISHED (finished_attributes kind (redact_result own env raw)))
          (\<lambda>_. ret (redact_result own env raw)))))))
      (\<lambda>r s. \<exists>es''. event_after A sid es' EXECUTION_FINISHED (finished_attributes kind r) es'' \<and>
         event_log sid es'' s) (\<lambda>_ _. True)" for es'
    by (rule triple_bnd [OF keeps_triple [OF log_silent(3)]], rule triple_bnd [OF log_timeout],
        rule triple_bnd [OF keeps_triple [OF log_silent(1)]], rule finish)
  show ?thesis
    unfolding run_request_def next_do_def Let_def
    apply (rule triple_bnd [OF keeps_triple [OF log_silent(4)]])
    apply (rule triple_bnd [OF log_emit [OF tame]])
    apply (rule triple_ex, rule triple_pure)
    by (rule triple_conseq [OF rest]) blast+
qed

end
