(* ===== verification/Sandbox_Lifecycle.thy ===== *)
theory Sandbox_Lifecycle
  imports Sandbox_Exec
begin

text \<open>
  Construction and destruction: the configuration a runtime is created with is well formed, a
  bad argument never reaches the runtime, and, on a runtime that keeps \<open>runtime_contract\<close>, a
  sandbox that has been destroyed, by its owner, by its timer or because its lifetime was
  over, owns no running environment from then on.
\<close>

section \<open>Construction\<close>

definition config_wf :: "sandbox_config \<Rightarrow> bool" where
  "config_wf c \<longleftrightarrow> strip (image_name c) \<noteq> [] \<and> 0 < lifetime c \<and> inside_workspace (workdir c) \<and>
     limits_wf (limits c) \<and> network_enabled c = (np_mode (sp_network (policy c)) \<noteq> DENY)"

lemma init_config_wf: "init_config a = Inr c \<Longrightarrow> config_wf c"
  by (auto simp: init_config_def Let_def config_wf_def make_limits_ok make_config_ok
      split: sum.splits dest: normalize_workdir_inside)

lemma init_config_fields:
  assumes "init_config a = Inr c"
  shows "image_name c = sa_image a" "lifetime c = sa_timeout a" "limits c = sa_limits a"
    "read_only_root c = sa_read_only_root a"
    "cfg_environment c = reveal_environment (sa_environment a)"
    "sa_policy a = None \<Longrightarrow> \<not> sa_network_enabled a \<Longrightarrow> sp_network (policy c) = denied"
    "sa_policy a = Some p \<Longrightarrow> policy c = p"
  using assms by (auto simp: init_config_def Let_def make_limits_ok make_config_ok split: sum.splits)

lemma init_refused:
  assumes "init_config a = Inl e"
  shows "init A b a out = (Inl e, out\<lparr>tick := Suc (tick out)\<rparr>)"
  using assms by (simp add: init_def Let_def)

lemma init_config_error: "init_config a = Inl e \<Longrightarrow> exn_class e = ValueError"
  by (auto simp: init_config_def Let_def make_config_def split: sum.splits if_splits
      dest: normalize_workdir_error make_limits_error)

lemma emit_outcome: "\<exists>r out'. emit A ty attrs (sb, out) = (r, (sb, out'))"
  by (auto simp: emit_def Let_def split: option.splits)

text \<open>A sandbox that \<open>__init__\<close> returns is active, its timer is armed, and its runtime was
  created with its configuration.\<close>

lemma init_result:
  assumes "init A b a out = (Inr sb, out')"
  shows "init_config a = Inr (sb_config sb)" "sb_secrets sb = sa_environment a"
    "sb_redaction sb = sa_environment a" "\<not> sb_destroyed sb" "timer_ok sb"
    "\<exists>w. rt_create (am_runtime A) (sb_config sb) (b, world out) = (Inr (), (sb_backend sb, w))"
proof -
  define out1 where "out1 = out\<lparr>tick := Suc (tick out)\<rparr>"
  from assms obtain cfg where cfg: "init_config a = Inr cfg"
    by (auto simp: init_def Let_def split: sum.splits)
  obtain r b' w where create: "rt_create (am_runtime A) cfg (b, world out) = (r, (b', w))"
    by (cases "rt_create (am_runtime A) cfg (b, world out)") auto
  with assms cfg have r: "r = Inr ()" by (cases r) (auto simp: init_def Let_def)
  define sb0 where "sb0 = \<lparr>sb_id = am_uuid A (tick out), sb_secrets = sa_environment a,
    sb_redaction = sa_environment a, sb_config = cfg, sb_backend = b', sb_destroyed = False,
    sb_timer = True, sb_deadline = am_monotonic A (Suc (tick out)) + sa_timeout a\<rparr>"
  obtain q out2 where "emit A CREATED (created_attributes A cfg)
      (sb0, out1\<lparr>world := w, tick := Suc (tick out1)\<rparr>) = (q, (sb0, out2))"
    using emit_outcome [of A CREATED _ sb0] by blast
  with assms cfg create r have "sb = sb0"
    by (auto simp: init_def Let_def sb0_def out1_def split: sum.splits prod.splits)
  with cfg create r show "init_config a = Inr (sb_config sb)" "sb_secrets sb = sa_environment a"
    "sb_redaction sb = sa_environment a" "\<not> sb_destroyed sb" "timer_ok sb"
    "\<exists>w. rt_create (am_runtime A) (sb_config sb) (b, world out) = (Inr (), (sb_backend sb, w))"
    by (auto simp: sb0_def timer_ok_def)
qed

section \<open>Destruction\<close>

text \<open>A destroyed sandbox owns no running environment.\<close>

definition gone :: "('b \<Rightarrow> bool) \<Rightarrow> ('b, 'w) state \<Rightarrow> bool" where
  "gone live s \<longleftrightarrow> (sb_destroyed (fst s) \<longrightarrow> \<not> live (sb_backend (fst s)))"

definition ended :: "('b \<Rightarrow> bool) \<Rightarrow> ('b, 'w) state \<Rightarrow> bool" where
  "ended live s \<longleftrightarrow> sb_destroyed (fst s) \<and> \<not> live (sb_backend (fst s))"

lemma gone_backend_call: "keeps (dead live) m \<Longrightarrow> keeps (gone live) (backend_call m)"
proof -
  assume m: "keeps (dead live) m"
  have "\<not> live b'" if "\<not> live b" "m (b, w) = (r, (b', w'))" for b w r b' w'
    using keepsD [OF m _ that(2)] that(1) by (simp add: dead_def)
  then show ?thesis
    by (auto simp: keeps_def triple_def gone_def backend_call_def split: prod.splits sum.splits)
qed

lemma gone_emit: "keeps (gone live) (emit A ty attrs)"
  by (auto simp: keeps_def triple_def gone_def emit_def Let_def split: option.splits)

lemma gone_pure:
  "keeps (gone live) (monotonic A)" "keeps (gone live) (effective_workdir d)"
  "keeps (gone live) (remember_secrets env)" "keeps (gone live) ensure_active"
  "keeps (gone live) (approve A act details)" "keeps (gone live) (with_outside m)"
  by (auto simp: keeps_def triple_def gone_def monotonic_def effective_workdir_def
      remember_secrets_def modify_def ensure_active_def approve_def with_outside_def
      split: prod.splits sum.splits)

lemma gone_yield: "keeps (gone live) (yield_chunks A vals cs)"
  by (induction cs) (auto intro!: keeps_steps gone_emit)

context runtime_contract
begin

lemma destroy_ended:
  assumes A: "am_runtime A = R" and s: "gone live s" and run: "destroy A s = (r, t)"
  shows "ended live t"
proof (cases "sb_destroyed (fst s)")
  case True
  with s run destroy_destroyed [OF True, of A] show ?thesis by (simp add: ended_def gone_def)
next
  case False
  obtain sb out where st: "s = (sb, out)" by (cases s)
  obtain r' b' w' where d: "rt_destroy R (sb_backend sb, world out) = (r', (b', w'))"
    by (cases "rt_destroy R (sb_backend sb, world out)") auto
  define sb' where "sb' = sb\<lparr>sb_destroyed := True, sb_timer := False, sb_backend := b'\<rparr>"
  obtain q out2 where e: "emit A DESTROYED [] (sb', out\<lparr>world := w'\<rparr>) = (q, (sb', out2))"
    using emit_outcome [of A DESTROYED "[]" sb'] by blast
  have "fst t = sb'"
    using run False d e A
    by (cases r') (auto simp: destroy_def comp_defs backend_call_def st sb'_def)
  with destroy_ends [OF d] show ?thesis by (simp add: ended_def sb'_def)
qed

lemma ended_gone: "ended live s \<Longrightarrow> gone live s"
  by (simp add: ended_def gone_def)

lemma gone_destroy:
  assumes A: "am_runtime A = R"
  shows "keeps (gone live) (destroy A)"
  by (rule keepsI) (rule ended_gone [OF destroy_ended [OF A]])

lemma gone_timeout: "am_runtime A = R \<Longrightarrow> keeps (gone live) (effective_timeout A t)"
  unfolding effective_timeout_def Let_def by (intro keeps_steps gone_pure gone_destroy)

lemma gone_run: "am_runtime A = R \<Longrightarrow> keeps (gone live) (run_request A kind c d t env wd)"
  unfolding run_request_def Let_def
  by (intro keeps_steps gone_pure gone_emit gone_timeout gone_backend_call) (simp_all add: keeps_dead)

lemma gone_perform:
  assumes A: "am_runtime A = R"
  shows "keeps (gone live) (perform A c)"
proof -
  note steps = keeps_steps gone_pure gone_emit gone_yield gone_destroy [OF A] gone_timeout [OF A]
    gone_run [OF A] gone_backend_call keeps_dead dead_logs
  show ?thesis
  proof (cases c)
    case (StreamShell s t e w)
    then show ?thesis
      by (cases "rt_stream R") (auto simp: as_outcome_def stream_shell_def A intro!: steps dead_stream)
  next
    case (TakeSnapshot d)
    then show ?thesis
      by (cases "rt_snapshot R") (auto simp: as_outcome_def snapshot_def A intro!: steps intro: dead_snapshot)
  next
    case (RestoreSnapshot d)
    then show ?thesis
      by (cases "rt_snapshot R") (auto simp: as_outcome_def restore_def A intro!: steps intro: dead_restore)
  next
    case Fork
    then show ?thesis
      by (cases "rt_fork R") (auto simp: as_outcome_def fork_def A intro!: steps dead_fork)
  qed (auto simp: as_outcome_def exec_python_def exec_command_def exec_shell_def write_file_def
      read_file_def logs_def timer_fire_def Let_def A intro!: steps)
qed

lemma ended_perform:
  assumes A: "am_runtime A = R" and s: "ended live s"
  shows "ended live (snd (perform A c s))"
proof -
  have "gone live (snd (perform A c s))"
    using keepsD [OF gone_perform [OF A], of s c "fst (perform A c s)"] s by (simp add: gone_def ended_def)
  moreover have "framed (fst s) (snd (perform A c s))"
    using keepsD [OF framed_perform, of "fst s" s A c "fst (perform A c s)"] by simp
  ultimately show ?thesis using s by (auto simp: ended_def gone_def frame_def)
qed

lemma ended_run:
  assumes A: "am_runtime A = R"
  shows "ended live s \<Longrightarrow> ended live (perform_all A cs s)"
  by (induction cs arbitrary: s) (simp_all add: ended_perform [OF A])

text \<open>After \<open>destroy\<close>, or after the timer has fired, whatever is called before and after.\<close>

lemma ends_destroy:
  assumes A: "am_runtime A = R" and s: "gone live s" "timer_ok (fst s)" and c: "c = Destroy \<or> c = Timer"
  shows "ended live (snd (perform A c s))"
proof -
  have "ended live (snd (destroy A s))"
    using destroy_ended [OF A s(1), of "fst (destroy A s)" "snd (destroy A s)"] by simp
  moreover have "snd (perform A c s) = snd (destroy A s)"
    if "\<not> sb_destroyed (fst s)"
    using c s(2) that
    by (auto simp: as_outcome_def timer_fire_def timer_ok_def comp_defs split: prod.split sum.split)
  moreover have "snd (perform A c s) = s" if "sb_destroyed (fst s)"
    using perform_destroyed_state [OF that] c by auto
  ultimately show ?thesis using s(1) by (cases "sb_destroyed (fst s)") (auto simp: ended_def gone_def)
qed

lemma run_ends:
  assumes A: "am_runtime A = R"
  shows "gone live s \<Longrightarrow> timer_ok (fst s) \<Longrightarrow> Destroy \<in> set cs \<or> Timer \<in> set cs \<Longrightarrow>
    ended live (perform_all A cs s)"
proof (induction cs arbitrary: s)
  case (Cons c cs)
  let ?t = "snd (perform A c s)"
  show ?case
  proof (cases "c = Destroy \<or> c = Timer")
    case True
    from ended_run [OF A ends_destroy [OF A Cons.prems(1,2) True]] show ?thesis by simp
  next
    case False
    have "gone live ?t"
      using keepsD [OF gone_perform [OF A] Cons.prems(1), of c "fst (perform A c s)"] by simp
    moreover have "timer_ok (fst ?t)"
      using keepsD [OF framed_perform, of "fst s" s A c "fst (perform A c s)"] Cons.prems(2)
      by (simp add: frame_def)
    ultimately show ?thesis using Cons.IH [of ?t] Cons.prems(3) False by auto
  qed
qed simp

end

end
