(* ===== verification/Remote_Facts.thy ===== *)
theory Remote_Facts
  imports Server Sandbox_Lifecycle
begin

text \<open>
  Facts of the remote runtime and of the server, each alone: a request changes no field of the runtime, so it
  keeps \<open>runtime_contract\<close>; and a handler of the server keeps an invariant of its table when the methods of
  a sandbox keep it.
\<close>

section \<open>The client\<close>

definition remote_live :: "remote_rt \<Rightarrow> bool" where
  "remote_live b \<longleftrightarrow> rr_id b \<noteq> None"

abbreviation rfields :: "(remote_rt \<Rightarrow> bool) \<Rightarrow> remote_rt \<times> 'w \<Rightarrow> bool" where
  "rfields P s \<equiv> P (fst s)"

lemma rfields_on_snd [method_keeps]: "keeps (rfields P) (on_snd m)"
  by (rule keepsI) (auto simp: on_snd_def split: prod.splits)

lemma keeps_json [method_keeps]: "keeps P m \<Longrightarrow> keeps P n \<Longrightarrow> keeps P (if b then case v of None \<Rightarrow> m | Some x \<Rightarrow> ret x else n)"
  by (auto split: option.split)

lemma rfields_request [method_keeps]: "keeps (rfields P) (remote_request E m path payload)"
  unfolding remote_request_def by (intro keeps_steps keeps_try_except method_keeps)

lemma rfields_id [method_keeps]: "keeps P remote_id"
  unfolding remote_id_def by (intro keeps_steps)

lemma rfields_sandbox [method_keeps]: "keeps (rfields P) (sandbox_request E m ending payload)"
  unfolding sandbox_request_def by (intro keeps_steps method_keeps)

lemma remote_id_dead: "\<not> remote_live b \<Longrightarrow> bnd remote_id f (b, w) =
    (Inl (Exn SandboxDestroyedError ''the remote sandbox has been destroyed''), (b, w))"
  by (simp add: remote_live_def remote_id_def comp_defs)

lemma remote_request_fields: "remote_request E m path payload (b, w) = (r, (b', w')) \<Longrightarrow> b' = b"
  using keepsD [OF rfields_request [of "\<lambda>x. x = b"], of "(b, w)"] by fastforce

lemma remote_destroy_eq: "remote_destroy E (b, w) = (case rr_id b of None \<Rightarrow> (Inr (), (b, w))
    | Some sid \<Rightarrow> suppressing (\<lambda>e. exn_isa e RuntimeNotAvailableError)
        (bnd (remote_request E ''DELETE'' (''/v1/sandboxes/'' @ sid) None) (\<lambda>_. ret ())) (b\<lparr>rr_id := None\<rparr>, w))"
  by (simp add: remote_destroy_def gets_def modify_def next_do_def bnd_def ret_def split: option.split)

lemma remote_destroy_fields:
  assumes "remote_destroy E (b, w) = (r, (b', w'))"
  shows "rr_id b' = None"
proof (cases "rr_id b")
  case (Some sid)
  have "keeps (rfields (\<lambda>x. rr_id x = None)) (suppressing (\<lambda>e. exn_isa e RuntimeNotAvailableError)
         (bnd (remote_request E ''DELETE'' (''/v1/sandboxes/'' @ sid) None) (\<lambda>_. ret ())))"
    by (intro keeps_steps keeps_suppressing method_keeps)
  from keepsD [OF this, of "(b\<lparr>rr_id := None\<rparr>, w)"] Some assms show ?thesis
    by (simp add: remote_destroy_eq)
qed (use assms in \<open>simp add: remote_destroy_eq\<close>)

interpretation remote: runtime_contract "remote_runtime E" remote_live for E
proof unfold_locales
  fix b w r b' w' assume "rt_destroy (remote_runtime E) (b, w) = (r, b', w')"
  then show "\<not> remote_live b'" using remote_destroy_fields by (fastforce simp: remote_runtime_def remote_live_def)
next
  fix b w assume b: "\<not> remote_live b"
  then show "rt_destroy (remote_runtime E) (b, w) = (Inr (), b, w)"
    by (simp add: remote_runtime_def remote_destroy_def remote_live_def comp_defs)
  note gone = remote_id_dead [OF b] bnd_assoc
  show "\<exists>m w'. rt_exec (remote_runtime E) q (b, w) = (Inl (Exn SandboxDestroyedError m), b, w')" for q
    by (simp add: remote_runtime_def remote_exec_def sandbox_request_def gone)
  show "\<exists>e w'. rt_write_file (remote_runtime E) p c (b, w) = (Inl e, b, w')" for p c
    by (simp add: remote_runtime_def remote_write_file_def sandbox_request_def gone)
  show "\<exists>e w'. rt_read_file (remote_runtime E) p (b, w) = (Inl e, b, w')" for p
    by (simp add: remote_runtime_def remote_read_file_def sandbox_request_def gone)
next
  have "dead remote_live = rfields (\<lambda>b. \<not> remote_live b)" by (auto simp: dead_def fun_eq_iff)
  note dead = this
  show "keeps (dead remote_live) (rt_logs (remote_runtime E))"
    unfolding remote_runtime_def remote_logs_def runtime.select_convs dead by (intro keeps_steps method_keeps)
  show "keeps (dead remote_live) (save p)" if "rt_snapshot (remote_runtime E) = Some (save, load)" for save load p
    using that unfolding remote_runtime_def dead
    by (auto simp: remote_snapshot_def intro!: keeps_steps method_keeps)
  show "keeps (dead remote_live) (load p)" if "rt_snapshot (remote_runtime E) = Some (save, load)" for save load p
    using that unfolding remote_runtime_def dead
    by (auto simp: remote_restore_def intro!: keeps_steps method_keeps)
qed (simp_all add: remote_runtime_def)

text \<open>The Firecracker runtime is the same transport.\<close>

interpretation firecracker: runtime_contract "firecracker_runtime E" remote_live for E
  unfolding firecracker_runtime_def by (rule remote.renamed)

section \<open>The server\<close>

text \<open>Who may use the server: anyone when it has no token, else who presents it.\<close>

definition authorized :: "('b, 'w) server_env \<Rightarrow> (str, str) dict \<Rightarrow> bool" where
  "authorized S headers \<longleftrightarrow> (case se_token S of None \<Rightarrow> True
     | Some t \<Rightarrow> t = [] \<or> map_of headers ''Authorization'' = Some (''Bearer '' @ t))"

lemma authorize_eq: "next_do (authorize S headers) m =
    (if authorized S headers then m else raise (Http 401 ''invalid bearer token''))"
  by (auto simp: authorize_def authorized_def comp_defs split: option.split)

lemma keeps_of_exn [method_keeps]: "keeps P (of_exn r)"
  by (auto simp: of_exn_def split: sum.split)

lemma keeps_json_case [method_keeps]:
  "keeps P (body_object v)" "keeps P (body_texts v)" "keeps P (get_sandbox sid)"
proof -
  show "keeps P (body_object v)" by (auto simp: body_object_def split: option.split json.split)
  show "keeps P (body_texts v)" by (auto simp: body_texts_def split: option.split sum.split)
  show "keeps P (get_sandbox sid)" by (rule keepsI) (auto simp: get_sandbox_def split: prod.splits if_splits)
qed

end
