(* ===== verification/Server_Facts.thy ===== *)
theory Server_Facts
  imports Remote_Facts
begin

text \<open>
  Invariants of the server's table of sandboxes: every entry is well formed, and a request about one sandbox
  changes no other.
\<close>

section \<open>Entries\<close>

text \<open>\<open>entries I\<close>: the sandboxes of the table satisfy \<open>I\<close>, by identifier.\<close>

definition entries :: "(str \<Rightarrow> 'b sandbox \<Rightarrow> bool) \<Rightarrow> ('b, 'w) server \<Rightarrow> bool" where
  "entries I s \<longleftrightarrow> distinct (map fst (fst s)) \<and> (\<forall>(sid, sb) \<in> set (fst s). I sid sb)"

text \<open>What every method of a sandbox keeps.\<close>

definition method_keeps_entry :: "('b sandbox \<Rightarrow> bool) \<Rightarrow> bool" where
  "method_keeps_entry I \<longleftrightarrow> (\<forall>a b. frame a b \<longrightarrow> I a \<longrightarrow> I b)"

lemma dict_set_subset: "set (dict_set k v d) \<subseteq> insert (k, v) (set d)"
  by (induction d) (auto split: if_splits)

lemma entries_set: "entries I (table, out) \<Longrightarrow> I sid sb \<Longrightarrow> entries I (dict_set sid sb table, out')"
  unfolding entries_def using dict_set_subset [of sid sb table] by (auto simp: dict_set_distinct)

lemma entries_pop: "entries I (table, out) \<Longrightarrow> entries I (dict_pop sid table, out')"
  by (auto simp: entries_def dict_pop_def intro: distinct_map_filter)

lemma entries_with_sandbox:
  assumes "\<And>sb. keeps (framed sb) m" and "method_keeps_entry (I sid)"
  shows "keeps (entries I) (with_sandbox sid m)"
proof (rule keepsI)
  fix s r t assume s: "entries I s" and run: "with_sandbox sid m s = (r, t)"
  obtain table out where Pair: "s = (table, out)" by (cases s)
  show "entries I t"
  proof (cases "map_of table sid")
    case None
    then show ?thesis using s run by (simp add: Pair with_sandbox_def)
  next
    case (Some sb)
    obtain q sb' out' where m: "m (sb, out) = (q, (sb', out'))" by (cases "m (sb, out)") auto
    then have "frame sb sb'" using keepsD [OF assms(1) _ m, of sb] by simp
    moreover have "I sid sb" using s Some by (auto simp: Pair entries_def dest: map_of_SomeD)
    ultimately have "I sid sb'" using assms(2) by (auto simp: method_keeps_entry_def)
    from entries_set [OF s [unfolded Pair] this] show ?thesis
      using run Some m by (auto simp: Pair with_sandbox_def split: sum.splits)
  qed
qed

lemma entries_outside: "keeps (entries I) (modify (\<lambda>(table, out). (table, f out)))"
  by (rule keepsI) (auto simp: modify_def entries_def)

lemma entries_temporary [method_keeps]: "keeps (entries I) (temporary S)"
  by (rule keepsI) (auto simp: temporary_def entries_def split: prod.splits)

lemma entries_destroyed [method_keeps]: "keeps (entries I) (modify (\<lambda>(table, out). (dict_pop sid table, out)))"
  by (rule keepsI) (auto simp: modify_def entries_pop)

lemma keeps_content [method_keeps]:
  "(\<And>b. keeps P (f b)) \<Longrightarrow> (\<And>t. keeps P (g t)) \<Longrightarrow> keeps P (case c of BytesContent b \<Rightarrow> f b | TextContent t \<Rightarrow> g t)"
  by (cases c) auto

lemma framed_methods [method_keeps]:
  "keeps (framed sb0) (exec_command A c t env wd d)" "keeps (framed sb0) (write_file A p x)"
  "keeps (framed sb0) (read_file A p dec)" "keeps (framed sb0) (logs A)" "keeps (framed sb0) (snapshot A p)"
  "keeps (framed sb0) (restore A p)"
  by (auto simp: exec_command_def write_file_def read_file_def logs_def snapshot_def restore_def Let_def
      intro!: keeps_steps method_keeps)

text \<open>The handlers of a sandbox.\<close>

definition handlers :: "('b, 'w) server_env \<Rightarrow> str \<Rightarrow> json option \<Rightarrow> ('b, 'w, json) handler list" where
  "handlers S sid body = [serve_exec S sid body, serve_write S sid body, serve_read S sid body, serve_logs S sid,
     serve_snapshot S sid, serve_restore S sid body, serve_destroy S sid]"

lemma entries_handlers:
  assumes "method_keeps_entry (I sid)" and "h \<in> set (handlers S sid body)"
  shows "keeps (entries I) h"
proof -
  note rules = keeps_steps method_keeps entries_with_sandbox assms(1) entries_outside
  have "keeps (entries I) (serve_exec S sid body)" unfolding serve_exec_def by (intro rules)
  moreover have "keeps (entries I) (serve_write S sid body)" unfolding serve_write_def by (intro rules)
  moreover have "keeps (entries I) (serve_read S sid body)" unfolding serve_read_def by (intro rules)
  moreover have "keeps (entries I) (serve_logs S sid)" unfolding serve_logs_def by (intro rules)
  moreover have "keeps (entries I) (serve_snapshot S sid)" unfolding serve_snapshot_def by (intro rules)
  moreover have "keeps (entries I) (serve_restore S sid body)" unfolding serve_restore_def by (intro rules)
  moreover have "keeps (entries I) (serve_destroy S sid)" unfolding serve_destroy_def by (intro rules)
  ultimately show ?thesis using assms(2) by (auto simp: handlers_def)
qed

section \<open>Creation\<close>

lemma init_tick: "init A b a out = (Inr sb, out') \<Longrightarrow> sb_id sb = am_uuid A (tick out)"
  by (auto simp: init_def Let_def emit_def split: sum.splits prod.splits option.splits)

lemma new_sandbox_ok:
  assumes "new_sandbox S a backend out = (Inr sb, out')"
  shows "sb_id sb = am_uuid (se_ambient S) (tick out)" "init_config a = Inr (sb_config sb)" "timer_ok sb"
    "\<not> sb_destroyed sb" "sb_secrets sb = sa_environment a"
proof -
  from assms obtain b where "init (se_ambient S) b a out = (Inr sb, out')"
    by (auto simp: new_sandbox_def split: sum.splits)
  from init_tick [OF this] init_result [OF this] show "sb_id sb = am_uuid (se_ambient S) (tick out)"
    "init_config a = Inr (sb_config sb)" "timer_ok sb" "\<not> sb_destroyed sb" "sb_secrets sb = sa_environment a" by auto
qed

lemma policy_of_json_wf: "policy_of_json d = Inr p \<Longrightarrow> security_wf p"
  by (auto simp: policy_of_json_def network_of_json_def sum_bind_Inr make_security_policy_ok make_network_policy_wf
      security_wf_def)

lemma args_of_payload_wf:
  assumes "args_of_payload d = Inr (a, backend)" "sa_policy a = Some p"
  shows "security_wf p"
proof -
  have "security_wf p" if "as_policy v = Inr (Some p)" for v
    using that by (cases v) (auto simp: as_policy_def sum_bind_Inr policy_of_json_wf)
  moreover have "field_or d ''security_policy'' as_policy None = Inr (Some p)"
    using assms unfolding args_of_payload_def sum_bind_Inr by (elim exE conjE) auto
  ultimately show ?thesis by (auto simp: field_or_def split: option.splits)
qed

lemma init_config_policy:
  "init_config a = Inr c \<Longrightarrow> (\<And>p. sa_policy a = Some p \<Longrightarrow> security_wf p) \<Longrightarrow> security_wf (policy c)"
  by (auto simp: init_config_def Let_def make_limits_ok make_config_ok security_wf_def default_policy_def
      split: sum.splits option.splits if_splits)

text \<open>A sandbox of the server: known by its identifier, well configured, its timer armed while it is active.\<close>

definition entry_ok :: "str \<Rightarrow> 'b sandbox \<Rightarrow> bool" where
  "entry_ok sid sb \<longleftrightarrow> sb_id sb = sid \<and> config_wf (sb_config sb) \<and> security_wf (policy (sb_config sb)) \<and> timer_ok sb"

lemma entry_ok_kept: "method_keeps_entry (entry_ok sid)"
  by (auto simp: method_keeps_entry_def entry_ok_def frame_def)

lemma entries_create:
  assumes "\<And>sb. sb_id sb = am_uuid (se_ambient S) (tick (snd s)) \<Longrightarrow> entry_ok (sb_id sb) sb \<Longrightarrow> I (sb_id sb) sb"
    and "entries I s"
  shows "entries I (snd (serve_create S body s))"
proof -
  obtain table out where s: "s = (table, out)" by (cases s)
  have made: "entries I (dict_set (sb_id sb) sb table, out')"
    if "args_of_payload d = Inr (a, backend)" "new_sandbox S a backend out = (Inr sb, out')" for d a backend sb out'
  proof (rule entries_set [OF assms(2) [unfolded s] assms(1)])
    note sb = new_sandbox_ok [OF that(2)]
    show "sb_id sb = am_uuid (se_ambient S) (tick (snd s))" using sb(1) s by simp
    show "entry_ok (sb_id sb) sb"
      using sb args_of_payload_wf [OF that(1)] init_config_policy [OF sb(2)] init_config_wf [OF sb(2)]
      by (auto simp: entry_ok_def)
  qed
  have other: "entries I (table, out')" for out' using assms(2) by (simp add: s entries_def)
  show ?thesis using made other
    by (auto simp: serve_create_def s bnd_def body_object_def of_exn_def ret_def raise_def
        split: option.splits json.splits sum.splits prod.splits)
qed

section \<open>Requests\<close>

text \<open>The handler of a request is \<open>create\<close>, or one of the sandbox that its path names.\<close>

definition target :: "str \<Rightarrow> str option" where
  "target path = (let ps = split_on CHR ''/'' path in
     if 4 \<le> length ps \<and> take 2 (tl ps) = [''v1'', ''sandboxes''] then Some (ps ! 3) else None)"

lemma route_handler:
  assumes "route S m (split_on CHR ''/'' path) body = Some h"
  shows "h = serve_create S body \<or> (\<exists>sid. target path = Some sid \<and> h \<in> set (handlers S sid body))"
proof (cases "split_on CHR ''/'' path")
  case (Cons x rest)
  then show ?thesis using assms
    by (auto simp: route_def target_def Let_def handlers_def split: if_splits)
qed (use assms in \<open>simp add: route_def\<close>)

lemma serve_request_cases:
  obtains (outside) "snd (serve_request S path q s) = s"
  | (create) "snd (serve_request S path q s) = snd (serve_create S (hq_body q) s)" "authorized S (hq_headers q)"
  | (sandbox) sid h where "target path = Some sid" "h \<in> set (handlers S sid (hq_body q))"
      "snd (serve_request S path q s) = snd (h s)" "authorized S (hq_headers q)"
proof (cases "route S (hq_method q) (split_on CHR ''/'' path) (hq_body q)")
  case None
  then show ?thesis using outside by (auto simp: serve_request_def)
next
  case (Some h)
  show ?thesis
  proof (cases "authorized S (hq_headers q) \<and> \<not> (hq_method q = ''GET'' \<and> path = ''/healthz'')")
    case True
    then have "snd (serve_request S path q s) = snd (h s)"
      using Some by (auto simp: serve_request_def authorize_eq split: prod.split sum.split)
    with route_handler [OF Some] True create sandbox show ?thesis by blast
  next
    case False
    then show ?thesis using outside Some by (auto simp: serve_request_def authorize_eq raise_def)
  qed
qed

text \<open>A sequence of requests.\<close>

primrec serve_all :: "('b, 'w) server_env \<Rightarrow> (str \<times> http_request) list \<Rightarrow> ('b, 'w) server \<Rightarrow> ('b, 'w) server" where
  "serve_all S [] s = s"
| "serve_all S (q # qs) s = serve_all S qs (snd (serve_request S (fst q) (snd q) s))"

lemma serve_request_entry_ok:
  assumes "entries entry_ok s"
  shows "entries entry_ok (snd (serve_request S path q s))"
proof (cases rule: serve_request_cases [of S path q s])
  case (sandbox sid h)
  show ?thesis using keepsD [OF entries_handlers [OF entry_ok_kept sandbox(2)] assms prod.collapse [symmetric]]
    by (simp add: sandbox(3))
qed (use assms in \<open>auto intro: entries_create\<close>)

lemma serve_all_entry_ok: "entries entry_ok s \<Longrightarrow> entries entry_ok (serve_all S qs s)"
  by (induction qs arbitrary: s) (auto simp: serve_request_entry_ok)

section \<open>Other sandboxes\<close>

text \<open>What the table has under an identifier that the request does not name.\<close>

definition elsewhere :: "str \<Rightarrow> 'b sandbox option \<Rightarrow> ('b, 'w) server \<Rightarrow> bool" where
  "elsewhere other v s \<longleftrightarrow> map_of (fst s) other = v"

lemma elsewhere_with_sandbox: "sid \<noteq> other \<Longrightarrow> keeps (elsewhere other v) (with_sandbox sid m)"
  by (rule keepsI) (auto simp: with_sandbox_def elsewhere_def split: prod.splits option.splits sum.splits)

lemma elsewhere_outside:
  "keeps (elsewhere other v) (modify (\<lambda>(table, out). (table, f out)))" "keeps (elsewhere other v) (temporary S)"
  "sid \<noteq> other \<Longrightarrow> keeps (elsewhere other v) (modify (\<lambda>(table, out). (dict_pop sid table, out)))"
  by (rule keepsI; auto simp: modify_def temporary_def elsewhere_def split: prod.splits)+

lemma elsewhere_handlers:
  assumes "sid \<noteq> other" and "h \<in> set (handlers S sid body)"
  shows "keeps (elsewhere other v) h"
proof -
  note rules = keeps_steps keeps_of_exn keeps_json_case keeps_content elsewhere_with_sandbox assms(1) elsewhere_outside
  have "keeps (elsewhere other v) (serve_exec S sid body)" unfolding serve_exec_def by (intro rules)
  moreover have "keeps (elsewhere other v) (serve_write S sid body)" unfolding serve_write_def by (intro rules)
  moreover have "keeps (elsewhere other v) (serve_read S sid body)" unfolding serve_read_def by (intro rules)
  moreover have "keeps (elsewhere other v) (serve_logs S sid)" unfolding serve_logs_def by (intro rules)
  moreover have "keeps (elsewhere other v) (serve_snapshot S sid)" unfolding serve_snapshot_def by (intro rules)
  moreover have "keeps (elsewhere other v) (serve_restore S sid body)" unfolding serve_restore_def by (intro rules)
  moreover have "keeps (elsewhere other v) (serve_destroy S sid)" unfolding serve_destroy_def by (intro rules)
  ultimately show ?thesis using assms(2) by (auto simp: handlers_def)
qed

lemma create_elsewhere:
  assumes "am_uuid (se_ambient S) (tick (snd s)) \<noteq> other"
  shows "map_of (fst (snd (serve_create S body s))) other = map_of (fst s) other"
proof -
  obtain table out where s: "s = (table, out)" by (cases s)
  have "sb_id sb \<noteq> other" if "new_sandbox S a backend out = (Inr sb, out')" for a backend sb out'
    using new_sandbox_ok(1) [OF that] assms s by simp
  then show ?thesis
    by (auto simp: serve_create_def s bnd_def body_object_def of_exn_def ret_def raise_def
        split: option.splits json.splits sum.splits prod.splits)
qed

text \<open>A request that does not know the token.\<close>

lemma unauthorized_inert:
  assumes "se_token S = Some token" and "token \<noteq> []"
    and "map_of (hq_headers q) ''Authorization'' \<noteq> Some (''Bearer '' @ token)"
  shows "\<exists>p. serve_request S path q s = (p, s) \<and>
    (p = failed S (Http 401 ''invalid bearer token'') \<or> p = se_no_route S \<or> p = answer (JObj [(''status'', JStr ''ok'')]))"
proof -
  have "\<not> authorized S (hq_headers q)" using assms by (simp add: authorized_def)
  then show ?thesis unfolding serve_request_def authorize_eq by (auto simp: raise_def split: option.split)
qed

end
