(* ===== verification/Remote_Wire.thy ===== *)
theory Remote_Wire
  imports Server_Facts
begin

text \<open>
  The remote runtime connected to the server: each operation of the client is, up to the form of its errors,
  the method of the sandbox that the server has under the client's identifier.
\<close>

section \<open>The connection\<close>

text \<open>A request to a URL of the server is handled by the server; any other one fails to connect.\<close>

definition direct :: "('b, 'w) server_env \<Rightarrow> str \<Rightarrow> http_request \<Rightarrow> (exn, ('b, 'w) server, http_response) comp" where
  "direct S base q = (\<lambda>s. if prefix base (hq_url q)
     then (case serve_request S (drop (length base) (hq_url q)) q s of (p, s') \<Rightarrow> (Inr p, s'))
     else (Inl (Exn OSError ''connection refused''), s))"

definition served :: "('b, 'w) server remote_env \<Rightarrow> ('b, 'w) server_env \<Rightarrow> str \<Rightarrow> ('b, 'w) server remote_env" where
  "served E S base = E\<lparr>re_transport := direct S base\<rparr>"

text \<open>What the client makes of a response.\<close>

definition refusal :: "http_response \<Rightarrow> exn" where
  "refusal p = Exn ExecutionError (''remote AgentNest request failed ('' @ int_text (int (hp_status p)) @ ''): '' @
     utf8_decode (hp_text p))"

definition accepted :: "http_response \<Rightarrow> bool" where
  "accepted p \<longleftrightarrow> 200 \<le> hp_status p \<and> hp_status p < 300"

definition received :: "http_response \<Rightarrow> exn + json" where
  "received p = (if accepted p then (case hp_json p of
      None \<Rightarrow> Inl (Exn RuntimeNotAvailableError ''remote AgentNest server is unavailable: Expecting value'')
    | Some v \<Rightarrow> Inr v) else Inl (refusal p))"

lemma remote_request_served:
  assumes "rr_url b = base"
  shows "remote_request (served E S base) m path payload (b, s) =
    (case serve_request S path (http_request b m path payload) s of (p, s') \<Rightarrow> (received p, (b, s')))"
  using assms
  by (auto simp: remote_request_def served_def direct_def http_request_def on_snd_def received_def accepted_def
      refusal_def comp_defs class_isa.simps split: prod.split option.split)

text \<open>The requests of a client that has the token.\<close>

definition connected :: "('b, 'w) server_env \<Rightarrow> str \<Rightarrow> str \<Rightarrow> remote_rt \<Rightarrow> bool" where
  "connected S base sid b \<longleftrightarrow> rr_url b = base \<and> rr_id b = Some sid \<and> CHR ''/'' \<notin> set sid \<and>
     (case se_token S of None \<Rightarrow> True | Some t \<Rightarrow> t = [] \<or> rr_token b = Some t)"

lemma connected_authorized: "connected S base sid b \<Longrightarrow> authorized S (hq_headers (http_request b m path payload))"
  by (cases "se_token S"; cases "rr_token b") (auto simp: connected_def authorized_def http_request_def auth_header_def)

lemma http_request_simps [simp]: "hq_method (http_request b m path payload) = m" "hq_body (http_request b m path payload) = payload"
  by (simp_all add: http_request_def)

lemma sandbox_path:
  assumes "CHR ''/'' \<notin> set sid" and "e = [] \<or> hd e = CHR ''/''"
  shows "split_on CHR ''/'' (''/v1/sandboxes/'' @ sid @ e) = ['''', ''v1'', ''sandboxes'', sid] @ tl (split_on CHR ''/'' e)"
proof -
  have "split_on CHR ''/'' (sid @ e) = sid # tl (split_on CHR ''/'' e)"
    using assms by (cases e) (auto simp: split_on_append_sep split_on_plain)
  then show ?thesis by simp
qed

text \<open>What a client sees of a handler.\<close>

definition handled :: "('b, 'w) server_env \<Rightarrow> ('b, 'w, json) handler \<Rightarrow> remote_rt \<times> ('b, 'w) server \<Rightarrow> (exn + json) \<times> (remote_rt \<times> ('b, 'w) server)" where
  "handled S h = (\<lambda>(b, s). case h s of
     (Inl f, s') \<Rightarrow> (received (failed S f), (b, s')) | (Inr v, s') \<Rightarrow> (Inr v, (b, s')))"

lemma received_answer [simp]: "received (answer v) = Inr v"
  by (simp add: received_def accepted_def answer_def)

lemma sandbox_request_served:
  assumes "connected S base sid b" and "e = [] \<or> hd e = CHR ''/''"
    and "route S m (['''', ''v1'', ''sandboxes'', sid] @ tl (split_on CHR ''/'' e)) payload = Some h"
  shows "sandbox_request (served E S base) m e payload (b, s) = handled S h (b, s)"
    "remote_request (served E S base) m (''/v1/sandboxes/'' @ sid @ e) payload (b, s) = handled S h (b, s)"
proof -
  define path where "path = ''/v1/sandboxes/'' @ sid @ e"
  have b: "rr_url b = base" "rr_id b = Some sid" "CHR ''/'' \<notin> set sid" using assms(1) by (auto simp: connected_def)
  have path: "path \<noteq> ''/healthz''" by (simp add: path_def)
  have "route S m (split_on CHR ''/'' path) payload = Some h"
    using sandbox_path [OF b(3) assms(2)] assms(3) by (simp add: path_def)
  then have serve: "serve_request S path (http_request b m path payload) s = (case h s of
      (Inl f, s') \<Rightarrow> (failed S f, s') | (Inr v, s') \<Rightarrow> (answer v, s'))"
    using path connected_authorized [OF assms(1), of m path payload]
    unfolding serve_request_def http_request_simps authorize_eq by simp
  then have *: "remote_request (served E S base) m path payload (b, s) = handled S h (b, s)"
    by (auto simp: remote_request_served [OF b(1)] handled_def split: prod.split sum.split)
  then show "remote_request (served E S base) m (''/v1/sandboxes/'' @ sid @ e) payload (b, s) = handled S h (b, s)"
    by (simp add: path_def)
  show "sandbox_request (served E S base) m e payload (b, s) = handled S h (b, s)"
    using * b(2) by (simp add: sandbox_request_def remote_id_def path_def comp_defs)
qed

section \<open>Operations\<close>

text \<open>A method of the sandbox that the server has under an identifier, as the client is to see it.\<close>

definition wire :: "('b, 'w) server_env \<Rightarrow> str \<Rightarrow> ('b, 'w, 'a) sandbox_method \<Rightarrow> (exn, remote_rt \<times> ('b, 'w) server, 'a) comp" where
  "wire S sid m = (\<lambda>(b, (table, out)). case map_of table sid of
     None \<Rightarrow> (Inl (refusal (failed S (Http 404 ''sandbox not found''))), (b, (table, out)))
   | Some sb \<Rightarrow> (case m (sb, out) of
       (Inl e, (sb', out')) \<Rightarrow> (Inl (refusal (se_crash S e)), (b, (dict_set sid sb' table, out')))
     | (Inr x, (sb', out')) \<Rightarrow> (Inr x, (b, (dict_set sid sb' table, out')))))"

text \<open>The framework answers an exception with the status of an error.\<close>

definition reports_errors :: "('b, 'w) server_env \<Rightarrow> bool" where
  "reports_errors S \<longleftrightarrow> (\<forall>e. \<not> accepted (se_crash S e))"

lemma received_failed:
  "reports_errors S \<Longrightarrow> received (failed S (Raised e)) = Inl (refusal (se_crash S e))"
  "received (failed S (Http 404 d)) = Inl (refusal (failed S (Http 404 d)))"
  by (simp add: received_def failed_def reports_errors_def) (simp add: received_def failed_def accepted_def)

text \<open>A handler that calls a method and answers \<open>f\<close> of its value, which the client reads back with \<open>g\<close>.\<close>

lemma wire_handler:
  assumes "reports_errors S" and "\<And>s x s'. m s = (Inr x, s') \<Longrightarrow> \<exists>v. f x = ret v \<and> g v = Inr (h x)"
  shows "(case handled S (bnd (with_sandbox sid m) f) (b, s) of (Inl e, t) \<Rightarrow> (Inl e, t) | (Inr v, t) \<Rightarrow> of_sum (g v) t) =
    wire S sid (bnd m (\<lambda>x. ret (h x))) (b, s)"
proof -
  obtain table out where s: "s = (table, out)" by (cases s)
  show ?thesis
  proof (cases "map_of table sid")
    case None
    then show ?thesis by (simp add: s handled_def wire_def with_sandbox_def bnd_def received_failed)
  next
    case (Some sb)
    obtain r sb' out' where m: "m (sb, out) = (r, (sb', out'))" by (cases "m (sb, out)") auto
    then show ?thesis using Some assms(1) assms(2) [of "(sb, out)" _ "(sb', out')"]
      by (cases r) (auto simp: s handled_def wire_def with_sandbox_def bnd_def received_failed of_sum_def ret_def)
  qed
qed

lemma get_sandbox_with: "next_do (get_sandbox sid) (bnd (with_sandbox sid m) f) = bnd (with_sandbox sid m) f"
  by (auto simp: fun_eq_iff next_do_def bnd_def get_sandbox_def with_sandbox_def split: option.split)

lemma of_exn_simps [simp]: "of_exn (Inr x) = ret x" "of_exn (Inl e) = raise (Raised e)"
  by (simp_all add: of_exn_def)

lemma as_env_json [simp]: "as_env (json_texts env) = Inr (plain_env env)"
proof -
  have "as_option as_texts (json_texts env) = Inr (Some env)"
    using as_texts_json [of env] by (simp add: json_texts_def)
  then show ?thesis by (simp add: as_env_def)
qed

lemma serve_exec_payload: "serve_exec S sid (Some (exec_payload q)) =
    bnd (with_sandbox sid (exec_command (se_ambient S) (xr_command q) (xr_timeout q) (plain_env (xr_environment q))
      (xr_workdir q) (Some (xr_display q)))) (\<lambda>r. ret (json_result r))"
  by (simp add: serve_exec_def body_object_def exec_payload_def item_def field_or_def only_keys_def get_sandbox_with)

lemma body_texts_simps: "body_texts (Some (JObj (map (\<lambda>(k, v). (k, JStr v)) d))) = ret d"
  using as_texts_json [of d] by (simp add: body_texts_def json_texts_def)

lemma serve_write_payload: "serve_write S sid (Some (JObj [(''path'', JStr p), (''content'', JStr (b64encode c))])) =
    bnd (with_sandbox sid (write_file (se_ambient S) p (BytesContent c))) (\<lambda>_. ret (JObj [(''ok'', JBool True)]))"
  by (simp add: serve_write_def text_field_def get_sandbox_with
      body_texts_simps [of "[(''path'', p), (''content'', b64encode c)]", simplified])

lemma serve_read_payload: "serve_read S sid (Some (JObj [(''path'', JStr p)])) =
    bnd (with_sandbox sid (read_file (se_ambient S) p False)) (\<lambda>content. case content of
        BytesContent b \<Rightarrow> ret (JObj [(''content'', JStr (b64encode b))])
      | TextContent _ \<Rightarrow> raise (Raised (Exn AssertionError [])))"
  by (simp add: serve_read_def text_field_def get_sandbox_with body_texts_simps [of "[(''path'', p)]", simplified])

lemma read_file_bytes: "read_file A p False s = (Inr x, s') \<Longrightarrow> \<exists>c. x = BytesContent c"
  by (auto simp: read_file_def next_do_def ret_def elim!: bnd_cases)

lemma bnd_eq: "bnd m f s = (case m s of (Inl e, t) \<Rightarrow> (Inl e, t) | (Inr x, t) \<Rightarrow> f x t)"
  by (simp add: bnd_def)

end
