(* ===== verification/Sandbox_Properties.thy ===== *)
theory Sandbox_Properties
  imports Sandbox_Lifecycle
begin

text \<open>
  The properties of the sandbox object, for every runtime, each applied to a small runtime that
  echoes the last argument of a command and remembers what it was asked.
\<close>

section \<open>A runtime for the examples\<close>

text \<open>The backend is a flag (running or not); the world is the list of requests it got.\<close>

definition echo_exec :: "exec_request \<Rightarrow> (bool, exec_request list, exec_result) runtime_op" where
  "echo_exec q = (\<lambda>(b, w). if \<not> b then (Inl destroyed_error, (b, w))
     else (Inr \<lparr>er_command = xr_display q, exit_code = 0, stdout = last (xr_command q), stderr = [],
       duration = 1\<rparr>, (b, w @ [q])))"

definition echo_runtime :: "(bool, exec_request list) runtime" where
  "echo_runtime = \<lparr>rt_name = ''Echo'', rt_create = (\<lambda>_ (b, w). (Inr (), (True, w))), rt_exec = echo_exec,
     rt_write_file = (\<lambda>_ _ (b, w). (if b then Inr () else Inl destroyed_error, (b, w))),
     rt_read_file = (\<lambda>_ (b, w). (if b then Inr ''data'' else Inl destroyed_error, (b, w))),
     rt_logs = (\<lambda>(b, w). (Inr (concat (map (last \<circ> xr_command) w)), (b, w))),
     rt_destroy = (\<lambda>(b, w). (Inr (), (False, w))), rt_snapshot = None, rt_fork = None, rt_stream = None\<rparr>"

definition demo_ambient :: "approval_hook \<Rightarrow> (bool, exec_request list) ambient" where
  "demo_ambient hook = \<lparr>am_runtime = echo_runtime, am_observers = [], am_hook = hook,
     am_monotonic = rat_of_nat, am_time = rat_of_nat, am_uuid = (\<lambda>n. nat_digits n)\<rparr>"

definition demo_out :: "exec_request list outside" where
  "demo_out = \<lparr>world = [], tick = 0, emitted = []\<rparr>"

definition demo_sandbox_args :: sandbox_args where
  "demo_sandbox_args = default_args\<lparr>sa_environment := [(''KEY'', Secret ''hunter2'')]\<rparr>"

definition demo_sb :: "bool sandbox" where
  "demo_sb = \<lparr>sb_id = ''0'', sb_secrets = [(''KEY'', Secret ''hunter2'')],
     sb_redaction = [(''KEY'', Secret ''hunter2'')],
     sb_config = \<lparr>image_name = ''python:3.12-slim'', lifetime = 300,
       cfg_environment = [(''KEY'', ''hunter2'')], workdir = ''/workspace'', network_enabled = False,
       limits = default_limits, read_only_root = True, policy = default_policy\<rparr>,
     sb_backend = True, sb_destroyed = False, sb_timer = True, sb_deadline = 301\<rparr>"

definition demo_start :: "(bool, exec_request list) state" where
  "demo_start = (demo_sb, demo_out)"

definition demo_call :: call where
  "demo_call = ExecPython ''hunter2 s3cret'' (Some 5) [(''T'', Secret ''s3cret'')] None"

lemma demo_init: "fst (init (demo_ambient allow_all) False demo_sandbox_args demo_out) = Inr demo_sb"
  by code_simp

section \<open>Approval and destruction\<close>

text \<open>
  C4. An action that the approval hook does not approve has no effect: the call raises, and the
  sandbox, the runtime, the outside world and the audit log are exactly as before. This holds for
  every operation that acts on the sandbox.
\<close>

theorem refused_has_no_effect:
  assumes "action_of c = Some act" and "refuses (am_hook A) act"
  shows "\<exists>e. perform A c s = (Inl e, s)"
  using perform_refused [OF assms] by (simp add: stops_def)

lemma refused_has_no_effect_witness:
  "\<exists>e. perform (demo_ambient deny_all) demo_call demo_start = (Inl e, demo_start)"
  by (rule refused_has_no_effect [of _ EXECUTE_PYTHON])
    (simp_all add: demo_call_def demo_ambient_def refuses_def deny_all_def)

text \<open>
  C5. A destroyed sandbox is inert: whatever sequence of operations is called on it, but for
  reading the logs, the sandbox, the runtime, the world and the audit log stay as they are, so the
  runtime is destroyed once; and each operation that acts raises \<open>SandboxDestroyedError\<close>.
\<close>

theorem destroyed_is_inert:
  assumes "sb_destroyed (fst s)" and "Logs \<notin> set cs" and "refuses_when_destroyed c"
  shows "perform_all A cs s = s \<and> perform A c s = (Inl (Exn SandboxDestroyedError ''the sandbox has been destroyed''), s)"
  using run_destroyed [OF assms(1,2)] perform_destroyed [OF assms(1,3)] by simp

lemma destroyed_is_inert_witness:
  "let s = (demo_sb\<lparr>sb_destroyed := True\<rparr>, demo_out) in
   perform_all (demo_ambient allow_all) [demo_call, Destroy, Timer, ReadFile ''x'' True] s = s \<and>
   perform (demo_ambient allow_all) demo_call s =
     (Inl (Exn SandboxDestroyedError ''the sandbox has been destroyed''), s)"
  unfolding Let_def
  by (rule destroyed_is_inert) (simp_all add: demo_call_def refuses_when_destroyed_def)

text \<open>
  Identity, configuration, own secrets and deadline of a sandbox never change, destruction is
  never undone, and the timer is armed exactly while the sandbox is not destroyed, through every
  sequence of operations.
\<close>

theorem sandbox_stable:
  assumes "timer_ok (fst s)"
  shows "let t = fst (perform_all A cs s) in
     sb_id t = sb_id (fst s) \<and> sb_config t = sb_config (fst s) \<and> sb_secrets t = sb_secrets (fst s) \<and>
     sb_deadline t = sb_deadline (fst s) \<and> (sb_destroyed (fst s) \<le> sb_destroyed t) \<and> timer_ok t"
  using framed_run_all [of "fst s" s A cs] assms by (simp add: frame_def Let_def)

lemma sandbox_stable_witness:
  "let t = fst (perform_all (demo_ambient allow_all) [demo_call, Timer, Destroy] demo_start) in
     sb_id t = sb_id (fst demo_start) \<and> sb_config t = sb_config (fst demo_start) \<and>
     sb_secrets t = sb_secrets (fst demo_start) \<and> sb_deadline t = sb_deadline (fst demo_start) \<and>
     (sb_destroyed (fst demo_start) \<le> sb_destroyed t) \<and> timer_ok t"
  by (rule sandbox_stable) (simp add: demo_start_def demo_sb_def timer_ok_def)

section \<open>Execution\<close>









definition clash_env :: secret_env where
  "clash_env = [(''A'', Plain ''1''), (''T:2'', Secret ''first'')]"

text \<open>
  Without that proviso a secret can be forgotten: if the sandbox has a variable \<open>T:2\<close> that is
  a secret and is the third to be kept, a command's secret \<open>T\<close> takes its place, and the logs show
  the first one.
\<close>

theorem remembered_key_clash:
  "remember [(''T'', Secret ''second'')] clash_env = [(''A'', Plain ''1''), (''T:2'', Secret ''second'')] \<and>
   redact ''first'' (remember [(''T'', Secret ''second'')] clash_env) = ''first''"
  by code_simp

text \<open>
  Audit: when observers raise nothing but ordinary exceptions, a command that returns has
  appended exactly two events to the log, its start and then its end, with the exit status and
  duration that the caller gets.
\<close>

theorem execution_is_audited:
  assumes "tame (am_observers A)" and "fst (exec_python A source timeout env wd s) = Inr r"
  shows "\<exists>n m. emitted (snd (snd (exec_python A source timeout env wd s))) = emitted (snd s) @
     [make_event A n EXECUTION_STARTED (sb_id (fst s)) [(''kind'', DText ''python'')],
      make_event A m EXECUTION_FINISHED (sb_id (fst s)) (finished_attributes ''python'' r)]"
proof -
  let ?run = "run_request A ''python'' [''python'', ''-c'', source] ''python -c <code>'' timeout env wd"
  have "triple (event_log (sb_id (fst s)) (emitted (snd s))) (exec_python A source timeout env wd)
    (\<lambda>r t. \<exists>es' es''. event_after A (sb_id (fst s)) (emitted (snd s)) EXECUTION_STARTED [(''kind'', DText ''python'')] es' \<and>
       event_after A (sb_id (fst s)) es' EXECUTION_FINISHED (finished_attributes ''python'' r) es'' \<and>
       event_log (sb_id (fst s)) es'' t)
    (\<lambda>_ _. True)"
    unfolding exec_python_def next_do_def
    by (intro triple_bnd [OF keeps_triple [OF log_silent(5)]] triple_bnd [OF keeps_triple [OF log_silent(6)]]
        log_run_request assms(1))
  from tripleD [OF this _ prod.collapse [symmetric], of s] assms(2) show ?thesis
    by (auto simp: event_log_def event_after_def)
qed

lemma execution_is_audited_witness:
  "\<exists>n m. emitted (snd (snd (exec_python (demo_ambient allow_all) ''1'' None [] None demo_start))) =
     emitted (snd demo_start) @
     [make_event (demo_ambient allow_all) n EXECUTION_STARTED (sb_id (fst demo_start)) [(''kind'', DText ''python'')],
      make_event (demo_ambient allow_all) m EXECUTION_FINISHED (sb_id (fst demo_start))
        (finished_attributes ''python'' \<lparr>er_command = ''python -c <code>'', exit_code = 0, stdout = ''1'',
          stderr = [], duration = 1\<rparr>)]"
proof (rule execution_is_audited)
  show "tame (am_observers (demo_ambient allow_all))" by (simp add: tame_def demo_ambient_def)
  show "fst (exec_python (demo_ambient allow_all) ''1'' None [] None demo_start) =
    Inr \<lparr>er_command = ''python -c <code>'', exit_code = 0, stdout = ''1'', stderr = [], duration = 1\<rparr>"
    by code_simp
qed

section \<open>Construction\<close>

text \<open>
  C38. A sandbox is only ever created with a well-formed configuration: an argument that is refused
  raises a \<open>ValueError\<close> before the runtime is touched; otherwise the sandbox that is returned is
  active, its timer is armed, its runtime was created with its configuration, the working
  directory lies in the workspace, the limits are positive, and the network flag says whether the
  policy denies the network.
\<close>

theorem construction:
  "case init_config a of
     Inl e \<Rightarrow> exn_class e = ValueError \<and> fst (init A b a out) = Inl e \<and> world (snd (init A b a out)) = world out
   | Inr c \<Rightarrow> config_wf c \<and>
       (case init A b a out of (Inl _, _) \<Rightarrow> True
        | (Inr sb, _) \<Rightarrow> sb_config sb = c \<and> \<not> sb_destroyed sb \<and> timer_ok sb \<and>
            fst (rt_create (am_runtime A) c (b, world out)) = Inr () \<and>
            sb_backend sb = fst (snd (rt_create (am_runtime A) c (b, world out))))"
proof (cases "init_config a")
  case (Inl e)
  then show ?thesis by (simp add: init_refused init_config_error)
next
  case (Inr c)
  show ?thesis
  proof (cases "fst (init A b a out)")
    case (Inl e)
    with \<open>init_config a = Inr c\<close> show ?thesis by (auto simp: init_config_wf split: prod.split)
  next
    case ok: (Inr sb)
    then have "init A b a out = (Inr sb, snd (init A b a out))" by (simp add: prod_eq_iff)
    from init_result [OF this] \<open>init_config a = Inr c\<close> ok show ?thesis
      by (auto simp: init_config_wf split: prod.split)
  qed
qed

end
