(* ===== verification/Remote_Properties.thy ===== *)
theory Remote_Properties
  imports Remote_Wire Sandbox_Properties
begin

text \<open>
  The properties of the remote runtime connected to the server, and of the server.
\<close>

section \<open>A server of the echo runtime\<close>

definition demo_server :: "(bool, exec_request list) server_env" where
  "demo_server = \<lparr>se_token = Some ''t0ken'', se_ambient = demo_ambient allow_all, se_backend = (\<lambda>_. Inr False),
     se_temporary = (\<lambda>n. ''/tmp/agentnest-api-'' @ nat_digits n), se_read = (\<lambda>_ _. []), se_write = (\<lambda>_ _ w. w),
     se_crash = (\<lambda>e. \<lparr>hp_status = 500, hp_json = None, hp_text = ''Internal Server Error''\<rparr>),
     se_invalid = \<lparr>hp_status = 422, hp_json = None, hp_text = []\<rparr>,
     se_no_route = \<lparr>hp_status = 404, hp_json = None, hp_text = []\<rparr>\<rparr>"

definition demo_remote_env :: "(bool, exec_request list) server remote_env" where
  "demo_remote_env = \<lparr>re_transport = (\<lambda>_ s. (Inl (Exn OSError ''offline''), s)), re_save = (\<lambda>_ _. ret ()),
     re_load = (\<lambda>_. ret []), re_time = ret 0\<rparr>"

definition demo_client :: remote_rt where
  "demo_client = (new_remote ''https://host/'' (Some ''t0ken'') 30)\<lparr>rr_id := Some ''0''\<rparr>"

lemma demo_connected: "connected demo_server ''https://host'' ''0'' demo_client"
  by (simp add: connected_def demo_client_def new_remote_def demo_server_def rstrip_by_def)

lemma demo_reports: "reports_errors demo_server"
  by (simp add: reports_errors_def demo_server_def accepted_def)

section \<open>The remote runtime refines the sandbox of the server\<close>

lemma served_exec:
  assumes "connected S base sid b" "reports_errors S"
  shows "remote_exec (served E S base) q (b, s) = wire S sid (exec_command (se_ambient S) (xr_command q)
    (xr_timeout q) (plain_env (xr_environment q)) (xr_workdir q) (Some (xr_display q))) (b, s)"
proof -
  have "route S ''POST'' (['''', ''v1'', ''sandboxes'', sid] @ tl (split_on CHR ''/'' ''/exec'')) (Some (exec_payload q)) =
      Some (serve_exec S sid (Some (exec_payload q)))" by (simp add: route_def)
  from sandbox_request_served(1) [OF assms(1) _ this, of E s]
  have "remote_exec (served E S base) q (b, s) = (case handled S (serve_exec S sid (Some (exec_payload q))) (b, s) of
      (Inl e, t) \<Rightarrow> (Inl e, t) | (Inr v, t) \<Rightarrow> of_sum (result_of_json v) t)"
    by (simp add: remote_exec_def bnd_eq)
  also have "\<dots> = wire S sid (bnd (exec_command (se_ambient S) (xr_command q)
    (xr_timeout q) (plain_env (xr_environment q)) (xr_workdir q) (Some (xr_display q))) (\<lambda>x. ret x)) (b, s)"
    unfolding serve_exec_payload by (rule wire_handler [OF assms(2)]) auto
  finally show ?thesis by simp
qed

lemma served_write:
  assumes "connected S base sid b" "reports_errors S"
  shows "remote_write_file (served E S base) p c (b, s) = wire S sid (write_file (se_ambient S) p (BytesContent c)) (b, s)"
proof -
  define v where "v = JObj [(''path'', JStr p), (''content'', JStr (b64encode c))]"
  have "route S ''PUT'' (['''', ''v1'', ''sandboxes'', sid] @ tl (split_on CHR ''/'' ''/files'')) (Some v) =
      Some (serve_write S sid (Some v))" by (simp add: route_def)
  from sandbox_request_served(1) [OF assms(1) _ this, of E s]
  have "remote_write_file (served E S base) p c (b, s) = (case handled S (serve_write S sid (Some v)) (b, s) of
      (Inl e, t) \<Rightarrow> (Inl e, t) | (Inr v, t) \<Rightarrow> of_sum (Inr ()) t)"
    by (auto simp: remote_write_file_def bnd_eq v_def ret_def of_sum_def split: prod.split sum.split)
  also have "\<dots> = wire S sid (bnd (write_file (se_ambient S) p (BytesContent c)) (\<lambda>x. ret x)) (b, s)"
    unfolding v_def serve_write_payload by (rule wire_handler [OF assms(2)]) auto
  finally show ?thesis by simp
qed

lemma served_read:
  assumes "connected S base sid b" "reports_errors S"
  shows "remote_read_file (served E S base) p (b, s) = wire S sid (bnd (read_file (se_ambient S) p False) (\<lambda>c. ret (encode c))) (b, s)"
proof -
  define v where "v = JObj [(''path'', JStr p)]"
  have "route S ''POST'' (['''', ''v1'', ''sandboxes'', sid] @ tl (split_on CHR ''/'' ''/files/read'')) (Some v) =
      Some (serve_read S sid (Some v))" by (simp add: route_def)
  from sandbox_request_served(1) [OF assms(1) _ this, of E s]
  have "remote_read_file (served E S base) p (b, s) = (case handled S (serve_read S sid (Some v)) (b, s) of
      (Inl e, t) \<Rightarrow> (Inl e, t) | (Inr v, t) \<Rightarrow> of_sum (content_of v) t)"
    by (simp add: remote_read_file_def bnd_eq v_def)
  also have "\<dots> = wire S sid (bnd (read_file (se_ambient S) p False) (\<lambda>c. ret (encode c))) (b, s)"
    unfolding v_def serve_read_payload
    by (rule wire_handler [OF assms(2)]) (auto simp: content_of_def text_item_def item_def dest!: read_file_bytes)
  finally show ?thesis .
qed

lemma served_logs:
  assumes "connected S base sid b" "reports_errors S"
  shows "remote_logs (served E S base) (b, s) = wire S sid (logs (se_ambient S)) (b, s)"
proof -
  have "route S ''GET'' (['''', ''v1'', ''sandboxes'', sid] @ tl (split_on CHR ''/'' ''/logs'')) None =
      Some (serve_logs S sid)" by (simp add: route_def)
  from sandbox_request_served(1) [OF assms(1) _ this, of E s]
  have "remote_logs (served E S base) (b, s) = (case handled S (serve_logs S sid) (b, s) of
      (Inl e, t) \<Rightarrow> (Inl e, t) | (Inr v, t) \<Rightarrow> of_sum (text_item ''logs'' v) t)"
    by (simp add: remote_logs_def bnd_eq)
  also have "\<dots> = wire S sid (bnd (logs (se_ambient S)) (\<lambda>x. ret x)) (b, s)"
    unfolding serve_logs_def by (rule wire_handler [OF assms(2)]) (auto simp: text_item_def item_def)
  finally show ?thesis by simp
qed

text \<open>
  C24. The remote runtime refines the sandbox of the server: for a client with the server's token, executing a
  command, writing and reading a file and reading the logs are the methods of the sandbox that the server keeps
  under the client's identifier, with their effect on that sandbox, its runtime and the audit log; JSON, Base64
  and the routes in between change no value. An exception of the method, or an unknown identifier, reaches the
  client as an \<open>ExecutionError\<close> with the server's response.
\<close>

theorem remote_refines_sandbox:
  assumes "connected S base sid b" and "reports_errors S"
  shows "remote_exec (served E S base) q (b, s) = wire S sid (exec_command (se_ambient S) (xr_command q)
      (xr_timeout q) (plain_env (xr_environment q)) (xr_workdir q) (Some (xr_display q))) (b, s) \<and>
    remote_write_file (served E S base) p c (b, s) = wire S sid (write_file (se_ambient S) p (BytesContent c)) (b, s) \<and>
    remote_read_file (served E S base) p (b, s) =
      wire S sid (bnd (read_file (se_ambient S) p False) (\<lambda>x. ret (encode x))) (b, s) \<and>
    remote_logs (served E S base) (b, s) = wire S sid (logs (se_ambient S)) (b, s)"
  using served_exec [OF assms] served_write [OF assms] served_read [OF assms] served_logs [OF assms] by simp

lemma remote_refines_sandbox_witness:
  "let E = served demo_remote_env demo_server ''https://host''; t = (demo_client, ([(''0'', demo_sb)], demo_out));
      q = \<lparr>xr_command = [''echo'', ''hi''], xr_display = ''echo hi'', xr_environment = [(''A'', ''1'')],
        xr_workdir = Some ''/workspace'', xr_timeout = Some 5\<rparr> in
    remote_exec E q t = wire demo_server ''0'' (exec_command (demo_ambient allow_all) (xr_command q)
      (xr_timeout q) (plain_env (xr_environment q)) (xr_workdir q) (Some (xr_display q))) t \<and>
    remote_write_file E ''a'' ''data'' t = wire demo_server ''0'' (write_file (demo_ambient allow_all) ''a'' (BytesContent ''data'')) t \<and>
    remote_read_file E ''a'' t = wire demo_server ''0'' (bnd (read_file (demo_ambient allow_all) ''a'' False) (\<lambda>x. ret (encode x))) t \<and>
    remote_logs E t = wire demo_server ''0'' (logs (demo_ambient allow_all)) t"
proof -
  have A: "se_ambient demo_server = demo_ambient allow_all" by (simp add: demo_server_def)
  show ?thesis using remote_refines_sandbox [OF demo_connected demo_reports] unfolding A Let_def by blast
qed

section \<open>Creation\<close>

lemma reveal_plain [simp]: "reveal_environment (plain_env env) = env"
  by (induction env) (auto simp: reveal_environment_def plain_env_def)

text \<open>The configuration that reaches the server.\<close>

definition sent_config :: "sandbox_config \<Rightarrow> sandbox_config" where
  "sent_config cfg = cfg\<lparr>read_only_root := True,
     policy := (policy cfg)\<lparr>egress_proxy_image := egress_proxy_image default_policy\<rparr>\<rparr>"

definition sent_args :: "sandbox_config \<Rightarrow> sandbox_args" where
  "sent_args cfg = \<lparr>sa_image = image_name cfg, sa_timeout = lifetime cfg, sa_environment = plain_env (cfg_environment cfg),
     sa_workdir = workdir cfg, sa_network_enabled = network_enabled cfg, sa_limits = limits cfg,
     sa_read_only_root = True, sa_policy = Some (policy (sent_config cfg))\<rparr>"

lemma as_memory_json [simp]: "as_memory (json_memory m) = Inr m"
  by (cases m) (simp_all add: as_memory_def json_memory_def)

lemma as_policy_json: "security_wf p \<Longrightarrow> as_policy (json_policy p) = Inr (Some (p\<lparr>egress_proxy_image := egress_proxy_image default_policy\<rparr>))"
  using policy_roundtrip [of p] by (simp add: as_policy_def json_policy_def)

lemma sent_args_payload:
  assumes "security_wf (policy cfg)"
  obtains d where "create_payload cfg = JObj d" "args_of_payload d = Inr (sent_args cfg, ''docker'')"
proof
  show "create_payload cfg = JObj (case create_payload cfg of JObj d \<Rightarrow> d)" by (simp add: create_payload_def)
  show "args_of_payload (case create_payload cfg of JObj d \<Rightarrow> d) = Inr (sent_args cfg, ''docker'')"
    using as_policy_json [OF assms]
    by (simp add: create_payload_def args_of_payload_def field_or_def only_keys_def sent_args_def sent_config_def)
qed

lemma sent_init_config:
  assumes "init_config a = Inr cfg"
  shows "init_config (sent_args cfg) = Inr (sent_config cfg)"
proof -
  obtain pol wd where wd: "normalize_workdir (sa_workdir a) = Inr wd" and lim: "make_limits (sa_limits a) = Inr (sa_limits a)"
    and cfg: "cfg = \<lparr>image_name = sa_image a, lifetime = sa_timeout a,
             cfg_environment = reveal_environment (sa_environment a), workdir = wd,
             network_enabled = (np_mode (sp_network pol) \<noteq> DENY), limits = sa_limits a,
             read_only_root = sa_read_only_root a, policy = pol\<rparr>"
    and make: "make_config cfg = Inr cfg"
    using assms by (auto simp: init_config_def Let_def make_limits_ok make_config_ok split: sum.splits)
  show ?thesis
    using wd lim make normalize_workdir_idem [OF wd]
    by (simp add: init_config_def sent_args_def sent_config_def cfg make_config_def Let_def split: if_splits)
qed

lemma serve_create_payload:
  assumes "security_wf (policy cfg)"
  shows "serve_create S (Some (create_payload cfg)) (table, out) = (case new_sandbox S (sent_args cfg) ''docker'' out of
      (Inl e, out') \<Rightarrow> (Inl (Raised e), (table, out'))
    | (Inr sb, out') \<Rightarrow> (Inr (JObj [(''id'', JStr (sb_id sb))]), (dict_set (sb_id sb) sb table, out')))"
proof -
  obtain d where "create_payload cfg = JObj d" "args_of_payload d = Inr (sent_args cfg, ''docker'')"
    using sent_args_payload [OF assms] .
  then show ?thesis by (simp add: serve_create_def body_object_def)
qed

text \<open>A client that may use the server.\<close>

definition may_use :: "('b, 'w) server_env \<Rightarrow> str \<Rightarrow> remote_rt \<Rightarrow> bool" where
  "may_use S base b \<longleftrightarrow> rr_url b = base \<and> (case se_token S of None \<Rightarrow> True | Some t \<Rightarrow> t = [] \<or> rr_token b = Some t)"

lemma may_use_authorized: "may_use S base b \<Longrightarrow> authorized S (hq_headers (http_request b m path payload))"
  by (cases "se_token S"; cases "rr_token b") (auto simp: may_use_def authorized_def http_request_def auth_header_def)

lemma create_request_served:
  assumes "may_use S base b"
  shows "remote_request (served E S base) ''POST'' ''/v1/sandboxes'' payload (b, s) = handled S (serve_create S payload) (b, s)"
proof -
  have url: "rr_url b = base" using assms by (simp add: may_use_def)
  have "route S ''POST'' (split_on CHR ''/'' ''/v1/sandboxes'') payload = Some (serve_create S payload)"
    by (simp add: route_def)
  then have "serve_request S ''/v1/sandboxes'' (http_request b ''POST'' ''/v1/sandboxes'' payload) s = (case serve_create S payload s of
      (Inl f, s') \<Rightarrow> (failed S f, s') | (Inr v, s') \<Rightarrow> (answer v, s'))"
    using may_use_authorized [OF assms, of "''POST''" "''/v1/sandboxes''" payload]
    unfolding serve_request_def http_request_simps authorize_eq by simp
  then show ?thesis
    by (auto simp: remote_request_served [OF url] handled_def split: prod.split sum.split)
qed

text \<open>
  C25. A configuration survives the way to the server: when a client with the token creates a sandbox, the server
  has a new active sandbox under the identifier that the client keeps, and its configuration is the client's,
  through the JSON payload and all the checks of the server, but for the two fields that the payload leaves out:
  the root file system is read-only and the image of the egress proxy is the default one.
\<close>

theorem remote_create_config:
  assumes "init_config a = Inr cfg" and "security_wf (policy cfg)" and "may_use S base b" and "reports_errors S"
    and "remote_create (served E S base) cfg (b, (table, out)) = (Inr (), (b', (table', out')))"
  shows "\<exists>sb. rr_id b' = Some (sb_id sb) \<and> map_of table' (sb_id sb) = Some sb \<and> \<not> sb_destroyed sb \<and> timer_ok sb \<and>
    sb_config sb = cfg\<lparr>read_only_root := True, policy := (policy cfg)\<lparr>egress_proxy_image := ''python:3.12-slim''\<rparr>\<rparr>"
proof -
  have run: "remote_create (served E S base) cfg (b, (table, out)) = (case handled S (serve_create S (Some (create_payload cfg))) (b, (table, out)) of
      (Inl e, t) \<Rightarrow> (Inl e, t) | (Inr v, t) \<Rightarrow> bnd (of_sum (text_item ''id'' v)) (\<lambda>sid. modify (\<lambda>(b, w). (b\<lparr>rr_id := Some sid\<rparr>, w))) t)"
    unfolding remote_create_def bnd_eq [of "remote_request E' m p x" for E' m p x] create_request_served [OF assms(3)] ..
  obtain r out1 where new: "new_sandbox S (sent_args cfg) ''docker'' out = (r, out1)" by fastforce
  show ?thesis
  proof (cases r)
    case (Inl e)
    with run new assms(5) received_failed(1) [OF assms(4), of e] show ?thesis
      by (simp add: handled_def serve_create_payload [OF assms(2)])
  next
    case (Inr sb)
    with run new assms(5) have "rr_id b' = Some (sb_id sb)" "table' = dict_set (sb_id sb) sb table"
      by (auto simp: handled_def serve_create_payload [OF assms(2)] bnd_def of_sum_def text_item_def item_def modify_def)
    moreover have "init_config (sent_args cfg) = Inr (sb_config sb)" "timer_ok sb" "\<not> sb_destroyed sb"
      using new_sandbox_ok [OF new [unfolded Inr]] by auto
    moreover have "sb_config sb = sent_config cfg"
      using sent_init_config [OF assms(1)] calculation(3) by simp
    ultimately show ?thesis by (auto simp: sent_config_def default_policy_def)
  qed
qed

definition demo_remote_created :: "(exn + unit) \<times> (remote_rt \<times> (bool, exec_request list) server)" where
  "demo_remote_created = remote_create (served demo_remote_env demo_server ''https://host'') (sb_config demo_sb) (demo_client, ([], demo_out))"

lemma remote_create_config_witness:
  "\<exists>sb. rr_id (fst (snd demo_remote_created)) = Some (sb_id sb) \<and> map_of (fst (snd (snd demo_remote_created))) (sb_id sb) = Some sb \<and>
    \<not> sb_destroyed sb \<and> timer_ok sb \<and> sb_config sb = (sb_config demo_sb)\<lparr>read_only_root := True,
      policy := (policy (sb_config demo_sb))\<lparr>egress_proxy_image := ''python:3.12-slim''\<rparr>\<rparr>"
proof (rule remote_create_config [where S = demo_server])
  show "init_config demo_sandbox_args = Inr (sb_config demo_sb)" by code_simp
  show "security_wf (policy (sb_config demo_sb))" by (simp add: demo_sb_def)
  show "may_use demo_server ''https://host'' demo_client"
    using demo_connected by (simp add: may_use_def connected_def)
  show "reports_errors demo_server" by (rule demo_reports)
  have "fst demo_remote_created = Inr ()" by code_simp
  then show "remote_create (served demo_remote_env demo_server ''https://host'') (sb_config demo_sb)
      (demo_client, ([], demo_out)) = (Inr (), (fst (snd demo_remote_created), (fst (snd (snd demo_remote_created)), snd (snd (snd demo_remote_created)))))"
    by (simp add: demo_remote_created_def prod_eq_iff)
qed

section \<open>The server\<close>

text \<open>
  C26. Whatever requests a server gets, each sandbox in its table is known by its own identifier, no identifier
  is there twice, its configuration and its security policy are well formed (positive limits and lifetime, a
  working directory inside the workspace, a network flag and allowlist that agree with the mode), and its timer
  is armed exactly while it is active.
\<close>

theorem server_well_typed:
  "case serve_all S requests ([], out) of (table, _) \<Rightarrow> distinct (map fst table) \<and>
     list_all (\<lambda>(sid, sb). sb_id sb = sid \<and> config_wf (sb_config sb) \<and> security_wf (policy (sb_config sb)) \<and> timer_ok sb) table"
proof -
  have "entries entry_ok (serve_all S requests ([], out))"
    by (rule serve_all_entry_ok) (simp add: entries_def)
  then show ?thesis by (auto simp: entries_def entry_ok_def list_all_iff split: prod.split)
qed

text \<open>
  C27. A request without the server's token has no effect: the table, the sandboxes and the world stay as they
  are, and the response is 401, but for the health check and paths that are no route.
\<close>

theorem unauthorized_has_no_effect:
  assumes "se_token S = Some token" and "token \<noteq> []"
    and "map_of (hq_headers q) ''Authorization'' \<noteq> Some (''Bearer '' @ token)"
  shows "\<exists>p. serve_request S path q s = (p, s) \<and>
    (p = failed S (Http 401 ''invalid bearer token'') \<or> p = se_no_route S \<or> p = answer (JObj [(''status'', JStr ''ok'')]))"
  using unauthorized_inert [OF assms] .

lemma unauthorized_has_no_effect_witness:
  "\<exists>p. serve_request demo_server ''/v1/sandboxes/0'' \<lparr>hq_method = ''DELETE'', hq_url = ''/v1/sandboxes/0'',
      hq_headers = [(''Authorization'', ''Bearer guess'')], hq_body = None, hq_timeout = 30\<rparr> ([(''0'', demo_sb)], demo_out)
      = (p, ([(''0'', demo_sb)], demo_out)) \<and>
    (p = failed demo_server (Http 401 ''invalid bearer token'') \<or> p = se_no_route demo_server \<or>
     p = answer (JObj [(''status'', JStr ''ok'')]))"
  by (rule unauthorized_has_no_effect [of _ "''t0ken''"]) (simp_all add: demo_server_def)

text \<open>
  C29. Sandboxes of one server are isolated from each other: a request whose path does not name a sandbox leaves
  it as it is in the table, with its runtime's fields; \<open>create\<close> too, as long as the new identifier is not
  the old one's.
\<close>

theorem sandboxes_isolated:
  assumes "target path \<noteq> Some other" and "am_uuid (se_ambient S) (tick (snd s)) \<noteq> other"
  shows "map_of (fst (snd (serve_request S path q s))) other = map_of (fst s) other"
proof (cases rule: serve_request_cases [of S path q s])
  case create
  then show ?thesis using create_elsewhere [OF assms(2)] by simp
next
  case (sandbox sid h)
  then have "sid \<noteq> other" using assms(1) by auto
  from keepsD [OF elsewhere_handlers [OF this sandbox(2), of "map_of (fst s) other"] _ prod.collapse [symmetric], of s]
  show ?thesis using sandbox(3) by (simp add: elsewhere_def)
qed simp

lemma sandboxes_isolated_witness:
  "map_of (fst (snd (serve_request demo_server ''/v1/sandboxes/1'' \<lparr>hq_method = ''DELETE'', hq_url = ''/v1/sandboxes/1'',
      hq_headers = [(''Authorization'', ''Bearer t0ken'')], hq_body = None, hq_timeout = 30\<rparr>
      ([(''0'', demo_sb), (''1'', demo_sb)], demo_out\<lparr>tick := 2\<rparr>)))) ''0'' =
   map_of (fst ([(''0'', demo_sb), (''1'', demo_sb)], demo_out\<lparr>tick := 2\<rparr>)) ''0''"
proof (rule sandboxes_isolated)
  show "target ''/v1/sandboxes/1'' \<noteq> Some ''0''" by code_simp
  show "am_uuid (se_ambient demo_server) (tick (snd ([(''0'', demo_sb), (''1'', demo_sb)], demo_out\<lparr>tick := 2\<rparr>))) \<noteq> ''0''"
    by (simp add: demo_server_def demo_ambient_def) code_simp
qed

text \<open>\<open>cleanup\<close> empties the table first, so an exception of one sandbox leaves those after it running and unknown.\<close>

lemma cleanup_stops:
  assumes "destroy (se_ambient S) (sb, out) = (Inl e, (sb', out'))"
  shows "cleanup S ((sid, sb) # rest, out) = (Inl e, ([], out'))"
  using assms by (simp add: cleanup_def)

end
