(* ===== verification/Workspace.thy ===== *)
theory Workspace
  imports Paths
begin

text \<open>
  \<open>src/agentnest/filesystem.py\<close>: writing and reading files of a host-mounted workspace.
  The disk is a store of inodes, a directory descriptor is an inode number, and every system
  call is one step: before it the guest may change the disk, and the call may fail. So the
  facts proved for every guest cover the symbolic-link races the code is written against.
  Permission bits are not modelled: \<open>fchmod\<close> is a call that may fail.
\<close>

section \<open>The disk\<close>

datatype inode = Reg bytes | Dir "(str, nat) dict" | Sym str | Fifo

record disk =
  inodes :: "nat \<Rightarrow> inode option"
  fresh :: nat

record os_state =
  disk_of :: disk
  ticks :: nat
  fds :: nat

text \<open>What the host does not control: the guest's changes before, and the failure of, the
  \<open>n\<close>-th system call.\<close>

record os_env =
  guest :: "nat \<Rightarrow> disk \<Rightarrow> disk"
  fault :: "nat \<Rightarrow> exn option"

type_synonym 'a syscall = "(exn, os_state, 'a) comp"

definition is_dir :: "disk \<Rightarrow> nat \<Rightarrow> bool" where
  "is_dir d i = (case inodes d i of Some (Dir _) \<Rightarrow> True | _ \<Rightarrow> False)"

definition entry :: "disk \<Rightarrow> nat \<Rightarrow> str \<Rightarrow> nat option" where
  "entry d i name = (case inodes d i of Some (Dir m) \<Rightarrow> map_of m name | _ \<Rightarrow> None)"

definition update_entry :: "str \<Rightarrow> nat option \<Rightarrow> (str, nat) dict \<Rightarrow> (str, nat) dict" where
  "update_entry name j m = (case j of None \<Rightarrow> dict_pop name m | Some k \<Rightarrow> dict_set name k m)"

lemma update_entry_lookup [simp]: "map_of (update_entry name j m) = (map_of m)(name := j)"
  by (cases j) (auto simp: update_entry_def fun_eq_iff)

definition set_entry :: "nat \<Rightarrow> str \<Rightarrow> nat option \<Rightarrow> disk \<Rightarrow> disk" where
  "set_entry i name j d =
     (case inodes d i of Some (Dir m) \<Rightarrow> d\<lparr>inodes := (inodes d)(i \<mapsto> Dir (update_entry name j m))\<rparr> | _ \<Rightarrow> d)"

definition alloc :: "inode \<Rightarrow> disk \<Rightarrow> disk" where
  "alloc x d = d\<lparr>inodes := (inodes d)(fresh d \<mapsto> x), fresh := Suc (fresh d)\<rparr>"

section \<open>System calls\<close>

abbreviation os_error :: "str \<Rightarrow> exn" where
  "os_error m \<equiv> Exn OSError m"

abbreviation no_entry :: exn where
  "no_entry \<equiv> Exn FileNotFoundError ''No such file or directory''"

definition syscall :: "os_env \<Rightarrow> (disk \<Rightarrow> exn + 'a \<times> disk) \<Rightarrow> 'a syscall" where
  "syscall E f = (\<lambda>s.
     let d = guest E (ticks s) (disk_of s); s' = s\<lparr>disk_of := d, ticks := Suc (ticks s)\<rparr> in
     case fault E (ticks s) of
       Some e \<Rightarrow> (Inl e, s')
     | None \<Rightarrow> (case f d of Inl e \<Rightarrow> (Inl e, s') | Inr (x, d') \<Rightarrow> (Inr x, s'\<lparr>disk_of := d'\<rparr>)))"

text \<open>CPython refuses a file name with a NUL byte before it makes the call.\<close>

definition named :: "str \<Rightarrow> 'a syscall \<Rightarrow> 'a syscall" where
  "named name m = (if CHR 0x00 \<in> set name then raise (value_error ''embedded null byte'') else m)"

definition opened :: "'a syscall \<Rightarrow> 'a syscall" where
  "opened m = bnd m (\<lambda>x. bnd (modify (\<lambda>s. s\<lparr>fds := Suc (fds s)\<rparr>)) (\<lambda>_. ret x))"

definition os_close :: "unit syscall" where
  "os_close = modify (\<lambda>s. s\<lparr>fds := fds s - 1\<rparr>)"

text \<open>\<open>os.open(root, O_RDONLY | O_DIRECTORY | O_NOFOLLOW)\<close>.\<close>

definition open_root :: "os_env \<Rightarrow> nat \<Rightarrow> nat syscall" where
  "open_root E r = opened (syscall E (\<lambda>d. if is_dir d r then Inr (r, d) else Inl no_entry))"

text \<open>The same with \<open>dir_fd\<close>: a link or a file in the place of the directory is refused.\<close>

definition open_dir :: "os_env \<Rightarrow> nat \<Rightarrow> str \<Rightarrow> nat syscall" where
  "open_dir E dir name = named name (opened (syscall E (\<lambda>d.
     case entry d dir name of
       None \<Rightarrow> Inl no_entry
     | Some j \<Rightarrow> (case inodes d j of
           None \<Rightarrow> Inl no_entry
         | Some (Dir _) \<Rightarrow> Inr (j, d)
         | Some (Sym _) \<Rightarrow> Inl (os_error ''Too many levels of symbolic links'')
         | Some _ \<Rightarrow> Inl (os_error ''Not a directory'')))))"

definition sys_mkdir :: "os_env \<Rightarrow> nat \<Rightarrow> str \<Rightarrow> unit syscall" where
  "sys_mkdir E dir name = named name (syscall E (\<lambda>d.
     if \<not> is_dir d dir then Inl no_entry
     else if entry d dir name \<noteq> None then Inl (Exn FileExistsError ''File exists'')
     else Inr ((), set_entry dir name (Some (fresh d)) (alloc (Dir []) d))))"

definition sys_fchmod :: "os_env \<Rightarrow> nat \<Rightarrow> unit syscall" where
  "sys_fchmod E fd = syscall E (\<lambda>d. Inr ((), d))"

text \<open>\<open>os.open(name, O_WRONLY | O_CREAT | O_EXCL | O_NOFOLLOW)\<close>.\<close>

definition create_excl :: "os_env \<Rightarrow> nat \<Rightarrow> str \<Rightarrow> nat syscall" where
  "create_excl E dir name = named name (opened (syscall E (\<lambda>d.
     if \<not> is_dir d dir then Inl no_entry
     else if entry d dir name \<noteq> None then Inl (Exn FileExistsError ''File exists'')
     else Inr (fresh d, set_entry dir name (Some (fresh d)) (alloc (Reg []) d)))))"

text \<open>Writing from offset 0 through an open descriptor, whatever the file is called by then.\<close>

definition sys_write :: "os_env \<Rightarrow> nat \<Rightarrow> bytes \<Rightarrow> unit syscall" where
  "sys_write E fd content = syscall E (\<lambda>d.
     case inodes d fd of
       Some (Reg old) \<Rightarrow>
         Inr ((), d\<lparr>inodes := (inodes d)(fd \<mapsto> Reg (content @ drop (length content) old))\<rparr>)
     | _ \<Rightarrow> Inl (os_error ''Bad file descriptor''))"

text \<open>\<open>os.replace\<close> within one directory.\<close>

definition rename_disk :: "nat \<Rightarrow> str \<Rightarrow> str \<Rightarrow> disk \<Rightarrow> exn + unit \<times> disk" where
  "rename_disk dir src dst d =
     (case entry d dir src of
       None \<Rightarrow> Inl no_entry
     | Some i \<Rightarrow> (case entry d dir dst of
           None \<Rightarrow> Inr ((), set_entry dir src None (set_entry dir dst (Some i) d))
         | Some j \<Rightarrow>
             if i = j then Inr ((), d)
             else if is_dir d j \<and> \<not> is_dir d i then Inl (os_error ''Is a directory'')
             else if is_dir d i \<and> \<not> is_dir d j then Inl (os_error ''Not a directory'')
             else if is_dir d j \<and> inodes d j \<noteq> Some (Dir [])
             then Inl (os_error ''Directory not empty'')
             else Inr ((), set_entry dir src None (set_entry dir dst (Some i) d))))"

definition sys_replace :: "os_env \<Rightarrow> nat \<Rightarrow> str \<Rightarrow> str \<Rightarrow> unit syscall" where
  "sys_replace E dir src dst = named src (named dst (syscall E (rename_disk dir src dst)))"

definition sys_unlink :: "os_env \<Rightarrow> nat \<Rightarrow> str \<Rightarrow> unit syscall" where
  "sys_unlink E dir name = named name (syscall E (\<lambda>d.
     case entry d dir name of
       None \<Rightarrow> Inl no_entry
     | Some j \<Rightarrow> if is_dir d j then Inl (os_error ''Is a directory'')
         else Inr ((), set_entry dir name None d)))"

text \<open>\<open>os.open(name, O_RDONLY | O_NOFOLLOW | O_NONBLOCK)\<close>.\<close>

definition open_read :: "os_env \<Rightarrow> nat \<Rightarrow> str \<Rightarrow> nat syscall" where
  "open_read E dir name = named name (opened (syscall E (\<lambda>d.
     case entry d dir name of
       None \<Rightarrow> Inl no_entry
     | Some j \<Rightarrow> (case inodes d j of
           None \<Rightarrow> Inl no_entry
         | Some (Sym _) \<Rightarrow> Inl (os_error ''Too many levels of symbolic links'')
         | Some _ \<Rightarrow> Inr (j, d)))))"

text \<open>\<open>os.fdopen(fd, "rb")\<close> raises on a directory, and then leaves the descriptor open.\<close>

definition fdopen_read :: "os_env \<Rightarrow> nat \<Rightarrow> unit syscall" where
  "fdopen_read E fd = syscall E (\<lambda>d.
     if is_dir d fd then Inl (os_error ''Is a directory'') else Inr ((), d))"

definition sys_fstat :: "os_env \<Rightarrow> nat \<Rightarrow> (bool \<times> int) syscall" where
  "sys_fstat E fd = syscall E (\<lambda>d.
     case inodes d fd of
       Some (Reg c) \<Rightarrow> Inr ((True, int (length c)), d)
     | Some _ \<Rightarrow> Inr ((False, 0), d)
     | None \<Rightarrow> Inl (os_error ''Bad file descriptor''))"

definition sys_read :: "os_env \<Rightarrow> nat \<Rightarrow> nat \<Rightarrow> bytes syscall" where
  "sys_read E fd n = syscall E (\<lambda>d.
     case inodes d fd of
       Some (Reg c) \<Rightarrow> Inr (take n c, d)
     | _ \<Rightarrow> Inl (os_error ''Bad file descriptor''))"

section \<open>Opening the parent directory\<close>

definition on_error :: "unit syscall \<Rightarrow> 'a syscall \<Rightarrow> 'a syscall" where
  "on_error c m = try_except m (\<lambda>e. next_do c (raise e))"

text \<open>The loop of \<open>_open_parent\<close> over \<open>parts[:-1]\<close>. The descriptor held is closed on every
  error, and closed when its child takes its place.\<close>

primrec walk :: "os_env \<Rightarrow> bool \<Rightarrow> nat \<Rightarrow> str list \<Rightarrow> nat syscall" where
  "walk E create fd [] = ret fd"
| "walk E create fd (c # cs) =
     bnd (on_error os_close
            (next_do (when_do create (suppressing (\<lambda>e. exn_isa e FileExistsError) (sys_mkdir E fd c)))
               (open_dir E fd c)))
       (\<lambda>child. next_do os_close
          (next_do (on_error os_close (when_do create (sys_fchmod E child)))
             (walk E create child cs)))"

definition open_parent :: "os_env \<Rightarrow> nat \<Rightarrow> str list \<Rightarrow> bool \<Rightarrow> (nat \<times> str) syscall" where
  "open_parent E wroot parts create =
     bnd (open_root E wroot) (\<lambda>fd.
     bnd (walk E create fd (butlast parts)) (\<lambda>p. ret (p, last parts)))"

section \<open>Writing and reading\<close>

definition file_error :: "str \<Rightarrow> str \<Rightarrow> exn \<Rightarrow> exn" where
  "file_error verb path e =
     Exn FileAccessError (''could not '' @ verb @ '' '' @ py_repr path @ '': '' @ exn_msg e)"

definition as_file_error :: "str \<Rightarrow> str \<Rightarrow> exn \<Rightarrow> exn" where
  "as_file_error verb path e = (if exn_isa e OSError then file_error verb path e else e)"

text \<open>\<open>atomic_write\<close>; \<open>token\<close> is the value of \<open>secrets.token_hex(12)\<close>.\<close>

definition write_body :: "os_env \<Rightarrow> nat \<Rightarrow> str \<Rightarrow> str \<Rightarrow> bytes \<Rightarrow> unit syscall" where
  "write_body E p temporary filename content =
     bnd (create_excl E p temporary) (\<lambda>fd.
     next_do (try_finally (sys_write E fd content) os_close)
       (sys_replace E p temporary filename))"

definition atomic_write :: "os_env \<Rightarrow> nat \<Rightarrow> str \<Rightarrow> str \<Rightarrow> bytes \<Rightarrow> unit syscall" where
  "atomic_write E wroot token path content =
     bnd (of_sum (relative_parts path)) (\<lambda>parts.
     let temporary = ''.agentnest-'' @ token in
     bnd (try_except (open_parent E wroot parts True) (\<lambda>e. raise (as_file_error ''write'' path e)))
       (\<lambda>(p, filename). try_finally
          (try_except (write_body E p temporary filename content)
             (\<lambda>e. if exn_isa e OSError
                  then next_do (suppressing (\<lambda>e. exn_isa e FileNotFoundError) (sys_unlink E p temporary))
                         (raise (file_error ''write'' path e))
                  else raise e))
          os_close))"

definition too_big :: "int \<Rightarrow> exn" where
  "too_big n = Exn FileAccessError (''workspace file exceeds the '' @ int_text n @ ''-byte read limit'')"

definition read_body :: "os_env \<Rightarrow> nat \<Rightarrow> str \<Rightarrow> str \<Rightarrow> int \<Rightarrow> bytes syscall" where
  "read_body E p filename path max_bytes =
     bnd (open_read E p filename) (\<lambda>fd.
     next_do (fdopen_read E fd)
       (try_finally
         (bnd (sys_fstat E fd) (\<lambda>(regular, size).
          next_do (guard_or regular (Exn FileAccessError
              (''workspace path is not a regular file: '' @ py_repr path)))
          (next_do (guard_or (size \<le> max_bytes) (too_big max_bytes))
          (bnd (sys_read E fd (nat (max_bytes + 1))) (\<lambda>payload.
          next_do (guard_or (int (length payload) \<le> max_bytes) (too_big max_bytes))
            (ret payload))))))
         os_close))"

definition bounded_read :: "os_env \<Rightarrow> nat \<Rightarrow> str \<Rightarrow> int \<Rightarrow> bytes syscall" where
  "bounded_read E wroot path max_bytes =
     bnd (of_sum (relative_parts path)) (\<lambda>parts.
     bnd (try_except (open_parent E wroot parts False) (\<lambda>e. raise (as_file_error ''read'' path e)))
       (\<lambda>(p, filename). try_finally
          (try_except (read_body E p filename path max_bytes)
             (\<lambda>e. raise (as_file_error ''read'' path e)))
          os_close))"

definition default_max_read :: int where
  "default_max_read = 64 * 1024 * 1024"

text \<open>A host on which no guest runs and no call fails, for evaluation.\<close>

definition quiet :: os_env where
  "quiet = \<lparr>guest = (\<lambda>_ d. d), fault = (\<lambda>_. None)\<rparr>"

end
