(* ===== verification/Workspace_Rules.thy ===== *)
theory Workspace_Rules
  imports Workspace
begin

text \<open>
  Rules for the computations of \<open>Workspace\<close>: \<open>on_disk\<close> triples over the disk, which a guest
  may change between system calls within what the precondition allows, and \<open>fd_step\<close> triples
  that count open descriptors.
\<close>

section \<open>Triples over the disk\<close>

definition on_disk ::
  "(disk \<Rightarrow> bool) \<Rightarrow> 'a syscall \<Rightarrow> ('a \<Rightarrow> disk \<Rightarrow> bool) \<Rightarrow> (disk \<Rightarrow> bool) \<Rightarrow> bool" where
  "on_disk P m Q R \<longleftrightarrow>
     triple (\<lambda>s. P (disk_of s)) m (\<lambda>x s. Q x (disk_of s)) (\<lambda>_ s. R (disk_of s))"

definition guest_keeps :: "os_env \<Rightarrow> (disk \<Rightarrow> bool) \<Rightarrow> bool" where
  "guest_keeps E P \<longleftrightarrow> (\<forall>n d. P d \<longrightarrow> P (guest E n d))"

definition undisturbed :: "os_env \<Rightarrow> bool" where
  "undisturbed E \<longleftrightarrow> (\<forall>n d. guest E n d = d)"

lemma undisturbed_keeps [simp]: "undisturbed E \<Longrightarrow> guest_keeps E P"
  by (simp add: undisturbed_def guest_keeps_def)

lemma quiet_undisturbed [simp]: "undisturbed quiet"
  by (simp add: undisturbed_def quiet_def)

lemma on_diskI:
  assumes "\<And>s r t. P (disk_of s) \<Longrightarrow> m s = (r, t) \<Longrightarrow>
    (case r of Inr x \<Rightarrow> Q x (disk_of t) | Inl _ \<Rightarrow> R (disk_of t))"
  shows "on_disk P m Q R"
  unfolding on_disk_def triple_def
proof (intro allI impI)
  fix s :: os_state assume "P (disk_of s)"
  from assms [OF this, of "fst (m s)" "snd (m s)"]
  show "case m s of (Inl e, t) \<Rightarrow> R (disk_of t) | (Inr x, t) \<Rightarrow> Q x (disk_of t)"
    by (auto split: prod.split sum.split)
qed

lemma on_diskD:
  assumes "on_disk P m Q R" "P (disk_of s)" "m s = (r, t)"
  shows "case r of Inr x \<Rightarrow> Q x (disk_of t) | Inl _ \<Rightarrow> R (disk_of t)"
  using tripleD [OF assms(1) [unfolded on_disk_def] assms(2,3)] .

lemma on_disk_conseq:
  assumes "on_disk P' m Q' R'"
    and "\<And>d. P d \<Longrightarrow> P' d" "\<And>x d. Q' x d \<Longrightarrow> Q x d" "\<And>d. R' d \<Longrightarrow> R d"
  shows "on_disk P m Q R"
  using assms(1) unfolding on_disk_def by (rule triple_conseq) (use assms(2-4) in auto)

lemma on_disk_pure: "(\<And>d. P d \<Longrightarrow> b) \<Longrightarrow> (b \<Longrightarrow> on_disk P m Q R) \<Longrightarrow> on_disk P m Q R"
  by (cases b) (auto simp: on_disk_def triple_def)

lemma on_disk_ret: "(\<And>d. P d \<Longrightarrow> Q x d) \<Longrightarrow> on_disk P (ret x) Q R"
  by (simp add: on_disk_def triple_ret)

lemma on_disk_raise: "(\<And>d. P d \<Longrightarrow> R d) \<Longrightarrow> on_disk P (raise e) Q R"
  by (simp add: on_disk_def triple_raise)

lemma on_disk_bnd:
  assumes "on_disk P m Q R" and "\<And>x. on_disk (Q x) (f x) S R"
  shows "on_disk P (bnd m f) S R"
  using assms unfolding on_disk_def by (rule triple_bnd)

lemma on_disk_next: "on_disk P m (\<lambda>_. Q) R \<Longrightarrow> on_disk Q n S R \<Longrightarrow> on_disk P (next_do m n) S R"
  unfolding next_do_def by (rule on_disk_bnd)

lemma on_disk_of_sum:
  "(\<And>d x. P d \<Longrightarrow> r = Inr x \<Longrightarrow> Q x d) \<Longrightarrow> (\<And>d e. P d \<Longrightarrow> r = Inl e \<Longrightarrow> R d) \<Longrightarrow>
   on_disk P (of_sum r) Q R"
  by (auto simp: on_disk_def triple_def of_sum_def split: sum.splits)

lemma on_disk_syscall:
  assumes G: "guest_keeps E P"
    and f: "\<And>d x d'. P d \<Longrightarrow> f d = Inr (x, d') \<Longrightarrow> Q x d'" and R: "\<And>d. P d \<Longrightarrow> R d"
  shows "on_disk P (syscall E f) Q R"
proof (rule on_diskI)
  fix s t :: os_state and r assume s: "P (disk_of s)" and run: "syscall E f s = (r, t)"
  from s G have d: "P (guest E (ticks s) (disk_of s))" by (simp add: guest_keeps_def)
  show "case r of Inr x \<Rightarrow> Q x (disk_of t) | Inl _ \<Rightarrow> R (disk_of t)"
    using f [OF d] R [OF d] run
    by (auto simp: syscall_def Let_def split: option.splits sum.splits)
qed

lemma on_disk_named:
  "(CHR 0x00 \<notin> set name \<Longrightarrow> on_disk P m Q R) \<Longrightarrow> (\<And>d. P d \<Longrightarrow> R d) \<Longrightarrow> on_disk P (named name m) Q R"
  by (simp add: named_def on_disk_raise)

lemma on_disk_fds: "on_disk P (modify (\<lambda>s. s\<lparr>fds := f s\<rparr>)) (\<lambda>_. P) R"
  by (simp add: on_disk_def triple_modify)

lemma on_disk_opened: "on_disk P m Q R \<Longrightarrow> on_disk P (opened m) Q R"
  unfolding opened_def by (erule on_disk_bnd) (rule on_disk_bnd [OF on_disk_fds], rule on_disk_ret)

lemma on_disk_close: "on_disk P os_close (\<lambda>_. P) R"
  unfolding os_close_def by (rule on_disk_fds)

lemma on_disk_guard: "on_disk P (guard_or b e) (\<lambda>_ d. P d \<and> b) P"
  by (simp add: guard_or_def on_disk_ret on_disk_raise)

lemma on_disk_guard_then:
  "(b \<Longrightarrow> on_disk P n S R) \<Longrightarrow> (\<And>d. P d \<Longrightarrow> R d) \<Longrightarrow> on_disk P (next_do (guard_or b e) n) S R"
  by (cases b) (auto simp: guard_or_def next_do_def on_disk_raise)

lemma on_disk_when: "on_disk P m (\<lambda>_. P) R \<Longrightarrow> on_disk P (when_do b m) (\<lambda>_. P) R"
  by (simp add: when_do_def on_disk_ret)

lemma on_disk_try:
  "on_disk P m Q S \<Longrightarrow> (\<And>e. on_disk S (h e) Q R) \<Longrightarrow> on_disk P (try_except m h) Q R"
  unfolding on_disk_def by (rule triple_try_except)

lemma on_disk_on_error: "on_disk P m Q R \<Longrightarrow> on_disk P (on_error os_close m) Q R"
  unfolding on_error_def
  by (erule on_disk_try) (rule on_disk_next [OF on_disk_close], rule on_disk_raise)

lemma on_disk_suppressing: "on_disk P m (\<lambda>_. Q) Q \<Longrightarrow> on_disk P (suppressing p m) (\<lambda>_. Q) Q"
  unfolding suppressing_def by (erule on_disk_try) (auto intro: on_disk_ret on_disk_raise)

lemma on_disk_finally_close:
  assumes "on_disk P m Q R"
  shows "on_disk P (try_finally m os_close) Q R"
proof (rule on_diskI)
  fix s t :: os_state and r assume s: "P (disk_of s)" and run: "try_finally m os_close s = (r, t)"
  obtain r' s' where ms: "m s = (r', s')" by (cases "m s")
  with run on_diskD [OF assms s ms] show "case r of Inr x \<Rightarrow> Q x (disk_of t) | Inl _ \<Rightarrow> R (disk_of t)"
    by (auto simp: try_finally_def os_close_def modify_def split: sum.splits)
qed

lemmas on_disk_rules = on_disk_named on_disk_opened on_disk_on_error on_disk_suppressing
  on_disk_when on_disk_finally_close

section \<open>Counting descriptors\<close>

text \<open>Started with \<open>a\<close> descriptors above some number, \<open>m\<close> returns with \<open>b\<close> and raises with \<open>e\<close>.\<close>

definition fd_step :: "nat \<Rightarrow> 'a syscall \<Rightarrow> nat \<Rightarrow> nat \<Rightarrow> bool" where
  "fd_step a m b e \<longleftrightarrow>
     (\<forall>n. triple (\<lambda>s. fds s = n + a) m (\<lambda>_ s. fds s = n + b) (\<lambda>_ s. fds s = n + e))"

lemma fd_ret: "fd_step a (ret x) a e"
  by (simp add: fd_step_def triple_ret)

lemma fd_raise: "fd_step a (raise x) b a"
  by (simp add: fd_step_def triple_raise)

lemma fd_of_sum: "fd_step a (of_sum r) a a"
  by (auto simp: fd_step_def triple_def of_sum_def split: sum.splits)

lemma fd_bnd: "fd_step a m b e \<Longrightarrow> (\<And>x. fd_step b (f x) c e) \<Longrightarrow> fd_step a (bnd m f) c e"
  unfolding fd_step_def by (blast intro: triple_bnd)

lemma fd_next: "fd_step a m b e \<Longrightarrow> fd_step b n c e \<Longrightarrow> fd_step a (next_do m n) c e"
  unfolding next_do_def by (rule fd_bnd)

lemma fd_syscall: "fd_step a (syscall E f) a a"
  by (auto simp: fd_step_def triple_def syscall_def Let_def split: option.splits sum.splits)

lemma fd_named: "fd_step a m b a \<Longrightarrow> fd_step a (named name m) b a"
  by (simp add: named_def fd_raise)

lemma fd_opened: "fd_step a m a a \<Longrightarrow> fd_step a (opened m) (Suc a) a"
  unfolding opened_def by (erule fd_bnd) (auto simp: fd_step_def triple_def comp_defs)

lemma fd_close: "fd_step (Suc a) os_close a e"
  by (auto simp: fd_step_def triple_def os_close_def modify_def)

lemma fd_try: "fd_step a m b c \<Longrightarrow> (\<And>x. fd_step c (h x) b e) \<Longrightarrow> fd_step a (try_except m h) b e"
  unfolding fd_step_def by (blast intro: triple_try_except)

lemma fd_on_error: "fd_step a m b (Suc e) \<Longrightarrow> fd_step a (on_error os_close m) b e"
  unfolding on_error_def by (erule fd_try) (rule fd_next [OF fd_close fd_raise])

lemma fd_when: "fd_step a m a e \<Longrightarrow> fd_step a (when_do b m) a e"
  by (simp add: when_do_def fd_ret)

lemma fd_suppressing: "fd_step a m a a \<Longrightarrow> fd_step a (suppressing p m) a a"
  unfolding suppressing_def by (erule fd_try) (auto intro: fd_ret fd_raise)

lemma fd_finally_close:
  assumes "fd_step a m (Suc b) (Suc b)"
  shows "fd_step a (try_finally m os_close) b b"
  unfolding fd_step_def triple_def
proof (intro allI impI)
  fix n and s :: os_state assume s: "fds s = n + a"
  from assms have t: "triple (\<lambda>s. fds s = n + a) m (\<lambda>_ s. fds s = n + Suc b) (\<lambda>_ s. fds s = n + Suc b)"
    by (simp add: fd_step_def)
  from tripleD [OF t s, of "fst (m s)" "snd (m s)"]
  show "case try_finally m os_close s of (Inl e, t) \<Rightarrow> fds t = n + b | (Inr x, t) \<Rightarrow> fds t = n + b"
    by (auto simp: try_finally_def os_close_def modify_def split: prod.splits sum.splits)
qed

lemma fd_guard: "fd_step a (guard_or b e) a a"
  by (simp add: guard_or_def fd_ret fd_raise)

lemmas fd_rules = fd_named fd_opened fd_on_error fd_when fd_suppressing fd_finally_close

lemma fd_calls:
  "fd_step a (open_root E r) (Suc a) a" "fd_step a (open_dir E p c) (Suc a) a"
  "fd_step a (sys_mkdir E p c) a a" "fd_step a (sys_fchmod E p) a a"
  "fd_step a (create_excl E p c) (Suc a) a" "fd_step a (sys_write E p b) a a"
  "fd_step a (sys_replace E p c c') a a" "fd_step a (sys_unlink E p c) a a"
  "fd_step a (open_read E p c) (Suc a) a" "fd_step a (fdopen_read E p) a a"
  "fd_step a (sys_fstat E p) a a" "fd_step a (sys_read E p k) a a"
  unfolding open_root_def open_dir_def sys_mkdir_def sys_fchmod_def create_excl_def sys_write_def
    sys_replace_def sys_unlink_def open_read_def fdopen_read_def sys_fstat_def sys_read_def
  by (intro fd_rules fd_syscall)+

lemma fd_walk: "fd_step (Suc a) (walk E create p cs) (Suc a) a"
proof (induction cs arbitrary: p)
  case Nil
  show ?case by (simp add: fd_ret)
next
  case (Cons c cs)
  show ?case
    unfolding walk.simps
  proof (rule fd_bnd)
    show "fd_step (Suc a) (on_error os_close (next_do (when_do create
        (suppressing (\<lambda>e. exn_isa e FileExistsError) (sys_mkdir E p c))) (open_dir E p c)))
        (Suc (Suc a)) a"
      by (intro fd_on_error fd_next [OF fd_when [OF fd_suppressing]] fd_calls)
    show "fd_step (Suc (Suc a)) (next_do os_close (next_do (on_error os_close
        (when_do create (sys_fchmod E x))) (walk E create x cs))) (Suc a) a" for x
      by (rule fd_next [OF fd_close fd_next [OF fd_on_error [OF fd_when [OF fd_calls(4)]] Cons.IH]])
  qed
qed

lemma fd_open_parent: "fd_step a (open_parent E r parts create) (Suc a) a"
  unfolding open_parent_def
  by (rule fd_bnd [OF fd_calls(1)]) (rule fd_bnd [OF fd_walk fd_ret])

lemma fd_write_body: "fd_step a (write_body E p t f c) a a"
  unfolding write_body_def
  by (rule fd_bnd [OF fd_calls(5)]) (rule fd_next [OF fd_finally_close [OF fd_calls(6)] fd_calls(7)])

lemma fd_atomic_write: "fd_step a (atomic_write E r token path content) a a"
  unfolding atomic_write_def Let_def
  apply (rule fd_bnd [OF fd_of_sum])
  apply (rule fd_bnd [OF fd_try [OF fd_open_parent fd_raise]])
  subgoal for parts x
    by (cases x) (auto intro!: fd_finally_close fd_try [OF fd_write_body] fd_raise
        fd_next [OF fd_suppressing] fd_calls)
  done

end
