(* ===== verification/Workspace_Safety.thy ===== *)
theory Workspace_Safety
  imports Workspace_Rules
begin

text \<open>
  Confinement: let \<open>X\<close> be the inodes outside the workspace. Whatever a guest that is itself
  confined does between the system calls, links swapped in included, and whichever calls
  fail, writing and reading leave \<open>X\<close> as it was, and a read returns the bytes of a file
  that is not in \<open>X\<close>.
\<close>

section \<open>Confinement\<close>

definition confined :: "nat set \<Rightarrow> disk \<Rightarrow> bool" where
  "confined X d \<longleftrightarrow> (\<forall>i \<in> X. i < fresh d) \<and> (\<forall>i name j. i \<notin> X \<longrightarrow> entry d i name = Some j \<longrightarrow> j \<notin> X)"

definition untouched :: "nat set \<Rightarrow> disk \<Rightarrow> disk \<Rightarrow> bool" where
  "untouched X d d' \<longleftrightarrow> (\<forall>i \<in> X. inodes d' i = inodes d i)"

definition guest_confined :: "nat set \<Rightarrow> os_env \<Rightarrow> bool" where
  "guest_confined X E \<longleftrightarrow>
     (\<forall>n d. confined X d \<longrightarrow> confined X (guest E n d) \<and> untouched X d (guest E n d))"

definition held :: "nat set \<Rightarrow> disk \<Rightarrow> disk \<Rightarrow> bool" where
  "held X d0 d \<longleftrightarrow> confined X d \<and> untouched X d0 d"

lemma untouched_refl [simp]: "untouched X d d"
  by (simp add: untouched_def)

lemma untouched_trans: "untouched X a b \<Longrightarrow> untouched X b c \<Longrightarrow> untouched X a c"
  by (simp add: untouched_def)

lemma entry_set_entry:
  "entry (set_entry i n j d) i' n' = (if i' = i \<and> n' = n \<and> is_dir d i then j else entry d i' n')"
  by (auto simp: entry_def set_entry_def is_dir_def split: option.splits inode.splits)

lemma inodes_set_entry_other: "i' \<noteq> i \<Longrightarrow> inodes (set_entry i n j d) i' = inodes d i'"
  by (auto simp: set_entry_def split: option.splits inode.splits)

lemma fresh_set_entry [simp]: "fresh (set_entry i n j d) = fresh d"
  by (auto simp: set_entry_def split: option.splits inode.splits)

lemma confined_set_entry:
  assumes "confined X d" "i \<notin> X" "\<And>k. j = Some k \<Longrightarrow> k \<notin> X"
  shows "confined X (set_entry i n j d)"
  using assms by (auto simp: confined_def entry_set_entry split: if_splits)

lemma untouched_set_entry: "i \<notin> X \<Longrightarrow> untouched X d (set_entry i n j d)"
  unfolding untouched_def by (metis inodes_set_entry_other)

lemma confined_alloc:
  assumes "confined X d" "x = Dir [] \<or> x = Reg c"
  shows "confined X (alloc x d)"
  using assms by (auto simp: confined_def entry_def alloc_def less_Suc_eq split: if_splits)

lemma untouched_alloc: "confined X d \<Longrightarrow> untouched X d (alloc x d)"
  by (auto simp: untouched_def alloc_def confined_def)

lemma fresh_outside: "confined X d \<Longrightarrow> fresh d \<notin> X"
  by (auto simp: confined_def)

lemma confined_new_entry:
  assumes "confined X d" "i \<notin> X" "x = Dir [] \<or> x = Reg c"
  shows "confined X (set_entry i n (Some (fresh d)) (alloc x d))"
    and "untouched X d (set_entry i n (Some (fresh d)) (alloc x d))"
  using assms
  by (auto intro!: confined_set_entry confined_alloc
      intro: untouched_trans [OF untouched_alloc untouched_set_entry] dest: fresh_outside)

lemma confined_write:
  assumes "confined X d" "i \<notin> X"
  shows "confined X (d\<lparr>inodes := (inodes d)(i \<mapsto> Reg c)\<rparr>)"
    and "untouched X d (d\<lparr>inodes := (inodes d)(i \<mapsto> Reg c)\<rparr>)"
  using assms by (auto simp: confined_def untouched_def entry_def split: if_splits)

section \<open>One system call\<close>

text \<open>\<open>kept X d0 m Q\<close>: \<open>m\<close> keeps confinement on every outcome, and its result satisfies \<open>Q\<close>.\<close>

definition kept :: "nat set \<Rightarrow> disk \<Rightarrow> 'a syscall \<Rightarrow> ('a \<Rightarrow> disk \<Rightarrow> bool) \<Rightarrow> bool" where
  "kept X d0 m Q \<longleftrightarrow> on_disk (held X d0) m (\<lambda>x d. held X d0 d \<and> Q x d) (held X d0)"

lemma keptD:
  assumes "kept X d0 m Q" "held X d0 (disk_of s)" "m s = (r, t)"
  shows "held X d0 (disk_of t)" "\<And>x. r = Inr x \<Longrightarrow> Q x (disk_of t)"
  using on_diskD [OF assms(1) [unfolded kept_def] assms(2,3)] by (auto split: sum.splits)

lemma guest_keeps_held: "guest_confined X E \<Longrightarrow> guest_keeps E (held X d0)"
  using untouched_trans by (auto simp: guest_keeps_def guest_confined_def held_def)

lemma kept_syscall:
  assumes "guest_confined X E"
    and f: "\<And>d x d'. confined X d \<Longrightarrow> f d = Inr (x, d') \<Longrightarrow> confined X d' \<and> untouched X d d' \<and> Q x d'"
  shows "kept X d0 (syscall E f) Q"
  unfolding kept_def
proof (rule on_disk_syscall [OF guest_keeps_held [OF assms(1)]])
  fix d x d' assume "held X d0 d" "f d = Inr (x, d')"
  with f [of d x d'] untouched_trans [of X d0 d d'] show "held X d0 d' \<and> Q x d'"
    by (auto simp: held_def)
qed

lemma kept_bnd:
  assumes "kept X d0 m Q" and QP: "\<And>x d. Q x d \<Longrightarrow> P x"
    and f: "\<And>x. P x \<Longrightarrow> kept X d0 (f x) R"
  shows "kept X d0 (bnd m f) R"
  unfolding kept_def
proof (rule on_disk_bnd [OF assms(1) [unfolded kept_def]])
  fix x
  show "on_disk (\<lambda>d. held X d0 d \<and> Q x d) (f x) (\<lambda>x d. held X d0 d \<and> R x d) (held X d0)"
  proof (rule on_disk_pure [where b = "P x"])
    assume "P x"
    from f [OF this] show "on_disk (\<lambda>d. held X d0 d \<and> Q x d) (f x) (\<lambda>x d. held X d0 d \<and> R x d) (held X d0)"
      unfolding kept_def by (rule on_disk_conseq) auto
  qed (use QP in auto)
qed

lemma kept_next: "kept X d0 m (\<lambda>_ _. True) \<Longrightarrow> kept X d0 n R \<Longrightarrow> kept X d0 (next_do m n) R"
  unfolding next_do_def by (rule kept_bnd [where P = "\<lambda>_. True"]) auto

lemma kept_ret: "(\<And>d. Q x d) \<Longrightarrow> kept X d0 (ret x) Q"
  unfolding kept_def by (rule on_disk_ret) auto

lemma kept_raise: "kept X d0 (raise e) Q"
  unfolding kept_def by (rule on_disk_raise) auto

lemma kept_of_sum: "kept X d0 (of_sum r) (\<lambda>_ _. True)"
  unfolding kept_def by (rule on_disk_of_sum) auto

lemma kept_guard: "kept X d0 (guard_or b e) (\<lambda>_ _. True)"
  by (simp add: guard_or_def kept_ret kept_raise)

lemma kept_when: "kept X d0 m (\<lambda>_ _. True) \<Longrightarrow> kept X d0 (when_do b m) (\<lambda>_ _. True)"
  by (simp add: when_do_def kept_ret)

lemma kept_close: "kept X d0 os_close (\<lambda>_ _. True)"
  unfolding kept_def by (rule on_disk_conseq [OF on_disk_close]) auto

lemma kept_try:
  "kept X d0 m Q \<Longrightarrow> (\<And>e. kept X d0 (h e) Q) \<Longrightarrow> kept X d0 (try_except m h) Q"
  unfolding kept_def by (rule on_disk_try)

lemma kept_suppressing: "kept X d0 m (\<lambda>_ _. True) \<Longrightarrow> kept X d0 (suppressing P m) (\<lambda>_ _. True)"
  unfolding suppressing_def by (rule kept_try) (auto intro: kept_ret kept_raise)

lemma kept_wrap:
  "kept X d0 m Q \<Longrightarrow> kept X d0 (named name m) Q"
  "kept X d0 m Q \<Longrightarrow> kept X d0 (opened m) Q"
  "kept X d0 m Q \<Longrightarrow> kept X d0 (on_error os_close m) Q"
  "kept X d0 m Q \<Longrightarrow> kept X d0 (try_finally m os_close) Q"
  unfolding kept_def
  by (auto intro: on_disk_named on_disk_opened on_disk_on_error on_disk_finally_close)

lemmas kept_rules = kept_wrap kept_suppressing kept_when

section \<open>The operations\<close>

lemma entry_confined: "confined X d \<Longrightarrow> i \<notin> X \<Longrightarrow> entry d i n = Some j \<Longrightarrow> j \<notin> X"
  by (auto simp: confined_def)

lemma kept_open_root: "guest_confined X E \<Longrightarrow> r \<notin> X \<Longrightarrow> kept X d0 (open_root E r) (\<lambda>i _. i \<notin> X)"
  unfolding open_root_def by (intro kept_rules kept_syscall) (auto split: if_splits)

lemma kept_open_dir:
  "guest_confined X E \<Longrightarrow> p \<notin> X \<Longrightarrow> kept X d0 (open_dir E p c) (\<lambda>i _. i \<notin> X)"
  unfolding open_dir_def
  by (intro kept_rules kept_syscall)
    (auto split: option.splits inode.splits dest: entry_confined)

lemma kept_mkdir: "guest_confined X E \<Longrightarrow> p \<notin> X \<Longrightarrow> kept X d0 (sys_mkdir E p c) (\<lambda>_ _. True)"
  unfolding sys_mkdir_def
  by (intro kept_rules kept_syscall) (auto simp: confined_new_entry split: if_splits)

lemma kept_fchmod: "guest_confined X E \<Longrightarrow> kept X d0 (sys_fchmod E p) (\<lambda>_ _. True)"
  unfolding sys_fchmod_def by (intro kept_syscall) auto

lemma kept_create_excl:
  "guest_confined X E \<Longrightarrow> p \<notin> X \<Longrightarrow> kept X d0 (create_excl E p c) (\<lambda>i _. i \<notin> X)"
  unfolding create_excl_def
  by (intro kept_rules kept_syscall)
    (auto simp: confined_new_entry fresh_outside split: if_splits)

lemma kept_write: "guest_confined X E \<Longrightarrow> i \<notin> X \<Longrightarrow> kept X d0 (sys_write E i c) (\<lambda>_ _. True)"
  unfolding sys_write_def
  by (intro kept_syscall) (auto simp: confined_write split: option.splits inode.splits)

lemma confined_rename:
  assumes "confined X d" "p \<notin> X" "i \<notin> X"
  shows "confined X (set_entry p src None (set_entry p dst (Some i) d))"
    and "untouched X d (set_entry p src None (set_entry p dst (Some i) d))"
  using assms by (auto intro!: confined_set_entry
      intro: untouched_trans [OF untouched_set_entry untouched_set_entry])

lemma rename_disk_cases:
  assumes "rename_disk p src dst d = Inr (u, d')"
  obtains "d' = d"
  | i where "entry d p src = Some i" "d' = set_entry p src None (set_entry p dst (Some i) d)"
  using assms by (auto simp: rename_disk_def split: option.splits if_splits)

lemma kept_replace:
  "guest_confined X E \<Longrightarrow> p \<notin> X \<Longrightarrow> kept X d0 (sys_replace E p src dst) (\<lambda>_ _. True)"
  unfolding sys_replace_def
proof (intro kept_rules kept_syscall)
  fix d :: disk and x :: unit and d' assume d: "confined X d" "p \<notin> X" "rename_disk p src dst d = Inr (x, d')"
  from d(3) show "confined X d' \<and> untouched X d d' \<and> True"
    by (cases rule: rename_disk_cases) (use d confined_rename [OF d(1,2) entry_confined [OF d(1,2)]] in auto)
qed

lemma kept_unlink: "guest_confined X E \<Longrightarrow> p \<notin> X \<Longrightarrow> kept X d0 (sys_unlink E p c) (\<lambda>_ _. True)"
  unfolding sys_unlink_def
  by (intro kept_rules kept_syscall)
    (auto split: option.splits if_splits intro!: confined_set_entry untouched_set_entry)

lemma kept_open_read:
  "guest_confined X E \<Longrightarrow> p \<notin> X \<Longrightarrow> kept X d0 (open_read E p c) (\<lambda>i _. i \<notin> X)"
  unfolding open_read_def
  by (intro kept_rules kept_syscall)
    (auto split: option.splits inode.splits dest: entry_confined)

lemma kept_fdopen: "guest_confined X E \<Longrightarrow> kept X d0 (fdopen_read E i) (\<lambda>_ _. True)"
  unfolding fdopen_read_def by (intro kept_syscall) (auto split: if_splits)

lemma kept_fstat: "guest_confined X E \<Longrightarrow> kept X d0 (sys_fstat E i) (\<lambda>_ _. True)"
  unfolding sys_fstat_def by (intro kept_syscall) (auto split: option.splits inode.splits)

lemma kept_read: "guest_confined X E \<Longrightarrow>
    kept X d0 (sys_read E i n) (\<lambda>b d. \<exists>c. inodes d i = Some (Reg c) \<and> b = take n c)"
  unfolding sys_read_def by (intro kept_syscall) (auto split: option.splits inode.splits)

lemma kept_walk:
  assumes E: "guest_confined X E"
  shows "p \<notin> X \<Longrightarrow> kept X d0 (walk E create p cs) (\<lambda>i _. i \<notin> X)"
proof (induction cs arbitrary: p)
  case Nil
  then show ?case by (simp add: kept_ret)
next
  case (Cons c cs)
  have "kept X d0 (on_error os_close (next_do (when_do create
      (suppressing (\<lambda>e. exn_isa e FileExistsError) (sys_mkdir E p c))) (open_dir E p c))) (\<lambda>i _. i \<notin> X)"
    using E Cons.prems by (intro kept_rules kept_next kept_mkdir kept_open_dir)
  then show ?case
    unfolding walk.simps
    by (rule kept_bnd)
      (auto intro!: kept_next kept_rules kept_fchmod kept_close Cons.IH E)
qed

lemma kept_open_parent:
  assumes "guest_confined X E" "r \<notin> X"
  shows "kept X d0 (open_parent E r parts create) (\<lambda>x _. fst x \<notin> X)"
  unfolding open_parent_def
  by (rule kept_bnd [OF kept_open_root [OF assms]], assumption)
    (rule kept_bnd [OF kept_walk [OF assms(1)]], auto intro: kept_ret)

lemma kept_write_body:
  assumes "guest_confined X E" "p \<notin> X"
  shows "kept X d0 (write_body E p t f c) (\<lambda>_ _. True)"
  unfolding write_body_def
  by (rule kept_bnd [OF kept_create_excl [OF assms]], assumption)
    (intro kept_next kept_rules kept_write kept_replace kept_close assms)

lemma kept_atomic_write:
  assumes "guest_confined X E" "r \<notin> X"
  shows "kept X d0 (atomic_write E r token path content) (\<lambda>_ _. True)"
  unfolding atomic_write_def Let_def
  apply (rule kept_bnd [OF kept_of_sum, where P = "\<lambda>_. True"], simp)
  apply (rule kept_bnd [where P = "\<lambda>x. fst x \<notin> X", OF kept_try [OF kept_open_parent [OF assms] kept_raise]], simp)
  subgoal for parts x
    by (cases x) (auto intro!: kept_rules kept_try kept_write_body kept_next [OF _ kept_raise]
        kept_raise kept_unlink assms(1))
  done

lemma kept_read_body:
  assumes "guest_confined X E" "p \<notin> X"
  shows "kept X d0 (read_body E p f path n)
    (\<lambda>b d. int (length b) \<le> n \<and> (\<exists>i. i \<notin> X \<and> inodes d i = Some (Reg b)))"
proof -
  have last: "kept X d0 (bnd (sys_read E i (nat (n + 1))) (\<lambda>b.
      next_do (guard_or (int (length b) \<le> n) (too_big n)) (ret b)))
    (\<lambda>b d. int (length b) \<le> n \<and> (\<exists>i. i \<notin> X \<and> inodes d i = Some (Reg b)))"
    if "i \<notin> X" for i
    unfolding kept_def
    apply (rule on_disk_bnd [OF kept_read [OF assms(1), unfolded kept_def]])
    apply (rule on_disk_guard_then)
    using that by (auto intro!: on_disk_ret)
  show ?thesis
    unfolding read_body_def
    apply (rule kept_bnd [OF kept_open_read [OF assms]], assumption)
    apply (rule kept_next [OF kept_fdopen [OF assms(1)]])
    apply (rule kept_wrap(4))
    apply (rule kept_bnd [OF kept_fstat [OF assms(1)], where P = "\<lambda>_. True"], simp)
    apply (auto intro!: kept_next [OF kept_guard] last)
    done
qed

lemma kept_bounded_read:
  assumes "guest_confined X E" "r \<notin> X"
  shows "kept X d0 (bounded_read E r path n)
    (\<lambda>b d. int (length b) \<le> n \<and> (\<exists>i. i \<notin> X \<and> inodes d i = Some (Reg b)))"
  unfolding bounded_read_def
  apply (rule kept_bnd [OF kept_of_sum, where P = "\<lambda>_. True"], simp)
  apply (rule kept_bnd [where P = "\<lambda>x. fst x \<notin> X", OF kept_try [OF kept_open_parent [OF assms] kept_raise]], simp)
  subgoal for parts x
    by (cases x) (auto intro!: kept_wrap(4) kept_try kept_read_body assms kept_raise)
  done

end
