(* ===== verification/Workspace_Function.thy ===== *)
theory Workspace_Function
  imports Workspace_Safety
begin

text \<open>
  What the workspace operations do when no guest interferes: a write that returns has stored
  its content under the path, a write that raises has lost nothing, whichever system call
  failed, and a read returns the stored content up to the limit. \<open>file_store\<close> is the interface
  through which the session protocol uses a workspace, and this model provides it.
\<close>

section \<open>Looking a path up\<close>

fun dir_at :: "disk \<Rightarrow> nat \<Rightarrow> str list \<Rightarrow> nat option" where
  "dir_at d i [] = (if is_dir d i then Some i else None)"
| "dir_at d i (c # cs) =
     (if is_dir d i then (case entry d i c of None \<Rightarrow> None | Some j \<Rightarrow> dir_at d j cs) else None)"

definition file_at :: "disk \<Rightarrow> nat \<Rightarrow> str list \<Rightarrow> bytes option" where
  "file_at d r parts =
     (case dir_at d r (butlast parts) of
       None \<Rightarrow> None
     | Some p \<Rightarrow> (case entry d p (last parts) of
           None \<Rightarrow> None
         | Some i \<Rightarrow> (case inodes d i of Some (Reg c) \<Rightarrow> Some c | _ \<Rightarrow> None)))"

lemma dir_at_append:
  "dir_at d i (cs @ cs') = (case dir_at d i cs of None \<Rightarrow> None | Some p \<Rightarrow> dir_at d p cs')"
  by (induction cs arbitrary: i) (auto split: option.splits, cases cs', auto)

lemma dir_at_is_dir: "dir_at d i cs = Some p \<Longrightarrow> is_dir d p"
  by (induction cs arbitrary: i) (auto split: if_splits option.splits)

lemma dir_at_snoc:
  "dir_at d r cs = Some p \<Longrightarrow> entry d p c = Some j \<Longrightarrow> is_dir d j \<Longrightarrow> dir_at d r (cs @ [c]) = Some j"
  by (auto simp: dir_at_append dest: dir_at_is_dir)

text \<open>Directories stay where they are when entries that name directories do.\<close>

definition same_dirs :: "disk \<Rightarrow> disk \<Rightarrow> bool" where
  "same_dirs d d' \<longleftrightarrow> (\<forall>i. is_dir d i \<longrightarrow> is_dir d' i) \<and>
     (\<forall>i n j. entry d i n = Some j \<longrightarrow> is_dir d j \<longrightarrow> entry d' i n = Some j)"

lemma dir_at_same: "same_dirs d d' \<Longrightarrow> dir_at d i cs = Some p \<Longrightarrow> dir_at d' i cs = Some p"
proof (induction cs arbitrary: i)
  case (Cons c cs)
  from Cons.prems(2) obtain j where "is_dir d i" "entry d i c = Some j" "dir_at d j cs = Some p"
    by (auto split: if_splits option.splits)
  moreover from this have "is_dir d j" by (cases cs) (auto split: if_splits)
  ultimately show ?case using Cons.prems(1) Cons.IH [of j] by (auto simp: same_dirs_def)
qed (auto simp: same_dirs_def split: if_splits)

lemma same_dirs_trans: "same_dirs a b \<Longrightarrow> same_dirs b c \<Longrightarrow> same_dirs a c"
  by (auto simp: same_dirs_def)

section \<open>Growth: nothing is lost\<close>

definition disk_wf :: "disk \<Rightarrow> bool" where
  "disk_wf d \<longleftrightarrow> (\<forall>i \<ge> fresh d. inodes d i = None)"

definition grows :: "disk \<Rightarrow> disk \<Rightarrow> bool" where
  "grows d d' \<longleftrightarrow> same_dirs d d' \<and> fresh d \<le> fresh d' \<and>
     (\<forall>i c. inodes d i = Some (Reg c) \<longrightarrow> inodes d' i = Some (Reg c)) \<and>
     (\<forall>i n j. entry d i n = Some j \<longrightarrow> entry d' i n = Some j)"

lemma grows_refl [simp]: "grows d d"
  by (simp add: grows_def same_dirs_def)

lemma grows_trans: "grows a b \<Longrightarrow> grows b c \<Longrightarrow> grows a c"
  by (auto simp: grows_def same_dirs_def)

lemma is_dir_set_entry [simp]: "is_dir (set_entry i n j d) k = is_dir d k"
  by (auto simp: set_entry_def is_dir_def split: option.splits inode.splits)

lemma inodes_set_entry_file:
  "inodes (set_entry i n j d) k = Some (Reg c) \<longleftrightarrow> inodes d k = Some (Reg c)"
  by (auto simp: set_entry_def split: option.splits inode.splits)

lemma inodes_set_entry_None: "inodes (set_entry i n j d) k = None \<longleftrightarrow> inodes d k = None"
  by (auto simp: set_entry_def split: option.splits inode.splits)

lemma disk_wf_set_entry [simp]: "disk_wf (set_entry i n j d) = disk_wf d"
  by (simp add: disk_wf_def inodes_set_entry_None)

lemma disk_wf_alloc: "disk_wf d \<Longrightarrow> disk_wf (alloc x d)"
  by (auto simp: disk_wf_def alloc_def)

lemma alloc_simps:
  "disk_wf d \<Longrightarrow> x = Dir [] \<or> x = Reg c \<Longrightarrow> entry (alloc x d) i n = entry d i n"
  "is_dir (alloc x d) i = (if i = fresh d then (\<exists>m. x = Dir m) else is_dir d i)"
  "inodes (alloc x d) i = (if i = fresh d then Some x else inodes d i)"
  "fresh (alloc x d) = Suc (fresh d)"
  by (auto simp: disk_wf_def entry_def alloc_def is_dir_def split: inode.splits option.splits)

lemma wf_fresh: "disk_wf d \<Longrightarrow> inodes d (fresh d) = None"
  by (simp add: disk_wf_def)

lemma entry_None_fresh: "disk_wf d \<Longrightarrow> is_dir d (fresh d) = False"
  by (simp add: is_dir_def wf_fresh)

text \<open>The one way the disk grows: a new inode under a name that was free.\<close>

lemma grows_new:
  assumes "disk_wf d" "is_dir d i" "entry d i n = None" "x = Dir [] \<or> x = Reg c"
  shows "grows d (set_entry i n (Some (fresh d)) (alloc x d))"
    and "disk_wf (set_entry i n (Some (fresh d)) (alloc x d))"
proof -
  have ne: "i \<noteq> fresh d" using assms(1,2) by (auto simp: is_dir_def wf_fresh)
  have e: "entry (set_entry i n (Some (fresh d)) (alloc x d)) i' n' =
      (if i' = i \<and> n' = n then Some (fresh d) else entry d i' n')" for i' n'
    using assms ne by (auto simp: entry_set_entry alloc_simps)
  show "grows d (set_entry i n (Some (fresh d)) (alloc x d))"
    using assms ne e
    by (auto simp: grows_def same_dirs_def alloc_simps inodes_set_entry_file wf_fresh entry_None_fresh)
  show "disk_wf (set_entry i n (Some (fresh d)) (alloc x d))"
    using assms by (simp add: disk_wf_alloc)
qed

section \<open>The steps of a write\<close>

text \<open>\<open>grown d0 r cs p d\<close>: \<open>d\<close> grew from \<open>d0\<close> and \<open>cs\<close> leads from \<open>r\<close> to \<open>p\<close>.\<close>

definition grown :: "disk \<Rightarrow> disk \<Rightarrow> bool" where
  "grown d0 d \<longleftrightarrow> disk_wf d \<and> grows d0 d"

lemma grown_refl: "disk_wf d \<Longrightarrow> grown d d"
  by (simp add: grown_def)

lemma grown_new:
  assumes "grown d0 d" "is_dir d i" "entry d i n = None" "x = Dir [] \<or> x = Reg c"
  shows "grown d0 (set_entry i n (Some (fresh d)) (alloc x d))"
  using assms grows_new [of d i n x c] grows_trans by (auto simp: grown_def)

lemma on_disk_step:
  assumes "undisturbed E"
    and "\<And>d x d'. P d \<Longrightarrow> f d = Inr (x, d') \<Longrightarrow> Q x d'" and "\<And>d. P d \<Longrightarrow> R d"
  shows "on_disk P (syscall E f) Q R"
  by (rule on_disk_syscall) (use assms in auto)

definition reached :: "disk \<Rightarrow> nat \<Rightarrow> str list \<Rightarrow> nat \<Rightarrow> disk \<Rightarrow> bool" where
  "reached d0 r cs p d \<longleftrightarrow> grown d0 d \<and> dir_at d r cs = Some p"

lemma reached_grown: "reached d0 r cs p d \<Longrightarrow> grown d0 d"
  by (simp add: reached_def)

lemma reached_new:
  assumes "reached d0 r cs p d" "is_dir d i" "entry d i n = None" "x = Dir [] \<or> x = Reg c"
  shows "reached d0 r cs p (set_entry i n (Some (fresh d)) (alloc x d))"
proof -
  have "same_dirs d (set_entry i n (Some (fresh d)) (alloc x d))"
    using assms grows_new [of d i n x c] by (auto simp: reached_def grown_def grows_def)
  with assms show ?thesis
    using grown_new [of d0 d i n x c] by (auto simp: reached_def dir_at_same)
qed

lemma reached_mkdir:
  assumes "undisturbed E"
  shows "on_disk (reached d0 r cs p) (sys_mkdir E q c) (\<lambda>_. reached d0 r cs p) (reached d0 r cs p)"
  unfolding sys_mkdir_def
  by (rule on_disk_named, rule on_disk_step [OF assms])
    (auto split: if_splits intro!: reached_new)

lemma reached_open_dir:
  assumes "undisturbed E"
  shows "on_disk (reached d0 r cs p) (open_dir E p c) (\<lambda>j. reached d0 r (cs @ [c]) j) (grown d0)"
  unfolding open_dir_def
  by (rule on_disk_named, rule on_disk_opened, rule on_disk_step [OF assms])
    (auto simp: reached_def is_dir_def split: option.splits inode.splits intro!: dir_at_snoc)

lemma reached_walk:
  assumes E: "undisturbed E"
  shows "on_disk (reached d0 r pre p) (walk E create p cs) (\<lambda>q. reached d0 r (pre @ cs) q) (grown d0)"
proof (induction cs arbitrary: p pre)
  case Nil
  show ?case by (simp add: on_disk_ret)
next
  case (Cons c cs)
  have mk: "on_disk (reached d0 r pre p)
      (when_do create (suppressing (\<lambda>e. exn_isa e FileExistsError) (sys_mkdir E p c)))
      (\<lambda>_. reached d0 r pre p) (grown d0)"
    by (rule on_disk_when, rule on_disk_conseq [OF on_disk_suppressing [OF reached_mkdir [OF E]]])
      (auto dest: reached_grown)
  have ch: "on_disk (reached d0 r (pre @ [c]) j) (when_do create (sys_fchmod E j))
      (\<lambda>_. reached d0 r (pre @ [c]) j) (grown d0)" for j
    unfolding sys_fchmod_def
    by (rule on_disk_when, rule on_disk_step [OF E]) (auto dest: reached_grown)
  show ?case
    unfolding walk.simps
    apply (rule on_disk_bnd [OF on_disk_on_error [OF on_disk_next [OF mk reached_open_dir [OF E]]]])
    apply (rule on_disk_next [OF on_disk_close])
    apply (rule on_disk_next [OF on_disk_on_error [OF ch]])
    using Cons.IH [of "pre @ [c]"] by simp
qed

lemma reached_open_parent:
  assumes E: "undisturbed E" and ne: "parts \<noteq> []"
  shows "on_disk (grown d0) (open_parent E r parts create)
    (\<lambda>x d. snd x = last parts \<and> reached d0 r (butlast parts) (fst x) d) (grown d0)"
proof -
  have root: "on_disk (grown d0) (open_root E r) (\<lambda>fd. reached d0 r [] fd) (grown d0)"
    unfolding open_root_def
    by (rule on_disk_opened, rule on_disk_step [OF E]) (auto simp: reached_def split: if_splits)
  show ?thesis
    unfolding open_parent_def
    apply (rule on_disk_bnd [OF root])
    apply (rule on_disk_bnd [OF reached_walk [OF E]])
    by (rule on_disk_ret) simp
qed

text \<open>While the temporary file exists: it is new, it holds \<open>c\<close>, and the parent names it.\<close>

definition staged :: "disk \<Rightarrow> nat \<Rightarrow> str list \<Rightarrow> nat \<Rightarrow> str \<Rightarrow> nat \<Rightarrow> bytes \<Rightarrow> disk \<Rightarrow> bool" where
  "staged d0 r cs p t fd c d \<longleftrightarrow> reached d0 r cs p d \<and> fresh d0 \<le> fd \<and>
     entry d p t = Some fd \<and> inodes d fd = Some (Reg c)"

lemma staged_create:
  assumes "undisturbed E"
  shows "on_disk (reached d0 r cs p) (create_excl E p t) (\<lambda>fd. staged d0 r cs p t fd []) (grown d0)"
  unfolding create_excl_def
proof (rule on_disk_named, rule on_disk_opened, rule on_disk_step [OF assms])
  fix d fd d'
  assume d: "reached d0 r cs p d"
    and "(if \<not> is_dir d p then Inl no_entry else if entry d p t \<noteq> None then Inl (Exn FileExistsError ''File exists'')
      else Inr (fresh d, set_entry p t (Some (fresh d)) (alloc (Reg []) d))) = Inr (fd, d')"
  then have new: "is_dir d p" "entry d p t = None" "fd = fresh d"
    and d': "d' = set_entry p t (Some (fresh d)) (alloc (Reg []) d)"
    by (auto split: if_splits)
  from d have wf: "disk_wf d" "fresh d0 \<le> fresh d" by (auto simp: reached_def grown_def grows_def)
  with new d' reached_new [OF d new(1,2), of "Reg []" "[]"]
  show "staged d0 r cs p t fd [] d'"
    by (auto simp: staged_def entry_set_entry alloc_simps inodes_set_entry_file entry_None_fresh)
qed (auto dest: reached_grown)

lemma grown_write:
  assumes "disk_wf d0" "grown d0 d" "fresh d0 \<le> fd" "inodes d fd = Some (Reg c)"
  shows "grown d0 (d\<lparr>inodes := (inodes d)(fd \<mapsto> Reg c')\<rparr>)"
    and "same_dirs d (d\<lparr>inodes := (inodes d)(fd \<mapsto> Reg c')\<rparr>)"
  using assms
  by (auto simp: grown_def grows_def same_dirs_def disk_wf_def is_dir_def entry_def
      split: option.splits inode.splits if_splits)

lemma staged_write:
  assumes E: "undisturbed E" and wf: "disk_wf d0"
  shows "on_disk (staged d0 r cs p t fd []) (sys_write E fd c) (\<lambda>_. staged d0 r cs p t fd c)
    (staged d0 r cs p t fd [])"
  unfolding sys_write_def
proof (rule on_disk_step [OF E])
  fix d and x :: unit and d'
  assume d: "staged d0 r cs p t fd [] d"
    and "(case inodes d fd of Some (Reg old) \<Rightarrow>
        Inr ((), d\<lparr>inodes := (inodes d)(fd \<mapsto> Reg (c @ drop (length c) old))\<rparr>)
      | _ \<Rightarrow> Inl (os_error ''Bad file descriptor'')) = Inr (x, d')"
  then have d': "d' = d\<lparr>inodes := (inodes d)(fd \<mapsto> Reg c)\<rparr>" and fd: "inodes d fd = Some (Reg [])"
    and r: "grown d0 d" "fresh d0 \<le> fd" "dir_at d r cs = Some p" "entry d p t = Some fd"
    by (auto simp: staged_def reached_def)
  note g = grown_write [OF wf r(1,2) fd, of c]
  have "p \<noteq> fd" using r(4) fd by (auto simp: entry_def)
  with g r d' show "staged d0 r cs p t fd c d'"
    by (auto simp: staged_def reached_def dir_at_same entry_def)
qed

text \<open>The disk after the rename: the content is under the path, and beside that name nothing
  that existed has changed.\<close>

definition stored :: "disk \<Rightarrow> nat \<Rightarrow> str list \<Rightarrow> str \<Rightarrow> bytes \<Rightarrow> disk \<Rightarrow> bool" where
  "stored d0 r cs f c d \<longleftrightarrow> disk_wf d \<and> same_dirs d0 d \<and> file_at d r (cs @ [f]) = Some c \<and>
     (\<forall>i b. inodes d0 i = Some (Reg b) \<longrightarrow> inodes d i = Some (Reg b)) \<and>
     (\<forall>i n j. entry d0 i n = Some j \<longrightarrow> entry d i n = Some j \<or> n = f \<and> dir_at d r cs = Some i)"

lemma staged_rename:
  assumes d: "staged d0 r cs p t fd c d" and free: "entry d0 p t = None"
    and run: "rename_disk p t f d = Inr (u, d')"
  shows "stored d0 r cs f c d'"
proof -
  from d have g: "grown d0 d" "dir_at d r cs = Some p" "entry d p t = Some fd"
    and fd: "inodes d fd = Some (Reg c)" by (auto simp: staged_def reached_def)
  have nd: "\<not> is_dir d fd" using fd by (simp add: is_dir_def)
  have dp: "is_dir d p" using g(2) by (rule dir_at_is_dir)
  show ?thesis
  proof (cases "entry d p f = Some fd")
    case True
    with run g(3) have "d' = d" by (simp add: rename_disk_def)
    with True g fd show ?thesis
      by (auto simp: stored_def file_at_def grown_def grows_def)
  next
    case False
    have ft: "f \<noteq> t" using False g(3) by auto
    from run g(3) False nd have d': "d' = set_entry p t None (set_entry p f (Some fd) d)"
      and old: "\<And>j. entry d p f = Some j \<Longrightarrow> \<not> is_dir d j"
      by (auto simp: rename_disk_def split: option.splits if_splits)
    have e: "entry d' i n = (if i = p \<and> n = t then None else if i = p \<and> n = f then Some fd else entry d i n)"
      for i n using d' dp by (simp add: entry_set_entry)
    have sd: "same_dirs d d'"
      using e old nd g(3) d' by (auto simp: same_dirs_def)
    with g(1) have sd0: "same_dirs d0 d'" by (auto simp: grown_def grows_def intro: same_dirs_trans)
    from sd g(2) have p': "dir_at d' r cs = Some p" by (simp add: dir_at_same)
    have regs: "inodes d' i = Some (Reg b) \<longleftrightarrow> inodes d i = Some (Reg b)" for i b
      by (simp add: d' inodes_set_entry_file)
    have "disk_wf d'" using g(1) d' by (simp add: grown_def)
    moreover have "file_at d' r (cs @ [f]) = Some c"
      using p' e ft regs [of fd c] fd by (simp add: file_at_def)
    moreover have "entry d' i n = Some j \<or> n = f \<and> dir_at d' r cs = Some i"
      if "entry d0 i n = Some j" for i n j
      using that e p' free g(1) by (auto simp: grown_def grows_def)
    ultimately show ?thesis
      using regs g(1) sd0 by (auto simp: stored_def grown_def grows_def)
  qed
qed

lemma staged_body:
  assumes E: "undisturbed E" and wf: "disk_wf d0" and free: "entry d0 p t = None"
  shows "on_disk (reached d0 r cs p) (write_body E p t f c) (\<lambda>_. stored d0 r cs f c) (grown d0)"
proof -
  have fin: "on_disk (staged d0 r cs p t fd []) (try_finally (sys_write E fd c) os_close)
      (\<lambda>_. staged d0 r cs p t fd c) (grown d0)" for fd
    by (rule on_disk_conseq [OF on_disk_finally_close [OF staged_write [OF E wf]]])
      (auto simp: staged_def reached_def)
  have ren: "on_disk (staged d0 r cs p t fd c) (sys_replace E p t f) (\<lambda>_. stored d0 r cs f c) (grown d0)" for fd
    unfolding sys_replace_def
    by (intro on_disk_named on_disk_step [OF E] staged_rename [OF _ free])
      (auto simp: staged_def reached_def)
  show ?thesis
    unfolding write_body_def
    by (rule on_disk_bnd [OF staged_create [OF E]]) (rule on_disk_next [OF fin ren])
qed

lemma grown_unlink:
  assumes E: "undisturbed E" and free: "entry d0 p t = None"
  shows "on_disk (grown d0) (sys_unlink E p t) (\<lambda>_. grown d0) (grown d0)"
  unfolding sys_unlink_def
proof (rule on_disk_named, rule on_disk_step [OF E])
  fix d and x :: unit and d'
  assume d: "grown d0 d" and "(case entry d p t of None \<Rightarrow> Inl no_entry
    | Some j \<Rightarrow> if is_dir d j then Inl (os_error ''Is a directory'') else Inr ((), set_entry p t None d)) = Inr (x, d')"
  then have d': "d' = set_entry p t None d" by (auto split: option.splits if_splits)
  with d free show "grown d0 d'"
    by (auto simp: grown_def grows_def same_dirs_def entry_set_entry inodes_set_entry_file)
qed auto

text \<open>The guarded body of the write, for any temporary name \<open>t\<close>.\<close>

lemma staged_guarded:
  assumes E: "undisturbed E" and wf: "disk_wf d0" and free: "\<forall>p. entry d0 p t = None"
  shows "on_disk (reached d0 r cs p)
    (try_finally (try_except (write_body E p t f c) (\<lambda>e. if exn_isa e OSError
        then next_do (suppressing (\<lambda>e. exn_isa e FileNotFoundError) (sys_unlink E p t))
          (raise (file_error ''write'' path e)) else raise e)) os_close)
    (\<lambda>_. stored d0 r cs f c) (grown d0)"
proof -
  have err: "on_disk (grown d0) (if exn_isa e OSError
        then next_do (suppressing (\<lambda>e. exn_isa e FileNotFoundError) (sys_unlink E p t))
          (raise (file_error ''write'' path e)) else raise e) Q (grown d0)"
    for e and Q :: "unit \<Rightarrow> disk \<Rightarrow> bool"
    using free by (auto intro!: on_disk_raise on_disk_next [OF on_disk_suppressing [OF grown_unlink [OF E]]])
  show ?thesis
    using free by (intro on_disk_finally_close on_disk_try [OF staged_body [OF E wf]] err) simp
qed

lemma atomic_write_disk:
  assumes E: "undisturbed E" and wf: "disk_wf d0" and free: "\<forall>p. entry d0 p (''.agentnest-'' @ token) = None"
  shows "on_disk (\<lambda>d. d = d0) (atomic_write E r token path c)
    (\<lambda>_ d. \<exists>cs f. relative_parts path = Inr (cs @ [f]) \<and> stored d0 r cs f c d) (grown d0)"
proof -
  define t where "t = ''.agentnest-'' @ token"
  have free: "\<forall>p. entry d0 p t = None" using free by (simp add: t_def)
  let ?S = "\<lambda>_ d. \<exists>cs f. relative_parts path = Inr (cs @ [f]) \<and> stored d0 r cs f c d"
  have rest: "on_disk (\<lambda>d. snd x = last parts \<and> reached d0 r (butlast parts) (fst x) d)
      (case x of (p, f) \<Rightarrow> try_finally (try_except (write_body E p t f c) (\<lambda>e. if exn_isa e OSError
        then next_do (suppressing (\<lambda>e. exn_isa e FileNotFoundError) (sys_unlink E p t))
          (raise (file_error ''write'' path e)) else raise e)) os_close) ?S (grown d0)"
    if "relative_parts path = Inr parts" "parts \<noteq> []" for x parts
    by (rule on_disk_pure [where b = "snd x = last parts"], simp, cases x)
      (auto simp: that intro!: on_disk_conseq [OF staged_guarded [OF E wf free]]
        exI [of _ "butlast parts"] exI [of _ "last parts"])
  have opens: "on_disk (grown d0) (try_except (open_parent E r parts True) (\<lambda>e. raise (as_file_error ''write'' path e)))
      (\<lambda>x d. snd x = last parts \<and> reached d0 r (butlast parts) (fst x) d) (grown d0)"
    if "parts \<noteq> []" for parts
    by (rule on_disk_try [OF reached_open_parent [OF E that] on_disk_raise]) simp
  show ?thesis
    unfolding atomic_write_def Let_def t_def [symmetric]
  proof (rule on_disk_bnd [where Q = "\<lambda>parts d. relative_parts path = Inr parts \<and> grown d0 d"])
    show "on_disk (\<lambda>d. d = d0) (of_sum (relative_parts path))
        (\<lambda>parts d. relative_parts path = Inr parts \<and> grown d0 d) (grown d0)"
      by (rule on_disk_of_sum) (auto simp: wf grown_refl)
    fix parts
    show "on_disk (\<lambda>d. relative_parts path = Inr parts \<and> grown d0 d)
      (bnd (try_except (open_parent E r parts True) (\<lambda>e. raise (as_file_error ''write'' path e)))
        (\<lambda>(p, f). try_finally (try_except (write_body E p t f c) (\<lambda>e. if exn_isa e OSError
          then next_do (suppressing (\<lambda>e. exn_isa e FileNotFoundError) (sys_unlink E p t))
            (raise (file_error ''write'' path e)) else raise e)) os_close)) ?S (grown d0)"
      by (rule on_disk_pure [where b = "relative_parts path = Inr parts \<and> parts \<noteq> []"],
          use relative_parts_plain in blast)
        (rule on_disk_bnd [OF on_disk_conseq [OF opens] rest]; auto)
  qed
qed

section \<open>Without faults\<close>

text \<open>\<open>certain P m Q\<close>: from \<open>P\<close>, the operation returns, with a value related by \<open>Q\<close>.\<close>

abbreviation certain :: "(disk \<Rightarrow> bool) \<Rightarrow> 'a syscall \<Rightarrow> ('a \<Rightarrow> disk \<Rightarrow> bool) \<Rightarrow> bool" where
  "certain P m Q \<equiv> on_disk P m Q (\<lambda>_. False)"

definition calm :: "os_env \<Rightarrow> bool" where
  "calm E \<longleftrightarrow> undisturbed E \<and> (\<forall>n. fault E n = None)"

lemma calm_undisturbed: "calm E \<Longrightarrow> undisturbed E"
  by (simp add: calm_def)

lemma quiet_calm [simp]: "calm quiet"
  by (simp add: calm_def) (simp add: quiet_def)

lemma certain_run:
  assumes "certain (\<lambda>d. d = d0) m Q" "disk_of s = d0"
  obtains x t where "m s = (Inr x, t)" "Q x (disk_of t)"
proof -
  from on_diskD [OF assms(1), of s "fst (m s)" "snd (m s)"] assms(2)
  have "case fst (m s) of Inr x \<Rightarrow> Q x (disk_of (snd (m s))) | Inl _ \<Rightarrow> False" by simp
  with that show ?thesis by (cases "m s") (auto split: sum.splits)
qed

lemma certain_syscall:
  assumes "calm E" and "\<And>d. P d \<Longrightarrow> \<exists>x d'. f d = Inr (x, d') \<and> Q x d'"
  shows "certain P (syscall E f) Q"
proof (rule on_diskI)
  fix s :: os_state and r t
  assume "P (disk_of s)" and run: "syscall E f s = (r, t)"
  with assms obtain x d' where "f (disk_of s) = Inr (x, d')" "Q x d'" by blast
  with run assms(1) show "case r of Inr x \<Rightarrow> Q x (disk_of t) | Inl _ \<Rightarrow> False"
    by (auto simp: syscall_def calm_def undisturbed_def)
qed

lemma certain_opened: "certain P m Q \<Longrightarrow> certain P (opened m) Q"
  by (rule on_disk_opened)

lemma certain_named: "CHR 0x00 \<notin> set n \<Longrightarrow> certain P m Q \<Longrightarrow> certain P (named n m) Q"
  by (simp add: named_def)

lemma certain_guard: "b \<Longrightarrow> on_disk P m Q R \<Longrightarrow> on_disk P (next_do (guard_or b e) m) Q R"
  by (simp add: guard_or_def next_do_def)

text \<open>Sequencing after an operation whose value is known.\<close>

lemma certain_bnd:
  assumes "on_disk P m (\<lambda>q x. q = v \<and> Q x) R" and "on_disk Q (f v) S R"
  shows "on_disk P (bnd m f) S R"
proof (rule on_disk_bnd [OF assms(1)])
  fix q show "on_disk (\<lambda>x. q = v \<and> Q x) (f q) S R"
    by (rule on_disk_pure [where b = "q = v"], simp) (simp add: assms(2))
qed

lemma certain_mkdir:
  assumes "calm E" "CHR 0x00 \<notin> set c" "P \<le> (\<lambda>d. entry d i c \<noteq> None)"
  shows "certain P (suppressing (\<lambda>e. exn_isa e FileExistsError) (sys_mkdir E i c)) (\<lambda>_. P)"
proof (rule on_diskI)
  fix s :: os_state and r t
  assume P: "P (disk_of s)"
    and run: "suppressing (\<lambda>e. exn_isa e FileExistsError) (sys_mkdir E i c) s = (r, t)"
  from P assms(3) have "entry (disk_of s) i c \<noteq> None" by auto
  moreover from this have "is_dir (disk_of s) i"
    by (auto simp: entry_def is_dir_def split: option.splits inode.splits)
  ultimately show "case r of Inr x \<Rightarrow> P (disk_of t) | Inl _ \<Rightarrow> False"
    using run assms(1,2) P
    by (auto simp: suppressing_def try_except_def sys_mkdir_def named_def syscall_def calm_def
        undisturbed_def ret_def isa_simps)
qed

lemma certain_walk:
  assumes E: "calm E"
  shows "dir_at d i cs = Some p \<Longrightarrow> \<forall>c \<in> set cs. CHR 0x00 \<notin> set c \<Longrightarrow>
    certain (\<lambda>x. x = d) (walk E create i cs) (\<lambda>q x. q = p \<and> x = d)"
proof (induction cs arbitrary: i)
  case Nil
  then show ?case by (auto intro!: on_disk_ret split: if_splits)
next
  case (Cons c cs)
  from Cons.prems(1) obtain j where j: "is_dir d i" "entry d i c = Some j" "dir_at d j cs = Some p"
    by (auto split: if_splits option.splits)
  then obtain es where es: "inodes d j = Some (Dir es)"
    by (cases cs) (auto simp: is_dir_def split: if_splits option.splits inode.splits)
  have mk: "certain (\<lambda>x. x = d)
      (when_do create (suppressing (\<lambda>e. exn_isa e FileExistsError) (sys_mkdir E i c))) (\<lambda>_ x. x = d)"
    using j Cons.prems(2) by (intro on_disk_when certain_mkdir E) auto
  have op: "certain (\<lambda>x. x = d) (open_dir E i c) (\<lambda>q x. q = j \<and> x = d)"
    unfolding open_dir_def using j es Cons.prems(2)
    by (intro certain_named certain_opened certain_syscall E) auto
  have ch: "certain (\<lambda>x. x = d) (on_error os_close (when_do create (sys_fchmod E j))) (\<lambda>_ x. x = d)"
    unfolding sys_fchmod_def
    by (intro on_disk_on_error on_disk_when certain_syscall E) auto
  have rest: "certain (\<lambda>x. x = d) (next_do os_close
      (next_do (on_error os_close (when_do create (sys_fchmod E j))) (walk E create j cs)))
      (\<lambda>q x. q = p \<and> x = d)"
    by (rule on_disk_next [OF on_disk_close on_disk_next [OF ch Cons.IH [OF j(3)]]])
      (use Cons.prems(2) in simp)
  show ?case
    unfolding walk.simps
    by (rule certain_bnd [OF on_disk_on_error [OF on_disk_next [OF mk op]]], rule rest)
qed

lemma certain_open_parent:
  assumes "calm E" "dir_at d r (butlast parts) = Some p" "\<forall>c \<in> set parts. CHR 0x00 \<notin> set c"
  shows "certain (\<lambda>x. x = d) (open_parent E r parts create) (\<lambda>q x. q = (p, last parts) \<and> x = d)"
proof -
  from assms(2) have r: "is_dir d r" by (cases "butlast parts") (auto split: if_splits)
  have root: "certain (\<lambda>x. x = d) (open_root E r) (\<lambda>q x. q = r \<and> x = d)"
    unfolding open_root_def using r by (intro certain_opened certain_syscall assms) auto
  have w: "certain (\<lambda>x. x = d) (bnd (walk E create r (butlast parts)) (\<lambda>p. ret (p, last parts)))
      (\<lambda>q x. q = (p, last parts) \<and> x = d)"
    by (rule on_disk_bnd [OF certain_walk [OF assms(1,2)]])
      (use assms(3) in \<open>auto dest: in_set_butlastD intro: on_disk_ret\<close>)
  show ?thesis
    unfolding open_parent_def by (rule certain_bnd [OF root], rule w)
qed

section \<open>Reading what is stored\<close>

lemma certain_read_body:
  assumes E: "calm E" and i: "entry d p f = Some i" "inodes d i = Some (Reg c)" "CHR 0x00 \<notin> set f"
    and n: "int (length c) \<le> n"
  shows "certain (\<lambda>x. x = d) (read_body E p f path n) (\<lambda>b x. b = c \<and> x = d)"
proof -
  have op: "certain (\<lambda>x. x = d) (open_read E p f) (\<lambda>q x. q = i \<and> x = d)"
    unfolding open_read_def using i by (intro certain_named certain_opened certain_syscall E) auto
  have fd: "certain (\<lambda>x. x = d) (fdopen_read E i) (\<lambda>_ x. x = d)"
    unfolding fdopen_read_def using i by (intro certain_syscall E) (auto simp: is_dir_def)
  have st: "certain (\<lambda>x. x = d) (sys_fstat E i) (\<lambda>q x. q = (True, int (length c)) \<and> x = d)"
    unfolding sys_fstat_def using i by (intro certain_syscall E) auto
  have rd: "certain (\<lambda>x. x = d) (sys_read E i (nat (n + 1))) (\<lambda>q x. q = c \<and> x = d)"
    unfolding sys_read_def using i n by (intro certain_syscall E) auto
  have rest: "certain (\<lambda>x. x = d) (bnd (sys_read E i (nat (n + 1)))
      (\<lambda>payload. next_do (guard_or (int (length payload) \<le> n) (too_big n)) (ret payload)))
      (\<lambda>q x. q = c \<and> x = d)"
    by (rule certain_bnd [OF rd]) (simp add: certain_guard n on_disk_ret)
  show ?thesis
    unfolding read_body_def
    apply (rule certain_bnd [OF op])
    apply (rule on_disk_next [OF fd])
    apply (rule on_disk_finally_close)
    apply (rule certain_bnd [OF st])
    unfolding prod.case by (intro certain_guard rest TrueI n)
qed

lemma certain_bounded_read:
  assumes E: "calm E" and parts: "relative_parts path = Inr parts" "\<forall>c \<in> set parts. CHR 0x00 \<notin> set c"
    and c: "file_at d r parts = Some c" "int (length c) \<le> n"
  shows "certain (\<lambda>x. x = d) (bounded_read E r path n) (\<lambda>b x. b = c \<and> x = d)"
proof -
  from parts(1) have ne: "parts \<noteq> []" by (rule relative_parts_plain)
  from c(1) obtain p i where p: "dir_at d r (butlast parts) = Some p"
    and i: "entry d p (last parts) = Some i" "inodes d i = Some (Reg c)"
    by (auto simp: file_at_def split: option.splits inode.splits)
  have rest: "certain (\<lambda>x. x = d) (try_finally
      (try_except (read_body E p (last parts) path n) (\<lambda>e. raise (as_file_error ''read'' path e))) os_close)
      (\<lambda>b x. b = c \<and> x = d)"
    by (intro on_disk_finally_close on_disk_try [OF certain_read_body [OF E i _ c(2)]] on_disk_raise)
      (use parts(2) ne in auto)
  have op: "certain (\<lambda>x. x = d) (try_except (open_parent E r parts False)
      (\<lambda>e. raise (as_file_error ''read'' path e))) (\<lambda>q x. q = (p, last parts) \<and> x = d)"
    by (rule on_disk_try [OF certain_open_parent [OF E p parts(2)] on_disk_raise]) simp
  have "certain (\<lambda>x. x = d) (of_sum (relative_parts path)) (\<lambda>q x. q = parts \<and> x = d)"
    using parts(1) by (intro on_disk_of_sum) auto
  then show ?thesis
    unfolding bounded_read_def
    apply (rule certain_bnd)
    apply (rule certain_bnd [OF op])
    unfolding prod.case by (rule rest)
qed

section \<open>What a write changes and what it keeps\<close>

lemma file_at_reg:
  "file_at d r q = Some b \<longleftrightarrow> (\<exists>p i. dir_at d r (butlast q) = Some p \<and> entry d p (last q) = Some i \<and>
     inodes d i = Some (Reg b))"
  by (auto simp: file_at_def split: option.splits inode.splits)

lemma grown_file: "grown d0 d \<Longrightarrow> file_at d0 r q = Some b \<Longrightarrow> file_at d r q = Some b"
  unfolding file_at_reg grown_def grows_def using dir_at_same by blast

lemma stored_file:
  assumes "stored d0 r cs f c d" "file_at d0 r q = Some b"
  shows "file_at d r q = Some b \<or> last q = f \<and> dir_at d r (butlast q) = dir_at d r cs"
  using assms unfolding file_at_reg stored_def by (metis dir_at_same)

lemma stored_content: "stored d0 r cs f c d \<Longrightarrow> file_at d r (cs @ [f]) = Some c"
  by (simp add: stored_def)

lemma atomic_write_outcome:
  assumes "undisturbed E" "disk_wf (disk_of s)" "\<forall>p. entry (disk_of s) p (''.agentnest-'' @ token) = None"
    and "atomic_write E r token path c s = (res, t)"
  shows "case res of
      Inr _ \<Rightarrow> \<exists>cs f. relative_parts path = Inr (cs @ [f]) \<and> stored (disk_of s) r cs f c (disk_of t)
    | Inl _ \<Rightarrow> grown (disk_of s) (disk_of t)"
  using on_diskD [OF atomic_write_disk [OF assms(1-3)] refl assms(4)] by simp

end
