(* ===== verification/Core_Properties.thy ===== *)
theory Core_Properties
  imports Approvals Workspace_Function
begin

text \<open>
  The properties of the value types, of redaction, of paths and of the workspace file
  operations, each with an application to a concrete input.
\<close>

section \<open>Redaction\<close>

text \<open>
  Whatever else is redacted and whatever the text, a secret value that contains no square
  bracket and no occurrence of the word REDACTED does not occur in redacted text.
\<close>

theorem redact_hides:
  assumes "Secret v \<in> snd ` set env" and "markable v"
  shows "\<not> contains (redact s env) v"
  using redact_absent [of v env s] assms by (simp add: secret_values_iff markable_def)

definition demo_env :: secret_env where
  "demo_env = [(''TOKEN'', Secret ''abc''), (''LONG'', Secret ''abcd''), (''MODE'', Plain ''ab'')]"

lemma redact_hides_witness:
  "redact ''xabcdabcx'' demo_env = ''x[REDACTED][REDACTED]x'' \<and> \<not> contains (redact ''xabcdabcx'' demo_env) ''abc''"
proof
  show "redact ''xabcdabcx'' demo_env = ''x[REDACTED][REDACTED]x''" by code_simp
  have "Secret ''abc'' \<in> snd ` set demo_env" by (simp add: demo_env_def)
  moreover have "markable ''abc''" by code_simp
  ultimately show "\<not> contains (redact ''xabcdabcx'' demo_env) ''abc''" by (rule redact_hides)
qed

text \<open>
  A secret that stands alone is replaced by exactly one marker, even when other secrets are
  parts of it: the longer secrets are replaced first.
\<close>

theorem redact_replaces_whole:
  assumes "\<forall>w \<in> set (secret_values env). markable w \<and> is_ascii w"
    and "Secret v \<in> snd ` set env" "v \<noteq> []"
  shows "redact v env = marker"
  using redact_whole [OF assms(1)] assms(2,3) by (simp add: secret_values_iff)

lemma redact_replaces_whole_witness: "redact ''abcd'' demo_env = ''[REDACTED]''"
proof -
  have "\<forall>w \<in> set (secret_values demo_env). markable w \<and> is_ascii w" by code_simp
  moreover have "Secret ''abcd'' \<in> snd ` set demo_env" by (simp add: demo_env_def)
  ultimately have "redact ''abcd'' demo_env = marker"
    by (rule redact_replaces_whole) simp
  then show ?thesis by (simp add: marker_def)
qed

section \<open>Policies\<close>

text \<open>
  \<open>validate_image\<close> accepts an image exactly when the policy trusts it: it is pinned by digest
  if the policy wants that, and it is on the list of images if there is one. Everything else is
  a \<open>ValueError\<close>.
\<close>

theorem validate_image_exact:
  "if image_trusted p img then validate_image p img = Inr ()
   else (\<exists>m. validate_image p img = Inl (Exn ValueError m))"
  using validate_image_trusted [of p img] validate_image_error [of p img] by simp

text \<open>
  The constructors admit exactly the well-formed values: a network policy lists destinations
  exactly when its mode is the allowlist, output and read limits are positive.
\<close>

theorem policy_constructors:
  "(\<exists>p. make_network_policy m ds cs = Inr p \<and> network_wf p) = ((m = ALLOWLIST) = (ds \<noteq> [] \<or> cs \<noteq> []))"
  "(make_security_policy q = Inr q) = (0 < max_output_bytes q \<and> 0 < max_file_read_bytes q)"
  by (auto simp: make_network_policy_wf network_wf_def make_security_policy_ok)

section \<open>Text\<close>

text \<open>
  Decoding with \<open>errors="replace"\<close> always gives a text, is the identity on a text, and at most
  triples the number of bytes.
\<close>

theorem decode_total:
  "utf8_valid (utf8_decode b) \<and> utf8_decode (utf8_decode b) = utf8_decode b \<and>
   length (utf8_decode b) \<le> 3 * length b"
  by (simp add: utf8_decode_valid utf8_decode_length)

section \<open>Paths\<close>

text \<open>
  A path that the sandbox accepts is a non-empty sequence of names, none of which is \<open>.\<close> or
  \<open>..\<close>, and accepting it again changes nothing. Everything else is a \<open>FileAccessError\<close>; an
  absolute path and a path with a \<open>..\<close> component are always refused.
\<close>

theorem workspace_path:
  "case normalize_workspace_path p of
     Inr q \<Rightarrow> safe_relative q \<and> normalize_workspace_path q = Inr q \<and> path_root p = [] \<and>
       ''..'' \<notin> set (split_on slash p)
   | Inl e \<Rightarrow> exn_class e = FileAccessError"
proof (cases "normalize_workspace_path p")
  case (Inl e)
  then show ?thesis by (simp add: normalize_error)
next
  case (Inr q)
  then obtain cs where cs: "relative_parts p = Inr cs"
    by (auto simp: normalize_workspace_path_def split: sum.splits)
  then have "path_root p = []" by (simp add: relative_parts_def split: if_splits)
  moreover have "''..'' \<notin> set (split_on slash p)" using dotdot_rejected [of p] cs by auto
  ultimately show ?thesis using Inr by (simp add: normalize_safe normalize_idem)
qed

text \<open>
  A working directory that is accepted is \<open>/workspace\<close> or names below it, whatever dots,
  slashes and parent references the argument had; otherwise the answer is a \<open>ValueError\<close>.
\<close>

theorem workdir_normalised:
  "case normalize_workdir w of Inr d \<Rightarrow> inside_workspace d | Inl e \<Rightarrow> exn_class e = ValueError"
  by (auto split: sum.split simp: normalize_workdir_inside normalize_workdir_error)

section \<open>Workspace files\<close>

text \<open>
  A disk for the examples: the directory 0 with the host file 2 in it is outside, the workspace 1
  holds the link \<open>evil\<close> to it and the file \<open>data\<close>.
\<close>

definition demo_disk :: disk where
  "demo_disk = \<lparr>inodes = [0 \<mapsto> Dir [(''passwd'', 2)], 1 \<mapsto> Dir [(''evil'', 3), (''data'', 4)],
     2 \<mapsto> Reg ''host'', 3 \<mapsto> Sym ''../passwd'', 4 \<mapsto> Reg ''old''], fresh = 5\<rparr>"

definition demo_state :: os_state where
  "demo_state = \<lparr>disk_of = demo_disk, ticks = 0, fds = 0\<rparr>"

lemma demo_confined: "confined {0, 2} demo_disk"
  by (auto simp: confined_def entry_def demo_disk_def split: if_splits)

lemma quiet_confined: "guest_confined X quiet"
  by (simp add: guest_confined_def quiet_def untouched_def)

text \<open>
  C1. Writing a workspace file never changes a file or directory outside the workspace, on any
  outcome and at any failing system call, even if the guest swaps links for directories between
  the calls: the guest only has to be confined itself.
\<close>

theorem write_confined:
  assumes "guest_confined X E" and "confined X (disk_of s)" and "r \<notin> X"
  shows "untouched X (disk_of s) (disk_of (snd (atomic_write E r token path c s)))"
proof -
  have "held X (disk_of s) (disk_of s)" using assms(2) by (simp add: held_def)
  from keptD(1) [OF kept_atomic_write [OF assms(1,3)] this prod.collapse [symmetric]] show ?thesis
    by (simp add: held_def)
qed

lemma write_confined_witness:
  "untouched {0, 2} demo_disk (disk_of (snd (atomic_write quiet 1 ''00'' ''evil'' ''x'' demo_state)))"
  using write_confined [OF quiet_confined, of "{0, 2}" demo_state 1] demo_confined
  by (simp add: demo_state_def)

text \<open>
  C2. What a read of a workspace file returns is the content of a regular file that is not outside
  the workspace, and it is within the limit, under the same interference; and nothing outside
  changes.
\<close>

theorem read_confined:
  assumes "guest_confined X E" and "confined X (disk_of s)" and "r \<notin> X"
  shows "case bounded_read E r path n s of
      (Inr b, t) \<Rightarrow> int (length b) \<le> n \<and> (\<exists>i. i \<notin> X \<and> inodes (disk_of t) i = Some (Reg b)) \<and>
        untouched X (disk_of s) (disk_of t)
    | (Inl _, t) \<Rightarrow> untouched X (disk_of s) (disk_of t)"
proof -
  have s: "held X (disk_of s) (disk_of s)" using assms(2) by (simp add: held_def)
  obtain res t where run: "bounded_read E r path n s = (res, t)" by (cases "bounded_read E r path n s")
  from keptD [OF kept_bounded_read [OF assms(1,3)] s run] run show ?thesis
    by (cases res) (auto simp: held_def)
qed

lemma read_confined_witness:
  "fst (bounded_read quiet 1 ''data'' 10 demo_state) = Inr ''old'' \<and>
   (case bounded_read quiet 1 ''evil'' 10 demo_state of
      (Inr b, t) \<Rightarrow> int (length b) \<le> 10 \<and> (\<exists>i. i \<notin> {0, 2} \<and> inodes (disk_of t) i = Some (Reg b)) \<and>
        untouched {0, 2} (disk_of demo_state) (disk_of t)
    | (Inl _, t) \<Rightarrow> untouched {0, 2} (disk_of demo_state) (disk_of t))"
proof
  show "fst (bounded_read quiet 1 ''data'' 10 demo_state) = Inr ''old''" by code_simp
  show "case bounded_read quiet 1 ''evil'' 10 demo_state of
      (Inr b, t) \<Rightarrow> int (length b) \<le> 10 \<and> (\<exists>i. i \<notin> {0, 2} \<and> inodes (disk_of t) i = Some (Reg b)) \<and>
        untouched {0, 2} (disk_of demo_state) (disk_of t)
    | (Inl _, t) \<Rightarrow> untouched {0, 2} (disk_of demo_state) (disk_of t)"
    by (rule read_confined [OF quiet_confined]) (simp_all add: demo_state_def demo_confined)
qed

text \<open>
  C3. A write is all or nothing. Without a guest in between, whichever system call fails: a write
  that returns has stored the whole content under the path, and a write that raises has left
  every file under every path; in both cases no other directory entry of an existing file is
  lost or changed.
\<close>

theorem write_all_or_nothing:
  assumes "undisturbed E" and "disk_wf (disk_of s)"
    and "\<forall>p. entry (disk_of s) p (''.agentnest-'' @ token) = None"
    and "file_at (disk_of s) r q = Some b"
  shows "case atomic_write E r token path c s of
      (Inr _, t) \<Rightarrow> (\<exists>parts. relative_parts path = Inr parts \<and> file_at (disk_of t) r parts = Some c \<and>
        (file_at (disk_of t) r q = Some b \<or>
         last q = last parts \<and> dir_at (disk_of t) r (butlast q) = dir_at (disk_of t) r (butlast parts)))
    | (Inl _, t) \<Rightarrow> file_at (disk_of t) r q = Some b"
proof -
  obtain res t where run: "atomic_write E r token path c s = (res, t)"
    by (cases "atomic_write E r token path c s")
  show ?thesis
  proof (cases res)
    case (Inl e)
    with atomic_write_outcome [OF assms(1-3) run] grown_file [OF _ assms(4)] run show ?thesis by simp
  next
    case (Inr u)
    with atomic_write_outcome [OF assms(1-3) run] obtain cs f
      where p: "relative_parts path = Inr (cs @ [f])" and st: "stored (disk_of s) r cs f c (disk_of t)"
      by auto
    show ?thesis
      using stored_file [OF st assms(4)] stored_content [OF st] p run Inr by simp
  qed
qed

lemma demo_state_simps: "disk_of demo_state = demo_disk" "fds demo_state = 0"
  by (simp_all add: demo_state_def)

lemma demo_free: "\<forall>p. entry demo_disk p (''.agentnest-'' @ ''00'') = None"
  by (simp add: demo_disk_def entry_def)

lemma demo_wf: "disk_wf demo_disk"
  by (simp add: demo_disk_def disk_wf_def)

lemma write_all_or_nothing_witness:
  "case atomic_write quiet 1 ''00'' ''data'' ''new'' demo_state of
      (Inr _, t) \<Rightarrow> (\<exists>parts. relative_parts ''data'' = Inr parts \<and> file_at (disk_of t) 1 parts = Some ''new'' \<and>
        (file_at (disk_of t) 1 [''data''] = Some ''old'' \<or>
         last [''data''] = last parts \<and>
         dir_at (disk_of t) 1 (butlast [''data'']) = dir_at (disk_of t) 1 (butlast parts)))
    | (Inl _, t) \<Rightarrow> file_at (disk_of t) 1 [''data''] = Some ''old''"
proof (rule write_all_or_nothing)
  show "file_at (disk_of demo_state) 1 [''data''] = Some ''old''" by code_simp
  show "\<forall>p. entry (disk_of demo_state) p (''.agentnest-'' @ ''00'') = None"
    unfolding demo_state_simps by (rule demo_free)
qed (simp_all add: demo_state_simps demo_wf)

text \<open>
  What was written is read back: after a write that returned, on a host where no call fails
  and no guest interferes, reading the same path gives the content, if the limit allows its
  length; the read changes nothing.
\<close>

theorem read_after_write:
  assumes "calm E" and "disk_wf (disk_of s)"
    and "\<forall>p. entry (disk_of s) p (''.agentnest-'' @ token) = None"
    and "\<exists>parts. relative_parts path = Inr parts \<and> CHR 0x00 \<notin> set (concat parts)"
    and "fst (atomic_write E r token path c s) = Inr ()" and "int (length c) \<le> n"
  shows "\<exists>t. bounded_read E r path n (snd (atomic_write E r token path c s)) = (Inr c, t) \<and>
    disk_of t = disk_of (snd (atomic_write E r token path c s))"
proof -
  let ?t = "snd (atomic_write E r token path c s)"
  have "atomic_write E r token path c s = (Inr (), ?t)" using assms(5) by (simp add: prod_eq_iff)
  from atomic_write_outcome [OF calm_undisturbed [OF assms(1)] assms(2,3) this] obtain cs f
    where p: "relative_parts path = Inr (cs @ [f])" and st: "stored (disk_of s) r cs f c (disk_of ?t)"
    by auto
  have "\<forall>c \<in> set (cs @ [f]). CHR 0x00 \<notin> set c" using assms(4) p by auto
  from certain_run [OF certain_bounded_read [OF assms(1) p this stored_content [OF st] assms(6)] refl]
  show ?thesis by metis
qed

lemma read_after_write_witness:
  "\<exists>t. bounded_read quiet 1 ''sub/data'' 3 (snd (atomic_write quiet 1 ''00'' ''sub/data'' ''new'' demo_state)) = (Inr ''new'', t) \<and>
    disk_of t = disk_of (snd (atomic_write quiet 1 ''00'' ''sub/data'' ''new'' demo_state))"
proof (rule read_after_write)
  show "\<exists>parts. relative_parts ''sub/data'' = Inr parts \<and> CHR 0x00 \<notin> set (concat parts)"
    by (rule exI [of _ "[''sub'', ''data'']"]) code_simp
  show "fst (atomic_write quiet 1 ''00'' ''sub/data'' ''new'' demo_state) = Inr ()" by code_simp
  show "\<forall>p. entry (disk_of demo_state) p (''.agentnest-'' @ ''00'') = None"
    unfolding demo_state_simps by (rule demo_free)
qed (simp_all add: demo_state_simps demo_wf)

text \<open>
  A write gives back every descriptor it opens, on every outcome, whatever the guest does and
  whichever call fails.
\<close>

theorem write_descriptors: "fds (snd (atomic_write E r token path c s)) = fds s"
proof -
  have "triple (\<lambda>x. fds x = fds s) (atomic_write E r token path c) (\<lambda>_ x. fds x = fds s) (\<lambda>_ x. fds x = fds s)"
    using fd_atomic_write [of 0 E r token path c] by (simp add: fd_step_def)
  from tripleD [OF this refl, of "fst (atomic_write E r token path c s)" "snd (atomic_write E r token path c s)"]
  show ?thesis by (auto split: sum.splits)
qed

text \<open>
  A read does not: reading a directory raises and leaves its descriptor open, because
  \<open>os.fdopen\<close> fails before the \<open>with\<close> block that would close it.
\<close>

theorem read_leaks_directory:
  "case bounded_read quiet 0 ''sub'' 10 \<lparr>disk_of = \<lparr>inodes = [0 \<mapsto> Dir [(''sub'', 1)], 1 \<mapsto> Dir []],
      fresh = 2\<rparr>, ticks = 0, fds = 0\<rparr> of
    (Inl e, t) \<Rightarrow> exn_class e = FileAccessError \<and> fds t = 1 | (Inr _, _) \<Rightarrow> False"
  by code_simp

end
