(* ===== verification/Formatting.thy ===== *)
theory Formatting
  imports PyText
begin

text \<open>
  Number formatting of the standard library that the source relies on: \<open>f"{x:.0f}"\<close> and
  \<open>f"{x:g}"\<close>, on exact rationals, with ties rounded to even.
\<close>

definition round_half_even :: "rat \<Rightarrow> int" where
  "round_half_even x = (let n = \<lfloor>x\<rfloor>; r = x - of_int n in
     if r < 1 / 2 then n else if r > 1 / 2 then n + 1 else if even n then n else n + 1)"

text \<open>\<open>.0f\<close>: a negative number that rounds to zero keeps its sign.\<close>

definition fmt_0f :: "rat \<Rightarrow> str" where
  "fmt_0f x = (let n = round_half_even x in if n = 0 \<and> x < 0 then ''-0'' else int_text n)"

text \<open>The decimal exponent of a positive number: \<open>10 ^ e \<le> x < 10 ^ (e + 1)\<close>.\<close>

definition decimal_exponent :: "rat \<Rightarrow> int" where
  "decimal_exponent x =
     (if x \<ge> 1 then int (length (nat_digits (nat \<lfloor>x\<rfloor>))) - 1
      else - int (length (nat_digits (nat (\<lceil>1 / x\<rceil> - 1)))))"

definition pow10 :: "int \<Rightarrow> rat" where
  "pow10 e = (if e \<ge> 0 then 10 ^ nat e else 1 / 10 ^ nat (- e))"

text \<open>Six significant digits and the exponent after rounding.\<close>

definition significant :: "rat \<Rightarrow> int \<times> int" where
  "significant x = (let e = decimal_exponent x; n = round_half_even (x / pow10 (e - 5)) in
     if n = 1000000 then (100000, e + 1) else (n, e))"

definition strip_zeros :: "str \<Rightarrow> str" where
  "strip_zeros s = rstrip_by (\<lambda>c. c = CHR ''0'') s"

definition with_point :: "str \<Rightarrow> str \<Rightarrow> str" where
  "with_point whole decimals = (let f = strip_zeros decimals in if f = [] then whole else whole @ ''.'' @ f)"

definition exponent_text :: "int \<Rightarrow> str" where
  "exponent_text e = (let ds = nat_digits (nat \<bar>e\<bar>) in
     (if e < 0 then ''e-'' else ''e+'') @ (if length ds < 2 then CHR ''0'' # ds else ds))"

definition fmt_g_pos :: "rat \<Rightarrow> str" where
  "fmt_g_pos x = (case significant x of (n, e) \<Rightarrow>
     let ds = nat_digits (nat n) in
     if -4 \<le> e \<and> e < 6
     then (if e \<ge> 0 then with_point (take (nat e + 1) ds) (drop (nat e + 1) ds)
           else with_point ''0'' (replicate (nat (- e - 1)) CHR ''0'' @ ds))
     else with_point (take 1 ds) (drop 1 ds) @ exponent_text e)"

definition fmt_g :: "rat \<Rightarrow> str" where
  "fmt_g x = (if x = 0 then ''0'' else if x < 0 then CHR ''-'' # fmt_g_pos (- x) else fmt_g_pos x)"

lemma round_half_even_int [simp]: "round_half_even (of_int n) = n"
  by (simp add: round_half_even_def)

text \<open>The rounded value is within one half.\<close>

lemma round_half_even_near: "\<bar>of_int (round_half_even x) - x\<bar> \<le> 1 / 2"
proof -
  define n where "n = \<lfloor>x\<rfloor>"
  have "of_int n \<le> x" "x < of_int n + 1" unfolding n_def by linarith+
  then show ?thesis
    unfolding round_half_even_def Let_def n_def [symmetric] by (auto simp: abs_le_iff)
qed

lemma fmt_0f_int: "fmt_0f (of_int n) = int_text n"
  by (auto simp: fmt_0f_def Let_def)

end
