(* ===== verification/Docker_Host.thy ===== *)
theory Docker_Host
  imports Backend Workspace Formatting
begin

text \<open>
  What the Docker runtime acts on: the host's disk, with the temporary directories on it, and the
  Docker daemon behind its SDK. The SDK is a third-party package: a call of it appends to the
  trace of calls, and the environment says, by the number of the call and the call, whether it
  raises and what it returns. \<open>owned\<close> lists the directories, containers, networks and images that were made and
  not yet removed.
\<close>

section \<open>Calls of the SDK\<close>

text \<open>The keyword arguments of \<open>client.containers.create\<close>; \<open>None\<close> stands for a key left out.\<close>

record create_options =
  co_image :: str
  co_command :: "str list"
  co_environment :: environment
  co_working_dir :: str
  co_user :: str
  co_network_disabled :: bool
  co_read_only :: bool
  co_privileged :: bool
  co_cap_drop :: "str list"
  co_security_opt :: "str list"
  co_mem_limit :: memory_limit
  co_nano_cpus :: int
  co_pids_limit :: int
  co_init :: bool
  co_tmpfs :: "(str, str) dict"
  co_workspace :: nat
  co_bind :: str
  co_labels :: "(str, str) dict"
  co_runtime :: "str option"
  co_gpu_count :: "int option"
  co_network :: "str option"

text \<open>The keyword arguments of \<open>client.containers.run\<close> for the proxy.\<close>

record sidecar_options =
  so_image :: str
  so_command :: "str list"
  so_environment :: environment
  so_user :: str
  so_read_only :: bool
  so_cap_drop :: "str list"
  so_security_opt :: "str list"
  so_pids_limit :: int
  so_mem_limit :: str
  so_network :: str
  so_labels :: "(str, str) dict"
  so_script_bind :: str
  so_script_mode :: str

datatype dcall =
    FromEnv | Ping | Info | ImageGet str | ImagePull str | ImageRemove str
  | NetworkCreate str bool "(str, str) dict" | SidecarRun sidecar_options
  | NetworkConnect nat nat "str list" | NetworkReload nat | NetworkDisconnect nat nat | NetworkRemove nat
  | ContainerCreate create_options | ContainerStart nat | ContainerRemove nat
  | ExecRun nat "str list" str | Commit nat | ContainerLogs nat
  | ExecCreate nat "str list" environment str str | ExecInspect nat
  | GetArchive nat | PutArchive nat bytes
  | ContainerList | NetworkList
  | ArchiveNext | HostMkdir str | HostOpen str | HostWrite str bytes | HostReplace str str | HostUnlink str | HostRead str | HostStat str

datatype resource = TempDir nat | Box nat | Net nat | Img str

text \<open>What the queue of the streaming worker gives: an output of the process, an exception of the
  worker, the end, or nothing before the deadline.\<close>

datatype arrival = Output "bytes option" "bytes option" | Failure exn | Finished | Nothing

text \<open>A container or network as the daemon lists it.\<close>

record listed =
  li_id :: nat
  li_name :: str
  li_labels :: "(str, str) dict option"

record docker_env =
  dk_os :: os_env
  dk_fault :: "nat \<Rightarrow> dcall \<Rightarrow> exn option"
  dk_security_options :: "nat \<Rightarrow> str list"
  dk_probe :: "nat \<Rightarrow> int"
  dk_image_id :: "nat \<Rightarrow> str"
  dk_attached :: "nat \<Rightarrow> nat list"
  dk_containers :: "nat \<Rightarrow> listed list"
  dk_networks :: "nat \<Rightarrow> listed list"
  dk_arrivals :: "nat \<Rightarrow> arrival list"
  dk_exit :: "nat \<Rightarrow> int option"
  dk_output :: "nat \<Rightarrow> bytes"
  dk_archive :: "nat \<Rightarrow> bytes list"
  dk_accepts :: "nat \<Rightarrow> bool"
  dk_sha256 :: "bytes \<Rightarrow> str"
  dk_monotonic :: "nat \<Rightarrow> rat"
  dk_time :: "nat \<Rightarrow> rat"
  dk_uuid :: "nat \<Rightarrow> str"
  dk_token :: "nat \<Rightarrow> str"

record docker_world =
  host :: os_state
  owned :: "resource list"
  dcalls :: "dcall list"
  draws :: nat
  saved :: "(str, bytes) dict"

type_synonym 'a docker = "(exn, docker_world, 'a) comp"

text \<open>A call answers its number, which names the object it made.\<close>

definition sdk :: "docker_env \<Rightarrow> dcall \<Rightarrow> nat docker" where
  "sdk D c = (\<lambda>w.
     let n = length (dcalls w); w' = w\<lparr>dcalls := dcalls w @ [c]\<rparr> in
     case dk_fault D n c of Some e \<Rightarrow> (Inl e, w') | None \<Rightarrow> (Inr n, w'))"

definition sdk_do :: "docker_env \<Rightarrow> dcall \<Rightarrow> unit docker" where
  "sdk_do D c = bnd (sdk D c) (\<lambda>_. ret ())"

text \<open>A reading of a clock, or a fresh identifier.\<close>

definition draw :: "(nat \<Rightarrow> 'a) \<Rightarrow> 'a docker" where
  "draw f = (\<lambda>w. (Inr (f (draws w)), w\<lparr>draws := Suc (draws w)\<rparr>))"

definition own :: "resource \<Rightarrow> unit docker" where
  "own r = modify (\<lambda>w. w\<lparr>owned := r # owned w\<rparr>)"

definition disown :: "resource \<Rightarrow> unit docker" where
  "disown r = modify (\<lambda>w. w\<lparr>owned := removeAll r (owned w)\<rparr>)"

text \<open>Calls that make or remove something.\<close>

definition sdk_make :: "docker_env \<Rightarrow> dcall \<Rightarrow> (nat \<Rightarrow> resource) \<Rightarrow> nat docker" where
  "sdk_make D c f = bnd (sdk D c) (\<lambda>n. next_do (own (f n)) (ret n))"

definition sdk_remove :: "docker_env \<Rightarrow> dcall \<Rightarrow> resource \<Rightarrow> unit docker" where
  "sdk_remove D c r = next_do (sdk_do D c) (disown r)"

definition on_host :: "'a syscall \<Rightarrow> 'a docker" where
  "on_host m = (\<lambda>w. case m (host w) of (r, h) \<Rightarrow> (r, w\<lparr>host := h\<rparr>))"

text \<open>\<open>images.get\<close>, and \<open>images.pull\<close> when there is none.\<close>

definition ensure_image :: "docker_env \<Rightarrow> str \<Rightarrow> unit docker" where
  "ensure_image D img = try_except (sdk_do D (ImageGet img))
     (\<lambda>e. if exn_isa e ImageNotFound then sdk_do D (ImagePull img) else raise e)"

section \<open>The files of snapshots\<close>

text \<open>Snapshots are files of the host, under the text of their path. A call on them may fail like one of the
  daemon; \<open>ArchiveNext\<close> is the next chunk of an archive that the daemon streams.\<close>

definition save_open :: "docker_env \<Rightarrow> str \<Rightarrow> unit docker" where
  "save_open D p = next_do (sdk_do D (HostOpen p)) (modify (\<lambda>w. w\<lparr>saved := dict_set p [] (saved w)\<rparr>))"

definition save_write :: "docker_env \<Rightarrow> str \<Rightarrow> bytes \<Rightarrow> unit docker" where
  "save_write D p chunk = next_do (sdk_do D (HostWrite p chunk))
     (modify (\<lambda>w. w\<lparr>saved := dict_set p ((case map_of (saved w) p of None \<Rightarrow> [] | Some old \<Rightarrow> old) @ chunk) (saved w)\<rparr>))"

definition save_replace :: "docker_env \<Rightarrow> str \<Rightarrow> str \<Rightarrow> unit docker" where
  "save_replace D p q = next_do (sdk_do D (HostReplace p q)) (\<lambda>w. case map_of (saved w) p of
     None \<Rightarrow> (Inl no_entry, w)
   | Some content \<Rightarrow> (Inr (), w\<lparr>saved := dict_set q content (dict_pop p (saved w))\<rparr>))"

definition save_unlink :: "docker_env \<Rightarrow> str \<Rightarrow> unit docker" where
  "save_unlink D p = next_do (sdk_do D (HostUnlink p)) (\<lambda>w. case map_of (saved w) p of
     None \<Rightarrow> (Inl no_entry, w) | Some _ \<Rightarrow> (Inr (), w\<lparr>saved := dict_pop p (saved w)\<rparr>))"

definition save_read :: "docker_env \<Rightarrow> str \<Rightarrow> bytes docker" where
  "save_read D p = next_do (sdk_do D (HostRead p)) (\<lambda>w. case map_of (saved w) p of
     None \<Rightarrow> (Inl no_entry, w) | Some content \<Rightarrow> (Inr content, w))"

definition save_size :: "docker_env \<Rightarrow> str \<Rightarrow> int docker" where
  "save_size D p = next_do (sdk_do D (HostStat p)) (\<lambda>w. case map_of (saved w) p of
     None \<Rightarrow> (Inl no_entry, w) | Some content \<Rightarrow> (Inr (int (length content)), w))"

text \<open>\<open>str(path)\<close>, \<open>path.parent\<close>, and the name \<open>.<name>.tmp\<close> next to a path.\<close>

definition path_text :: "str list \<Rightarrow> str" where
  "path_text parts = (case parts of [] \<Rightarrow> ''.''
     | c # cs \<Rightarrow> if slash \<in> set c then c @ join_with ''/'' cs else join_with ''/'' parts)"

definition path_parent :: "str list \<Rightarrow> str list" where
  "path_parent parts = (case parts of [c] \<Rightarrow> if slash \<in> set c then [c] else [] | _ \<Rightarrow> butlast parts)"

definition snapshot_temporary :: "str \<Rightarrow> exn + str" where
  "snapshot_temporary destination =
     (let parts = path_parts destination in
      if parts = [] \<or> slash \<in> set (last parts)
      then Inl (value_error (''PosixPath('' @ py_repr (path_text parts) @ '') has an empty name''))
      else Inr (path_text (butlast parts @ [''.'' @ last parts @ ''.tmp''])))"

section \<open>Temporary directories\<close>

text \<open>\<open>tempfile.mkdtemp\<close>: a new directory, named by its inode.\<close>

definition mkdtemp :: "docker_env \<Rightarrow> nat docker" where
  "mkdtemp D = bnd (on_host (syscall (dk_os D) (\<lambda>d. Inr (fresh d, alloc (Dir []) d))))
     (\<lambda>r. next_do (own (TempDir r)) (ret r))"

text \<open>\<open>shutil.rmtree(path, ignore_errors=True)\<close>.\<close>

definition rmtree :: "nat \<Rightarrow> unit docker" where
  "rmtree r = disown (TempDir r)"

text \<open>\<open>Path.mkdir(parents=True, exist_ok=True)\<close> below a directory. A component \<open>..\<close>, which no
  normalised working directory has, is not followed: the call fails.\<close>

primrec mkdir_parents :: "os_env \<Rightarrow> nat \<Rightarrow> str list \<Rightarrow> nat syscall" where
  "mkdir_parents E r [] = ret r"
| "mkdir_parents E r (c # cs) =
     bnd (named c (syscall E (\<lambda>d.
       if c = ''..'' then Inl (os_error ''outside the model'')
       else case entry d r c of
         Some j \<Rightarrow> if is_dir d j then Inr (j, d) else Inl (Exn FileExistsError ''File exists'')
       | None \<Rightarrow> if is_dir d r
           then Inr (fresh d, set_entry r c (Some (fresh d)) (alloc (Dir []) d)) else Inl no_entry)))
     (\<lambda>j. mkdir_parents E j cs)"

text \<open>\<open>shutil.copytree(src, dst, symlinks=True, dirs_exist_ok=True)\<close>: links are copied as links; a
  named pipe makes the call fail after the rest has been copied. The first argument bounds the
  depth; the number of inodes is enough for a tree.\<close>

primrec copy_entries :: "nat \<Rightarrow> (str, nat) dict \<Rightarrow> nat \<Rightarrow> disk \<Rightarrow> bool \<times> disk" where
  "copy_entries 0 es dst d = (es = [], d)"
| "copy_entries (Suc n) es dst d = fold (\<lambda>e s.
     case inodes (snd s) (snd e) of
       Some (Reg c) \<Rightarrow> (fst s, set_entry dst (fst e) (Some (fresh (snd s))) (alloc (Reg c) (snd s)))
     | Some (Sym t) \<Rightarrow> (fst s, set_entry dst (fst e) (Some (fresh (snd s))) (alloc (Sym t) (snd s)))
     | Some (Dir sub) \<Rightarrow>
         (case copy_entries n sub (fresh (snd s))
             (set_entry dst (fst e) (Some (fresh (snd s))) (alloc (Dir []) (snd s))) of
           (ok, d') \<Rightarrow> (fst s \<and> ok, d'))
     | _ \<Rightarrow> (False, snd s)) es (True, d)"

definition copytree_disk :: "nat \<Rightarrow> nat \<Rightarrow> disk \<Rightarrow> bool \<times> disk" where
  "copytree_disk src dst d = (case inodes d src of
     Some (Dir es) \<Rightarrow> copy_entries (fresh d) es dst d | _ \<Rightarrow> (False, d))"

text \<open>The copy is made even when it ends in an error.\<close>

definition copytree :: "os_env \<Rightarrow> nat \<Rightarrow> nat \<Rightarrow> unit syscall" where
  "copytree E src dst = bnd (syscall E (\<lambda>d. Inr (copytree_disk src dst d)))
     (\<lambda>ok. guard_or ok (os_error ''copytree failed''))"

end
