(* ===== verification/Egress.thy ===== *)
theory Egress
  imports Docker_Host
begin

text \<open>
  \<open>src/agentnest/egress.py\<close>: the internal network and the proxy container of one sandbox.
\<close>

definition proxy_alias :: str where
  "proxy_alias = ''agentnest-egress''"

definition proxy_port :: int where
  "proxy_port = 8080"

definition proxy_uid :: int where
  "proxy_uid = 65532"

record sidecar =
  sc_name :: str
  sc_domains :: "str list"
  sc_image :: str
  sc_labels :: "(str, str) dict"
  sc_network :: "nat option"
  sc_proxy :: "nat option"

type_synonym 'a sidecar_op = "(exn, sidecar \<times> docker_world, 'a) comp"

text \<open>\<open>EgressSidecar.__init__\<close>.\<close>

definition make_sidecar :: "str \<Rightarrow> str list \<Rightarrow> str \<Rightarrow> (str, str) dict \<Rightarrow> exn + sidecar" where
  "make_sidecar sandbox_id domains img labels =
     (if domains = [] then Inl (Exn UnsupportedCapabilityError
          (''egress allowlist requires at least one domain; CIDR-only allowlists '' @
           ''need a policy-aware backend such as Kubernetes''))
      else Inr \<lparr>sc_name = ''agentnest-egress-'' @ take 12 sandbox_id, sc_domains = domains,
        sc_image = img, sc_labels = labels, sc_network = None, sc_proxy = None\<rparr>)"

definition network_name :: "sidecar \<Rightarrow> exn + str" where
  "network_name sc = (case sc_network sc of
     None \<Rightarrow> Inl (Exn RuntimeNotAvailableError ''egress network has not been created'')
   | Some _ \<Rightarrow> Inr (sc_name sc))"

definition proxy_environment :: environment where
  "proxy_environment =
     (let endpoint = ''http://'' @ proxy_alias @ '':'' @ int_text proxy_port in
      [(''HTTP_PROXY'', endpoint), (''HTTPS_PROXY'', endpoint), (''http_proxy'', endpoint),
       (''https_proxy'', endpoint), (''NO_PROXY'', ''localhost,127.0.0.1''),
       (''no_proxy'', ''localhost,127.0.0.1'')])"

definition egress_labels :: "(str, str) dict \<Rightarrow> str \<Rightarrow> (str, str) dict" where
  "egress_labels base sandbox_id = dict_set ''agentnest.sandbox'' sandbox_id base"

definition as_domains :: "str list \<Rightarrow> str list \<Rightarrow> exn + str list" where
  "as_domains domains cidrs =
     (if cidrs \<noteq> [] then Inl (Exn UnsupportedCapabilityError
          (''the Docker egress proxy filters by domain name and cannot enforce raw '' @
           ''CIDR allowlists; use the Kubernetes backend for CIDR NetworkPolicies''))
      else Inr domains)"

text \<open>\<open>EgressSidecar.destroy\<close>.\<close>

definition sidecar_destroy :: "docker_env \<Rightarrow> unit sidecar_op" where
  "sidecar_destroy D =
     bnd (gets (sc_proxy \<circ> fst)) (\<lambda>proxy.
     bnd (gets (sc_network \<circ> fst)) (\<lambda>net.
     next_do (modify (\<lambda>(sc, w). (sc\<lparr>sc_proxy := None, sc_network := None\<rparr>, w)))
     (next_do (case proxy of None \<Rightarrow> ret ()
        | Some p \<Rightarrow> suppressing (\<lambda>e. exn_isa e DockerException)
            (on_snd (sdk_remove D (ContainerRemove p) (Box p))))
     (case net of None \<Rightarrow> ret ()
        | Some n \<Rightarrow> suppressing (\<lambda>e. exn_isa e DockerException)
            (on_snd (bnd (sdk D (NetworkReload n)) (\<lambda>k.
               next_do (for_each (dk_attached D k) (\<lambda>c.
                   suppressing (\<lambda>e. exn_isa e DockerException) (sdk_do D (NetworkDisconnect n c))))
                 (sdk_remove D (NetworkRemove n) (Net n)))))))))"

definition sidecar_run_options :: "sidecar \<Rightarrow> sidecar_options" where
  "sidecar_run_options sc =
     \<lparr>so_image = sc_image sc, so_command = [''python'', ''/agentnest/_egress_proxy.py''],
      so_environment = [(''AGENTNEST_ALLOW'', join_with '','' (sc_domains sc)),
        (''AGENTNEST_PROXY_PORT'', int_text proxy_port), (''PYTHONUNBUFFERED'', ''1'')],
      so_user = int_text proxy_uid @ '':'' @ int_text proxy_uid, so_read_only = True,
      so_cap_drop = [''ALL''], so_security_opt = [''no-new-privileges:true''], so_pids_limit = 128,
      so_mem_limit = ''128m'', so_network = ''bridge'',
      so_labels = dict_set ''agentnest.role'' ''egress-proxy'' (sc_labels sc),
      so_script_bind = ''/agentnest/_egress_proxy.py'', so_script_mode = ''ro''\<rparr>"

text \<open>\<open>EgressSidecar.start\<close>.\<close>

definition sidecar_launch :: "docker_env \<Rightarrow> unit sidecar_op" where
  "sidecar_launch D =
     bnd (gets fst) (\<lambda>sc.
     bnd (on_snd (sdk_make D (NetworkCreate (sc_name sc) True (sc_labels sc)) Net)) (\<lambda>n.
     next_do (modify (\<lambda>(sc, w). (sc\<lparr>sc_network := Some n\<rparr>, w)))
     (bnd (on_snd (sdk_make D (SidecarRun (sidecar_run_options sc)) Box)) (\<lambda>p.
     next_do (modify (\<lambda>(sc, w). (sc\<lparr>sc_proxy := Some p\<rparr>, w)))
       (on_snd (sdk_do D (NetworkConnect n p [proxy_alias])))))))"

definition sidecar_start :: "docker_env \<Rightarrow> unit sidecar_op" where
  "sidecar_start D =
     bnd (gets (sc_image \<circ> fst)) (\<lambda>img.
     next_do (on_snd (ensure_image D img))
       (try_except (sidecar_launch D)
          (\<lambda>e. if exn_isa e DockerException
               then next_do (sidecar_destroy D)
                 (raise (Exn RuntimeNotAvailableError (''could not start egress proxy: '' @ exn_msg e)))
               else raise e)))"

text \<open>\<open>EgressSidecar.logs\<close>.\<close>

definition sidecar_logs :: "docker_env \<Rightarrow> str sidecar_op" where
  "sidecar_logs D = bnd (gets (sc_proxy \<circ> fst)) (\<lambda>proxy. case proxy of
     None \<Rightarrow> ret []
   | Some p \<Rightarrow> try_except (bnd (on_snd (sdk D (ContainerLogs p))) (\<lambda>n. ret (utf8_decode (dk_output D n))))
       (\<lambda>e. if exn_isa e DockerException \<or> exn_isa e OSError then ret [] else raise e))"

end
