(* ===== verification/Docker.thy ===== *)
theory Docker
  imports Egress
begin

text \<open>
  \<open>src/agentnest/runtime/docker.py\<close>: one sandbox in a hardened container. The state is the
  fields of the \<open>DockerRuntime\<close> object; the world is \<open>docker_world\<close>. The streaming worker and its
  queue are the script \<open>dk_arrivals\<close> of the exec call.
\<close>

section \<open>State\<close>

record docker_rt =
  dr_client :: bool
  dr_container :: "nat option"
  dr_workspace :: "nat option"
  dr_config :: "sandbox_config option"
  dr_logs :: "str list"
  dr_runtime_name :: "str option"
  dr_egress :: "sidecar option"
  dr_has_timeout :: bool
  dr_owns_image :: "str option"

type_synonym 'a docker_op = "(docker_rt, docker_world, 'a) runtime_op"

definition new_docker :: "bool \<Rightarrow> str option \<Rightarrow> docker_rt" where
  "new_docker client runtime_name =
     \<lparr>dr_client = client, dr_container = None, dr_workspace = None, dr_config = None, dr_logs = [],
      dr_runtime_name = runtime_name, dr_egress = None, dr_has_timeout = False, dr_owns_image = None\<rparr>"

definition set_rt :: "(docker_rt \<Rightarrow> docker_rt) \<Rightarrow> unit docker_op" where
  "set_rt f = modify (\<lambda>(b, w). (f b, w))"

definition get_rt :: "(docker_rt \<Rightarrow> 'a) \<Rightarrow> 'a docker_op" where
  "get_rt f = gets (f \<circ> fst)"

definition sandbox_user :: str where
  "sandbox_user = ''65532:65532''"

definition default_path :: str where
  "default_path = ''/workspace/.local/bin:/usr/local/bin:/usr/local/sbin:/usr/sbin:/usr/bin:/sbin:/bin''"

definition backstop_grace :: rat where
  "backstop_grace = 15"

definition timeout_exit_codes :: "int list" where
  "timeout_exit_codes = [124, 137]"

section \<open>Removing everything\<close>

text \<open>The common part of \<open>destroy\<close> and \<open>_cleanup_failed_create\<close>: the fields are reset first.\<close>

definition forget :: "docker_rt \<Rightarrow> docker_rt" where
  "forget b = b\<lparr>dr_container := None, dr_workspace := None, dr_config := None, dr_egress := None,
     dr_owns_image := None\<rparr>"

definition option_do :: "'a option \<Rightarrow> ('a \<Rightarrow> unit docker_op) \<Rightarrow> unit docker_op" where
  "option_do x f = (case x of None \<Rightarrow> ret () | Some y \<Rightarrow> f y)"

definition remove_container :: "docker_env \<Rightarrow> nat \<Rightarrow> unit docker_op" where
  "remove_container D c = on_snd (sdk_remove D (ContainerRemove c) (Box c))"

definition remove_image :: "docker_env \<Rightarrow> str \<Rightarrow> unit docker_op" where
  "remove_image D img = suppressing (\<lambda>e. exn_isa e DockerException)
     (on_snd (sdk_remove D (ImageRemove img) (Img img)))"

text \<open>An operation of the sidecar on its own state.\<close>

definition with_sidecar :: "sidecar \<Rightarrow> 'a sidecar_op \<Rightarrow> 'a docker" where
  "with_sidecar sc m = (\<lambda>w. case m (sc, w) of (r, (_, w')) \<Rightarrow> (r, w'))"

definition release :: "docker_env \<Rightarrow> (exn \<Rightarrow> bool) \<Rightarrow> docker_rt \<Rightarrow> unit docker_op" where
  "release D ignored b =
     next_do (option_do (dr_container b) (\<lambda>c. suppressing ignored (remove_container D c)))
     (next_do (option_do (dr_workspace b) (\<lambda>r. on_snd (rmtree r)))
     (next_do (option_do (dr_egress b) (\<lambda>sc. on_snd (with_sidecar sc (sidecar_destroy D))))
        (option_do (dr_owns_image b) (\<lambda>img. when_do (dr_client b) (remove_image D img)))))"

definition teardown :: "docker_env \<Rightarrow> (exn \<Rightarrow> bool) \<Rightarrow> unit docker_op" where
  "teardown D ignored = bnd (get_rt id) (\<lambda>b. next_do (set_rt forget) (release D ignored b))"

text \<open>\<open>destroy\<close> ignores \<open>NotFound\<close> and \<open>APIError\<close> of the container's removal,
  \<open>_cleanup_failed_create\<close> every \<open>DockerException\<close>.\<close>

definition docker_destroy :: "docker_env \<Rightarrow> unit docker_op" where
  "docker_destroy D = teardown D (\<lambda>e. exn_isa e NotFound \<or> exn_isa e APIError)"

definition cleanup_failed_create :: "docker_env \<Rightarrow> unit docker_op" where
  "cleanup_failed_create D = teardown D (\<lambda>e. exn_isa e DockerException)"

section \<open>Starting a container\<close>

definition relative_workdir :: "str \<Rightarrow> str" where
  "relative_workdir wd = lstrip_by (\<lambda>c. c = CHR ''/'') (removeprefix ''/workspace'' wd)"

definition prepare_workspace :: "docker_env \<Rightarrow> sandbox_config \<Rightarrow> nat docker" where
  "prepare_workspace D cfg =
     bnd (mkdtemp D) (\<lambda>r.
     next_do (on_host (sys_fchmod (dk_os D) r))
     (let wd = relative_workdir (workdir cfg) in
      next_do (when_do (wd \<noteq> []) (on_host (bnd (mkdir_parents (dk_os D) r (path_parts wd)) (\<lambda>j.
          sys_fchmod (dk_os D) j))))
        (ret r)))"

definition container_labels :: "rat \<Rightarrow> sandbox_config \<Rightarrow> (str, str) dict" where
  "container_labels now cfg = [(''agentnest.managed'', ''true''),
     (''agentnest.deadline'', fmt_0f (now + lifetime cfg))]"

definition container_environment :: "environment \<Rightarrow> sandbox_config \<Rightarrow> environment" where
  "container_environment proxy_env cfg = dict_merge (dict_merge
     [(''HOME'', ''/workspace/.agentnest-home''), (''PATH'', default_path),
      (''PYTHONIOENCODING'', ''utf-8''), (''PYTHONUNBUFFERED'', ''1''),
      (''PYTHONUSERBASE'', ''/workspace/.local'')] proxy_env) (cfg_environment cfg)"

definition security_options :: "security_policy \<Rightarrow> str list" where
  "security_options p = [''no-new-privileges:true''] @
     (case seccomp_profile p of None \<Rightarrow> [] | Some s \<Rightarrow> if s = [] then [] else [''seccomp='' @ s]) @
     (case apparmor_profile p of None \<Rightarrow> [] | Some s \<Rightarrow> if s = [] then [] else [''apparmor='' @ s])"

definition container_options ::
  "sandbox_config \<Rightarrow> nat \<Rightarrow> str option \<Rightarrow> environment \<Rightarrow> str option \<Rightarrow> (str, str) dict \<Rightarrow> create_options" where
  "container_options cfg ws runtime_name proxy_env network labels =
     \<lparr>co_image = image_name cfg, co_command = [''sh'', ''-c'', ''while :; do sleep 3600; done''],
      co_environment = container_environment proxy_env cfg, co_working_dir = workdir cfg,
      co_user = sandbox_user, co_network_disabled = (np_mode (sp_network (policy cfg)) = DENY),
      co_read_only = read_only_root cfg, co_privileged = False, co_cap_drop = [''ALL''],
      co_security_opt = security_options (policy cfg), co_mem_limit = memory (limits cfg),
      co_nano_cpus = \<lfloor>cpus (limits cfg) * 1000000000\<rfloor>, co_pids_limit = pids (limits cfg),
      co_init = True,
      co_tmpfs = [(''/tmp'', ''rw,noexec,nosuid,nodev,size=64m,mode=1777''),
        (''/run'', ''rw,noexec,nosuid,nodev,size=16m,mode=755'')],
      co_workspace = ws, co_bind = ''/workspace'', co_labels = labels, co_runtime = runtime_name,
      co_gpu_count = (if gpus (limits cfg) \<noteq> 0 then Some (gpus (limits cfg)) else None),
      co_network = network\<rparr>"

text \<open>\<open>self._egress.start()\<close>.\<close>

definition run_sidecar :: "docker_env \<Rightarrow> sidecar \<Rightarrow> unit docker_op" where
  "run_sidecar D sc = (\<lambda>(b, w). case sidecar_start D (sc, w) of
     (r, (sc', w')) \<Rightarrow> (r, (b\<lparr>dr_egress := Some sc'\<rparr>, w')))"

definition egress_network :: "str option docker_op" where
  "egress_network = bnd (get_rt dr_egress) (\<lambda>s. case s of
     None \<Rightarrow> ret None
   | Some sc \<Rightarrow> bnd (of_sum (network_name sc)) (\<lambda>net. ret (Some net)))"

definition start_egress ::
  "docker_env \<Rightarrow> sandbox_config \<Rightarrow> (str, str) dict \<Rightarrow> (environment \<times> str option) docker_op" where
  "start_egress D cfg labels =
     (if np_mode (sp_network (policy cfg)) \<noteq> ALLOWLIST then ret ([], None)
      else bnd (on_snd (draw (dk_uuid D))) (\<lambda>ref.
       bnd (of_sum (make_sidecar ref (np_domains (sp_network (policy cfg)))
           (egress_proxy_image (policy cfg)) (egress_labels labels ref))) (\<lambda>sc.
       next_do (set_rt (\<lambda>b. b\<lparr>dr_egress := Some sc\<rparr>))
       (next_do (run_sidecar D sc)
       (bnd egress_network (\<lambda>net. ret (proxy_environment, net)))))))"

definition detect_timeout :: "docker_env \<Rightarrow> bool docker_op" where
  "detect_timeout D = bnd (get_rt dr_container) (\<lambda>c. case c of
     None \<Rightarrow> ret False
   | Some c \<Rightarrow> try_except
       (bnd (on_snd (sdk D (ExecRun c [''sh'', ''-c'', ''command -v timeout >/dev/null 2>&1''] sandbox_user)))
         (\<lambda>n. ret (dk_probe D n = 0)))
       (\<lambda>e. if exn_isa e DockerException \<or> exn_isa e OSError then ret False else raise e))"

definition connect_client :: "docker_env \<Rightarrow> unit docker_op" where
  "connect_client D = bnd (get_rt dr_client) (\<lambda>have.
     next_do (when_do (\<not> have) (on_snd (sdk_do D FromEnv)))
     (next_do (on_snd (sdk_do D Ping)) (set_rt (\<lambda>b. b\<lparr>dr_client := True\<rparr>))))"

definition require_rootless :: "docker_env \<Rightarrow> sandbox_config \<Rightarrow> unit docker_op" where
  "require_rootless D cfg = when_do (rootless (policy cfg))
     (bnd (on_snd (sdk D Info)) (\<lambda>n.
      guard_or (contains (lower (join_with '' '' (dk_security_options D n))) ''rootless'')
        (Exn UnsupportedCapabilityError ''security policy requires a rootless Docker daemon'')))"

text \<open>The \<open>try\<close> block of \<open>_boot\<close>.\<close>

definition boot_container :: "docker_env \<Rightarrow> sandbox_config \<Rightarrow> nat \<Rightarrow> (str, str) dict \<Rightarrow> unit docker_op" where
  "boot_container D cfg ws labels =
     next_do (connect_client D)
     (next_do (require_rootless D cfg)
     (next_do (on_snd (ensure_image D (image_name cfg)))
     (bnd (start_egress D cfg labels) (\<lambda>(proxy_env, network).
      bnd (get_rt dr_runtime_name) (\<lambda>name.
      bnd (on_snd (sdk_make D (ContainerCreate
          (container_options cfg ws name proxy_env network labels)) Box)) (\<lambda>c.
      next_do (set_rt (\<lambda>b. b\<lparr>dr_container := Some c\<rparr>))
      (next_do (on_snd (sdk_do D (ContainerStart c)))
      (bnd (detect_timeout D) (\<lambda>t. set_rt (\<lambda>b. b\<lparr>dr_has_timeout := t\<rparr>))))))))))"

definition boot :: "docker_env \<Rightarrow> sandbox_config \<Rightarrow> nat \<Rightarrow> str option \<Rightarrow> unit docker_op" where
  "boot D cfg ws owns_image =
     next_do (set_rt (\<lambda>b. b\<lparr>dr_workspace := Some ws, dr_config := Some cfg, dr_owns_image := owns_image\<rparr>))
     (next_do (when_do (np_mode (sp_network (policy cfg)) = ALLOWLIST)
        (bnd (of_sum (as_domains (np_domains (sp_network (policy cfg))) (np_cidrs (sp_network (policy cfg)))))
          (\<lambda>_. ret ())))
     (bnd (on_snd (draw (dk_time D))) (\<lambda>now.
      try_except (boot_container D cfg ws (container_labels now cfg))
        (\<lambda>e. if exn_isa e UnsupportedCapabilityError
             then next_do (cleanup_failed_create D) (raise e)
             else if exn_isa e DockerException \<or> exn_isa e OSError
             then next_do (cleanup_failed_create D)
               (raise (Exn RuntimeNotAvailableError (''could not create Docker sandbox: '' @ exn_msg e)))
             else raise e))))"

definition docker_create :: "docker_env \<Rightarrow> sandbox_config \<Rightarrow> unit docker_op" where
  "docker_create D cfg =
     bnd (get_rt dr_container) (\<lambda>c.
     next_do (guard_or (c = None) (Exn RuntimeNotAvailableError ''this Docker runtime already owns a sandbox''))
     (next_do (of_sum (validate_image (policy cfg) (image_name cfg)))
     (bnd (on_snd (prepare_workspace D cfg)) (\<lambda>ws. boot D cfg ws None))))"

section \<open>Forking\<close>

abbreviation gone_error :: exn where
  "gone_error \<equiv> destroyed_error"

definition fork_image :: "docker_env \<Rightarrow> sandbox_config \<Rightarrow> nat \<Rightarrow> (str \<times> str option) docker" where
  "fork_image D cfg c =
     (if read_only_root cfg then ret (image_name cfg, None)
      else bnd (sdk D (Commit c)) (\<lambda>n.
        next_do (own (Img (dk_image_id D n))) (ret (dk_image_id D n, Some (dk_image_id D n)))))"

definition fork_prepare :: "docker_env \<Rightarrow> sandbox_config \<Rightarrow> nat \<Rightarrow> nat \<Rightarrow> nat \<Rightarrow> (str \<times> str option) docker" where
  "fork_prepare D cfg c ws new_ws =
     try_except
       (next_do (on_host (copytree (dk_os D) ws new_ws))
       (next_do (on_host (sys_fchmod (dk_os D) new_ws)) (fork_image D cfg c)))
       (\<lambda>e. if exn_isa e DockerException \<or> exn_isa e OSError
            then next_do (rmtree new_ws)
              (raise (Exn RuntimeNotAvailableError (''could not fork sandbox: '' @ exn_msg e)))
            else raise e)"

text \<open>The child is an object of its own: \<open>boot\<close> runs on the child's fields.\<close>

definition boot_child ::
  "docker_env \<Rightarrow> sandbox_config \<Rightarrow> nat \<Rightarrow> str option \<Rightarrow> docker_rt \<Rightarrow> docker_rt docker" where
  "boot_child D cfg ws owns child = (\<lambda>w. case boot D cfg ws owns (child, w) of
     (Inl e, (_, w')) \<Rightarrow> (Inl e, w') | (Inr _, (child', w')) \<Rightarrow> (Inr child', w'))"

definition docker_fork :: "docker_env \<Rightarrow> docker_rt docker_op" where
  "docker_fork D =
     bnd (get_rt id) (\<lambda>b.
     case (dr_container b, dr_config b, dr_workspace b) of
       (Some c, Some cfg, Some ws) \<Rightarrow>
         if \<not> dr_client b then raise gone_error
         else bnd (on_snd (mkdtemp D)) (\<lambda>new_ws.
           bnd (on_snd (fork_prepare D cfg c ws new_ws)) (\<lambda>(img, owns).
           on_snd (boot_child D (cfg\<lparr>image_name := img\<rparr>) new_ws owns
             (new_docker True (dr_runtime_name b)))))
     | _ \<Rightarrow> raise gone_error)"

section \<open>Executing\<close>

definition require_field :: "(docker_rt \<Rightarrow> 'a option) \<Rightarrow> 'a docker_op" where
  "require_field f = bnd (get_rt f) (\<lambda>x. case x of None \<Rightarrow> raise gone_error | Some y \<Rightarrow> ret y)"

definition timeout_wrap :: "bool \<Rightarrow> str list \<Rightarrow> rat \<Rightarrow> str list \<times> bool" where
  "timeout_wrap has_timeout command seconds =
     (if \<not> has_timeout \<or> seconds \<le> 0 then (command, False)
      else ([''timeout'', ''-k'', ''5'', fmt_g seconds] @ command, True))"

definition stream_data :: "bytes \<Rightarrow> int \<Rightarrow> str \<times> int \<times> bool" where
  "stream_data payload remaining =
     (if remaining \<le> 0 then ([], 0, payload \<noteq> [])
      else let captured = take (nat remaining) payload in
        (utf8_decode captured, remaining - int (length captured), int (length payload) > remaining))"

text \<open>The variables of the loop of \<open>_iter_exec\<close>.\<close>

record capture =
  cap_remaining :: int
  cap_truncated :: bool
  cap_log :: "str list"
  cap_chunks :: "exec_chunk list"

datatype loop_end = Ended | Expired | Broken exn

definition make_chunk :: "stream_name \<Rightarrow> str \<Rightarrow> rat \<Rightarrow> int option \<Rightarrow> exec_chunk" where
  "make_chunk name data now code_opt =
     \<lparr>ch_stream = name, ch_data = data, ch_timestamp = now, ch_exit = code_opt\<rparr>"

definition capture_part :: "docker_env \<Rightarrow> stream_name \<Rightarrow> bytes option \<Rightarrow> capture \<Rightarrow> capture docker" where
  "capture_part D name payload cap =
     (case payload of
        None \<Rightarrow> ret cap
      | Some p \<Rightarrow>
          if p = [] then ret cap
          else (case stream_data p (cap_remaining cap) of (data, remaining, did_truncate) \<Rightarrow>
            let cap' = cap\<lparr>cap_remaining := remaining, cap_truncated := cap_truncated cap \<or> did_truncate\<rparr> in
            if data = [] then ret cap'
            else bnd (draw (dk_time D)) (\<lambda>now. ret (cap'\<lparr>cap_log := cap_log cap' @ [data],
                cap_chunks := cap_chunks cap' @ [make_chunk name data now None]\<rparr>))))"

primrec stream_loop ::
  "docker_env \<Rightarrow> rat \<Rightarrow> arrival list \<Rightarrow> capture \<Rightarrow> (loop_end \<times> capture) docker" where
  "stream_loop D deadline [] cap = bnd (draw (dk_monotonic D)) (\<lambda>now. ret (Expired, cap))"
| "stream_loop D deadline (a # as) cap =
     bnd (draw (dk_monotonic D)) (\<lambda>now.
     if deadline - now \<le> 0 then ret (Expired, cap)
     else (case a of
         Nothing \<Rightarrow> ret (Expired, cap)
       | Finished \<Rightarrow> ret (Ended, cap)
       | Failure e \<Rightarrow> ret (Broken e, cap)
       | Output out err \<Rightarrow>
           bnd (capture_part D STDOUT out cap) (\<lambda>cap1.
           bnd (capture_part D STDERR err cap1) (\<lambda>cap2. stream_loop D deadline as cap2))))"

definition backstop_error :: "rat \<Rightarrow> exn" where
  "backstop_error backstop = Exn ExecutionTimeoutError
     (''execution exceeded '' @ fmt_g backstop @ '' seconds; the sandbox was destroyed'')"

definition process_error :: "rat \<Rightarrow> exn" where
  "process_error seconds = Exn ExecutionTimeoutError
     (''execution exceeded '' @ fmt_g seconds @ '' seconds; the process was terminated'')"

text \<open>An exception after chunks were yielded ends the generator.\<close>

definition ending :: "exec_chunk list \<Rightarrow> stream_result docker_op \<Rightarrow> stream_result docker_op" where
  "ending chunks m = try_except m (\<lambda>e. ret (chunks, Some e))"

definition append_log :: "str list \<Rightarrow> unit docker_op" where
  "append_log parts = set_rt (\<lambda>b. b\<lparr>dr_logs := dr_logs b @ [concat parts]\<rparr>)"

definition truncation_notice :: "int \<Rightarrow> str" where
  "truncation_notice limit =
     [CHR 0x0A] @ ''[output truncated at '' @ int_text limit @ '' bytes]'' @ [CHR 0x0A]"

definition finish_exec ::
  "docker_env \<Rightarrow> sandbox_config \<Rightarrow> nat \<Rightarrow> bool \<Rightarrow> rat \<Rightarrow> capture \<Rightarrow> stream_result docker_op" where
  "finish_exec D cfg exec_id wrapped seconds cap0 =
     bnd (if cap_truncated cap0
          then let suffix = truncation_notice (max_output_bytes (policy cfg)) in
            bnd (on_snd (draw (dk_time D))) (\<lambda>now.
            ret (cap0\<lparr>cap_log := cap_log cap0 @ [suffix],
              cap_chunks := cap_chunks cap0 @ [make_chunk STDERR suffix now None]\<rparr>))
          else ret cap0) (\<lambda>cap.
     ending (cap_chunks cap)
      (bnd (on_snd (sdk D (ExecInspect exec_id))) (\<lambda>n.
       let exit = (case dk_exit D n of None \<Rightarrow> 0 | Some x \<Rightarrow> x) in
       if wrapped \<and> exit \<in> set timeout_exit_codes
       then next_do (append_log (cap_log cap @ [''[timed out]'' @ [CHR 0x0A]]))
         (raise (process_error seconds))
       else next_do (append_log (cap_log cap @ [''[exit='' @ int_text exit @ '']'' @ [CHR 0x0A]]))
         (bnd (on_snd (draw (dk_time D))) (\<lambda>now.
          ret (cap_chunks cap @ [make_chunk STATUS [] now (Some exit)], None))))))"

definition iter_exec :: "docker_env \<Rightarrow> exec_request \<Rightarrow> stream_result docker_op" where
  "iter_exec D q =
     next_do (bnd (require_field dr_container) (\<lambda>_. ret ()))
     (bnd (require_field dr_config) (\<lambda>cfg.
      bnd (get_rt id) (\<lambda>b.
      next_do (guard_or (dr_client b) (Exn SandboxDestroyedError ''the Docker client is unavailable''))
      (let seconds = (case xr_timeout q of Some t \<Rightarrow> t | None \<Rightarrow> lifetime cfg);
           (run_command, wrapped) = timeout_wrap (dr_has_timeout b) (xr_command q) seconds;
           backstop = (if wrapped then seconds + backstop_grace else seconds)
       in bnd (require_field dr_container) (\<lambda>c.
          bnd (on_snd (sdk D (ExecCreate c run_command (xr_environment q)
              (or_else (case xr_workdir q of None \<Rightarrow> [] | Some d \<Rightarrow> d) (workdir cfg)) sandbox_user)))
            (\<lambda>exec_id.
          bnd (on_snd (draw (dk_monotonic D))) (\<lambda>now.
          bnd (on_snd (stream_loop D (now + backstop) (dk_arrivals D exec_id)
              \<lparr>cap_remaining = max_output_bytes (policy cfg), cap_truncated = False,
               cap_log = [''$ '' @ xr_display q @ [CHR 0x0A]], cap_chunks = []\<rparr>)) (\<lambda>(how, cap).
          case how of
            Expired \<Rightarrow> ending (cap_chunks cap)
              (next_do (docker_destroy D) (raise (backstop_error backstop)))
          | Broken e \<Rightarrow> ret (cap_chunks cap,
              Some (Exn ExecutionError (''Docker streaming execution failed: '' @ exn_msg e)))
          | Ended \<Rightarrow> finish_exec D cfg exec_id wrapped seconds cap))))))))"

definition stream_text :: "stream_name \<Rightarrow> exec_chunk list \<Rightarrow> str" where
  "stream_text name chunks = concat (map ch_data (filter (\<lambda>c. ch_stream c = name) chunks))"

definition last_status :: "exec_chunk list \<Rightarrow> int" where
  "last_status chunks = (case filter (\<lambda>c. ch_stream c = STATUS) chunks of
     [] \<Rightarrow> 0 | cs \<Rightarrow> (case ch_exit (last cs) of None \<Rightarrow> 0 | Some n \<Rightarrow> n))"

definition docker_exec :: "docker_env \<Rightarrow> exec_request \<Rightarrow> exec_result docker_op" where
  "docker_exec D q =
     bnd (on_snd (draw (dk_monotonic D))) (\<lambda>started.
     bnd (iter_exec D q) (\<lambda>(chunks, failure).
     case failure of
       Some e \<Rightarrow> raise e
     | None \<Rightarrow> bnd (on_snd (draw (dk_monotonic D))) (\<lambda>now.
         ret \<lparr>er_command = xr_display q, exit_code = last_status chunks,
           stdout = stream_text STDOUT chunks, stderr = stream_text STDERR chunks,
           duration = now - started\<rparr>)))"

section \<open>Files, snapshots, logs\<close>

definition docker_write_file :: "docker_env \<Rightarrow> str \<Rightarrow> bytes \<Rightarrow> unit docker_op" where
  "docker_write_file D path content =
     bnd (require_field dr_workspace) (\<lambda>r.
     bnd (on_snd (draw (dk_token D))) (\<lambda>token.
     on_snd (on_host (atomic_write (dk_os D) r token path content))))"

definition docker_read_file :: "docker_env \<Rightarrow> str \<Rightarrow> bytes docker_op" where
  "docker_read_file D path =
     bnd (require_field dr_workspace) (\<lambda>r.
     on_snd (on_host (bounded_read (dk_os D) r path default_max_read)))"

text \<open>The archive is streamed to a temporary file, which replaces the destination.\<close>

definition save_archive :: "docker_env \<Rightarrow> nat \<Rightarrow> str \<Rightarrow> str \<Rightarrow> bytes docker" where
  "save_archive D c temporary target =
     bnd (sdk D (GetArchive c)) (\<lambda>n.
     next_do (save_open D temporary)
     (next_do (for_each (dk_archive D n) (\<lambda>chunk. next_do (sdk_do D ArchiveNext) (save_write D temporary chunk)))
     (next_do (sdk_do D ArchiveNext)
     (next_do (save_replace D temporary target) (ret (concat (dk_archive D n)))))))"

definition docker_snapshot :: "docker_env \<Rightarrow> str \<Rightarrow> snapshot_metadata docker_op" where
  "docker_snapshot D destination =
     bnd (require_field dr_container) (\<lambda>c.
     next_do (on_snd (sdk_do D (HostMkdir (path_text (path_parent (path_parts destination))))))
     (bnd (of_sum (snapshot_temporary destination)) (\<lambda>temporary.
      let target = path_text (path_parts destination) in
      bnd (on_snd (try_except (save_archive D c temporary target)
         (\<lambda>e. if exn_isa e DockerException \<or> exn_isa e OSError
              then next_do (suppressing (\<lambda>x. exn_isa x FileNotFoundError) (save_unlink D temporary))
                (raise (Exn FileAccessError (''could not create snapshot: '' @ exn_msg e)))
              else raise e))) (\<lambda>archive.
      bnd (on_snd (save_size D target)) (\<lambda>size.
      bnd (on_snd (draw (dk_time D))) (\<lambda>now.
      ret \<lparr>snap_path = target, snap_size = size,
        snap_sha256 = dk_sha256 D archive, snap_created_at = now\<rparr>))))))"

definition docker_restore :: "docker_env \<Rightarrow> str \<Rightarrow> unit docker_op" where
  "docker_restore D src =
     bnd (require_field dr_container) (\<lambda>c.
     on_snd (try_except
       (bnd (save_read D (path_text (path_parts src))) (\<lambda>payload.
        bnd (sdk D (PutArchive c payload)) (\<lambda>n.
        guard_or (dk_accepts D n) (Exn FileAccessError ''Docker rejected the workspace snapshot''))))
       (\<lambda>e. if exn_isa e DockerException \<or> exn_isa e OSError
            then raise (Exn FileAccessError (''could not restore snapshot: '' @ exn_msg e)) else raise e)))"

definition docker_logs :: "docker_env \<Rightarrow> str docker_op" where
  "docker_logs D =
     bnd (get_rt (concat \<circ> dr_logs)) (\<lambda>text_out.
     bnd (get_rt dr_container) (\<lambda>c. case c of
       None \<Rightarrow> ret text_out
     | Some c \<Rightarrow> bnd (try_except (bnd (on_snd (sdk D (ContainerLogs c))) (\<lambda>n. ret (utf8_decode (dk_output D n))))
         (\<lambda>e. if exn_isa e DockerException \<or> exn_isa e OSError then ret [] else raise e))
         (\<lambda>process_out. ret (process_out @ text_out))))"

section \<open>The operation table\<close>

definition docker_runtime :: "docker_env \<Rightarrow> (docker_rt, docker_world) runtime" where
  "docker_runtime D =
     \<lparr>rt_name = ''DockerRuntime'', rt_create = docker_create D, rt_exec = docker_exec D,
      rt_write_file = docker_write_file D, rt_read_file = docker_read_file D, rt_logs = docker_logs D,
      rt_destroy = docker_destroy D, rt_snapshot = Some (docker_snapshot D, docker_restore D),
      rt_fork = Some (docker_fork D), rt_stream = Some (iter_exec D)\<rparr>"

end
