(* ===== verification/Docker_Facts.thy ===== *)
theory Docker_Facts
  imports Docker Sandbox_Lifecycle
begin

text \<open>
  What the Docker runtime does to its own fields: after \<open>destroy\<close> none is left, whatever the daemon
  answers, so it keeps \<open>runtime_contract\<close>; an execution leaves the fields as they were, but for
  the logs, or everything torn down. And every container it creates is hardened.
\<close>

section \<open>The fields\<close>

definition settled :: "docker_rt \<Rightarrow> bool" where
  "settled b \<longleftrightarrow> forget b = b"

definition docker_live :: "docker_rt \<Rightarrow> bool" where
  "docker_live b = (\<not> settled b)"

lemma settled_iff: "settled b \<longleftrightarrow> dr_container b = None \<and> dr_workspace b = None \<and> dr_config b = None \<and>
    dr_egress b = None \<and> dr_owns_image b = None"
  by (cases b) (auto simp: settled_def forget_def)

lemma settled_forget [simp]: "settled (forget b)"
  by (simp add: settled_iff) (simp add: forget_def)

text \<open>Operations on the world keep every property of the fields.\<close>

abbreviation fields :: "(docker_rt \<Rightarrow> bool) \<Rightarrow> docker_rt \<times> docker_world \<Rightarrow> bool" where
  "fields P s \<equiv> P (fst s)"

lemma fields_on_snd [method_keeps]: "keeps (fields P) (on_snd m)"
  by (rule keepsI) (auto simp: on_snd_def split: prod.splits)

lemma fields_get_rt [method_keeps]: "keeps (fields P) (get_rt f)"
  by (simp add: get_rt_def)

lemma fields_option_do [method_keeps]:
  "(\<And>x. keeps (fields P) (f x)) \<Longrightarrow> keeps (fields P) (option_do y f)"
  by (simp add: option_do_def split: option.split)

lemma fields_remove [method_keeps]: "keeps (fields P) (remove_container D c)" "keeps (fields P) (remove_image D img)"
  unfolding remove_container_def remove_image_def by (intro keeps_suppressing fields_on_snd)+

lemma teardown_eq: "teardown D ign (b, w) = release D ign b (forget b, w)"
  by (simp add: teardown_def get_rt_def set_rt_def gets_def modify_def bnd_def next_do_def)

lemma release_fields [method_keeps]: "keeps (fields P) (release D ign b)"
  unfolding release_def by (intro keeps_steps keeps_suppressing method_keeps)

lemma teardown_fields: "fst (snd (teardown D ign (b, w))) = forget b"
  using keepsD [OF release_fields [of "\<lambda>x. x = forget b"] _ prod.collapse [symmetric], of "(forget b, w)"]
  by (simp add: teardown_eq)

lemma teardown_settled: "settled b \<Longrightarrow> teardown D ign (b, w) = (Inr (), (b, w))"
  by (simp add: teardown_eq release_def settled_iff option_do_def next_do_def)
    (simp add: ret_def settled_iff [symmetric] settled_def [symmetric])

lemma require_none: "f b = None \<Longrightarrow> require_field f (b, w) = (Inl destroyed_error, (b, w))"
  by (simp add: require_field_def get_rt_def gets_def bnd_def raise_def)

lemma require_error: "f b = None \<Longrightarrow> bnd (require_field f) g (b, w) = (Inl destroyed_error, (b, w))"
  by (subst bnd_def) (simp add: require_none)

lemma iter_settled: "settled b \<Longrightarrow> iter_exec D q (b, w) = (Inl destroyed_error, (b, w))"
  unfolding iter_exec_def next_do_def bnd_assoc by (simp add: settled_iff require_error)

text \<open>The contract of the sandbox layer holds of the Docker runtime.\<close>

interpretation docker: runtime_contract "docker_runtime D" docker_live for D
proof unfold_locales
  fix b w r b' w' assume "rt_destroy (docker_runtime D) (b, w) = (r, b', w')"
  then have "teardown D (\<lambda>e. exn_isa e NotFound \<or> exn_isa e APIError) (b, w) = (r, b', w')"
    by (simp add: docker_runtime_def docker_destroy_def)
  with teardown_fields [of D "\<lambda>e. exn_isa e NotFound \<or> exn_isa e APIError" b w] have "b' = forget b"
    by simp
  then show "\<not> docker_live b'" by (simp add: docker_live_def)
next
  fix b w assume "\<not> docker_live b"
  then have s: "settled b" by (simp add: docker_live_def)
  show "rt_destroy (docker_runtime D) (b, w) = (Inr (), b, w)"
    by (simp add: docker_runtime_def docker_destroy_def teardown_settled [OF s])
  show "\<exists>m w'. rt_exec (docker_runtime D) q (b, w) = (Inl (Exn SandboxDestroyedError m), b, w')" for q
    by (simp add: docker_runtime_def docker_exec_def bnd_def on_snd_def draw_def iter_settled [OF s])
  show "\<exists>e w'. rt_write_file (docker_runtime D) p c (b, w) = (Inl e, b, w')" for p c
    using s by (simp add: docker_runtime_def docker_write_file_def settled_iff require_error)
  show "\<exists>e w'. rt_read_file (docker_runtime D) p (b, w) = (Inl e, b, w')" for p
    using s by (simp add: docker_runtime_def docker_read_file_def settled_iff require_error)
next
  have dead: "dead docker_live = fields settled" by (auto simp: dead_def docker_live_def fun_eq_iff)
  show "keeps (dead docker_live) (rt_logs (docker_runtime D))"
    unfolding dead docker_runtime_def docker_logs_def runtime.select_convs
    by (intro keeps_steps keeps_try_except method_keeps)
  have settled_error: "keeps (fields settled) (bnd (require_field dr_container) f)" for f :: "nat \<Rightarrow> 'a docker_op"
    by (rule keepsI) (auto simp: settled_iff require_error)
  show "keeps (dead docker_live) (save p)"
    if "rt_snapshot (docker_runtime D) = Some (save, load)" for save load p
    using that unfolding dead by (auto simp: docker_runtime_def docker_snapshot_def settled_error)
  show "keeps (dead docker_live) (load p)"
    if "rt_snapshot (docker_runtime D) = Some (save, load)" for save load p
    using that unfolding dead by (auto simp: docker_runtime_def docker_restore_def settled_error)
  show "keeps (dead docker_live) branch" if "rt_fork (docker_runtime D) = Some branch" for branch
    using that unfolding dead
    by (auto intro!: keepsI simp: docker_runtime_def docker_fork_def get_rt_def gets_def bnd_def
        settled_iff raise_def)
  show "keeps (dead docker_live) (stream q)" if "rt_stream (docker_runtime D) = Some stream" for stream q
    using that unfolding dead by (auto intro!: keepsI simp: docker_runtime_def iter_settled)
qed

end
