(* ===== verification/Docker_Fork.thy ===== *)
theory Docker_Fork
  imports Docker_Facts Workspace_Safety Workspace_Function
begin

text \<open>
  A fork shares no inode with its parent: what existed before the fork is unchanged by it, nothing
  new refers to it, and nothing that existed refers to the copy.
\<close>

section \<open>Disks that grow apart\<close>

definition disk_closed :: "disk \<Rightarrow> bool" where
  "disk_closed d \<longleftrightarrow> (\<forall>i n j. entry d i n = Some j \<longrightarrow> j < fresh d)"

definition apart :: "disk \<Rightarrow> disk \<Rightarrow> bool" where
  "apart d0 d \<longleftrightarrow> disk_wf d \<and> fresh d0 \<le> fresh d \<and> untouched {..<fresh d0} d0 d \<and> confined {..<fresh d0} d"

lemma apart_refl: "disk_wf d \<Longrightarrow> apart d d"
  unfolding apart_def by (auto simp: confined_def disk_wf_def entry_def split: option.splits inode.splits)

lemma fresh_alloc [simp]: "fresh (alloc x d) = Suc (fresh d)"
  by (simp add: alloc_def)

lemma confined_leaf:
  assumes "confined X d" "x = Dir [] \<or> (\<forall>m. x \<noteq> Dir m)"
  shows "confined X (alloc x d)"
proof -
  have a: "entry (alloc x d) k m = (if k = fresh d then None else entry d k m)" for k m
    using assms(2) by (auto simp: entry_def alloc_def split: inode.split)
  from assms(1) show ?thesis
    unfolding confined_def a by (auto simp: less_Suc_eq)
qed

lemma apart_new: "apart d0 d \<Longrightarrow> x = Dir [] \<or> (\<forall>m. x \<noteq> Dir m) \<Longrightarrow> apart d0 (alloc x d)"
  by (auto simp: apart_def confined_leaf disk_wf_alloc intro: untouched_trans untouched_alloc)

lemma apart_step:
  assumes "apart d0 d" "x = Dir [] \<or> (\<forall>m. x \<noteq> Dir m)" "fresh d0 \<le> i"
  shows "apart d0 (set_entry i n (Some (fresh d)) (alloc x d))"
proof -
  from apart_new [OF assms(1,2)]
  have d: "disk_wf (alloc x d)" "fresh d0 \<le> fresh (alloc x d)" "untouched {..<fresh d0} d0 (alloc x d)"
    "confined {..<fresh d0} (alloc x d)"
    by (auto simp: apart_def)
  have "fresh d0 \<le> fresh d" using assms(1) by (simp add: apart_def)
  with d(4) assms(3) have "confined {..<fresh d0} (set_entry i n (Some (fresh d)) (alloc x d))"
    by (intro confined_set_entry) auto
  moreover have "untouched {..<fresh d0} d0 (set_entry i n (Some (fresh d)) (alloc x d))"
    using untouched_trans [OF d(3) untouched_set_entry] assms(3) by auto
  ultimately show ?thesis using d(1,2) by (simp add: apart_def)
qed

text \<open>One entry of the directory that is copied.\<close>

definition copy_one :: "nat \<Rightarrow> nat \<Rightarrow> str \<times> nat \<Rightarrow> bool \<times> disk \<Rightarrow> bool \<times> disk" where
  "copy_one n dst e s = (case inodes (snd s) (snd e) of
       Some (Reg c) \<Rightarrow> (fst s, set_entry dst (fst e) (Some (fresh (snd s))) (alloc (Reg c) (snd s)))
     | Some (Sym t) \<Rightarrow> (fst s, set_entry dst (fst e) (Some (fresh (snd s))) (alloc (Sym t) (snd s)))
     | Some (Dir sub) \<Rightarrow> (case copy_entries n sub (fresh (snd s))
             (set_entry dst (fst e) (Some (fresh (snd s))) (alloc (Dir []) (snd s))) of (ok, d') \<Rightarrow> (fst s \<and> ok, d'))
     | _ \<Rightarrow> (False, snd s))"

lemma copy_entries_Suc: "copy_entries (Suc n) es dst d = fold (copy_one n dst) es (True, d)"
  by (simp add: copy_one_def [abs_def])

lemma copy_apart:
  "apart d0 d \<Longrightarrow> fresh d0 \<le> dst \<Longrightarrow> apart d0 (snd (copy_entries n es dst d))"
proof (induction n arbitrary: es dst d)
  case (Suc n)
  have step: "apart d0 (snd (copy_one n dst e s))" if s: "apart d0 (snd s)" for e s
  proof -
    have dir: "apart d0 (set_entry dst (fst e) (Some (fresh (snd s))) (alloc x (snd s)))"
      if "x = Dir [] \<or> (\<forall>m. x \<noteq> Dir m)" for x
      by (rule apart_step [OF s that Suc.prems(2)])
    have "fresh d0 \<le> fresh (snd s)" using s by (simp add: apart_def)
    from Suc.IH [OF dir this, of "Dir []"]
    have sub: "apart d0 (snd (case copy_entries n sub (fresh (snd s))
        (set_entry dst (fst e) (Some (fresh (snd s))) (alloc (Dir []) (snd s))) of (ok, d') \<Rightarrow> (fst s \<and> ok, d')))" for sub
      by (simp add: case_prod_beta)
    show ?thesis
      using s dir sub by (auto simp: copy_one_def split: option.split inode.split)
  qed
  have "apart d0 (snd (fold (copy_one n dst) es s))" if "apart d0 (snd s)" for s
    using that by (induction es arbitrary: s) (simp_all add: step del: split_paired_All)
  from this [of "(True, d)"] Suc.prems(1) show ?case by (simp only: copy_entries_Suc snd_conv)
qed simp

section \<open>The fork\<close>

lemma host_triple:
  assumes "on_disk P m Q R"
  shows "triple (\<lambda>w. P (disk_of (host w))) (on_host m) (\<lambda>x w. Q x (disk_of (host w))) (\<lambda>_ w. R (disk_of (host w)))"
  unfolding triple_def on_host_def
proof (intro allI impI)
  fix w assume w: "P (disk_of (host w))"
  obtain r h where run: "m (host w) = (r, h)" by (cases "m (host w)")
  from on_diskD [OF assms w run] run
  show "case (case m (host w) of (r, h) \<Rightarrow> (r, w\<lparr>host := h\<rparr>)) of
    (Inl e, t) \<Rightarrow> R (disk_of (host t)) | (Inr x, t) \<Rightarrow> Q x (disk_of (host t))"
    by (auto split: sum.splits)
qed

text \<open>Booting a container does not touch the host's disk.\<close>

abbreviation same_host :: "os_state \<Rightarrow> 's \<times> docker_world \<Rightarrow> bool" where
  "same_host h s \<equiv> host (snd s) = h"

lemma host_world: "keeps (\<lambda>w. host w = h) (sdk D c)" "keeps (\<lambda>w. host w = h) (own r)"
  "keeps (\<lambda>w. host w = h) (disown r)" "keeps (\<lambda>w. host w = h) (draw f)" "keeps (\<lambda>w. host w = h) (rmtree n)"
  by (auto intro!: keepsI simp: sdk_def Let_def own_def disown_def draw_def rmtree_def modify_def
      split: option.splits)

lemma host_calls: "keeps (\<lambda>w. host w = h) (sdk_do D c)" "keeps (\<lambda>w. host w = h) (sdk_make D c f)"
  "keeps (\<lambda>w. host w = h) (sdk_remove D c r)" "keeps (\<lambda>w. host w = h) (ensure_image D img)"
  unfolding sdk_do_def sdk_make_def sdk_remove_def ensure_image_def
  by (intro keeps_steps keeps_try_except host_world)+

lemma host_on_snd: "keeps (\<lambda>w. host w = h) m \<Longrightarrow> keeps (same_host h) (on_snd m)"
  by (rule keeps_on_snd)

lemma host_first: "keeps (same_host h) (modify (\<lambda>(b, w). (f b, w)))" "keeps (same_host h) (set_rt g)"
  "keeps (same_host h) (get_rt k)"
  by (auto intro!: keepsI simp: modify_def set_rt_def get_rt_def gets_def)

lemma host_sidecar: "keeps (same_host h) (sidecar_destroy D)" "keeps (same_host h) (sidecar_start D)"
proof -
  show d: "keeps (same_host h) (sidecar_destroy D)"
    unfolding sidecar_destroy_def
    by (intro keeps_steps keeps_suppressing keeps_for_each host_first host_on_snd host_calls host_world)
  show "keeps (same_host h) (sidecar_start D)"
    unfolding sidecar_start_def sidecar_launch_def
    by (intro keeps_steps keeps_try_except host_first host_on_snd host_calls host_world d)
qed

lemma host_with_sidecar: "keeps (\<lambda>w. host w = h) (with_sidecar sc (sidecar_destroy D))"
proof (rule keepsI)
  fix w r t assume w: "host w = h" and "with_sidecar sc (sidecar_destroy D) w = (r, t)"
  then obtain sc' where "sidecar_destroy D (sc, w) = (r, (sc', t))"
    by (auto simp: with_sidecar_def split: prod.splits)
  from keepsD [OF host_sidecar(1) _ this] w show "host t = h" by simp
qed

lemma host_run_sidecar: "keeps (same_host h) (run_sidecar D sc)"
proof (rule keepsI)
  fix s r t assume s: "same_host h s" and "run_sidecar D sc s = (r, t)"
  then obtain sc' where "sidecar_start D (sc, snd s) = (r, (sc', snd t))"
    by (cases s) (auto simp: run_sidecar_def split: prod.splits)
  from keepsD [OF host_sidecar(2) _ this] s show "same_host h t" by simp
qed

lemma host_option_do: "(\<And>x. keeps (same_host h) (f x)) \<Longrightarrow> keeps (same_host h) (option_do y f)"
  by (simp add: option_do_def split: option.split)

lemma host_teardown: "keeps (same_host h) (teardown D ign)"
  unfolding teardown_def release_def remove_container_def remove_image_def
  by (intro keeps_steps keeps_suppressing host_option_do host_first host_on_snd host_calls
      host_with_sidecar host_world)

lemma host_boot: "keeps (same_host h) (boot D cfg ws owns)"
  unfolding boot_def boot_container_def cleanup_failed_create_def connect_client_def require_rootless_def
    start_egress_def egress_network_def detect_timeout_def
  by (intro keeps_steps keeps_try_except host_first host_on_snd host_calls host_world host_teardown
      host_run_sidecar)

text \<open>The workspace of a booted runtime is the one it was given.\<close>

definition workspace_is :: "nat \<Rightarrow> docker_rt \<Rightarrow> bool" where
  "workspace_is r b \<longleftrightarrow> dr_workspace b = Some r"

lemma workspace_set: "(\<And>b. dr_workspace (f b) = dr_workspace b) \<Longrightarrow> keeps (fields (workspace_is r)) (set_rt f)"
  by (rule keepsI) (auto simp: set_rt_def modify_def workspace_is_def)

lemma workspace_run_sidecar: "keeps (fields (workspace_is r)) (run_sidecar D sc)"
  by (rule keepsI) (auto simp: run_sidecar_def workspace_is_def split: prod.splits)

lemma workspace_boot:
  assumes "boot D cfg ws owns (b, w) = (Inr u, (child, w'))"
  shows "dr_workspace child = Some ws"
proof -
  have body: "keeps (fields (workspace_is ws)) (boot_container D cfg ws labels)" for labels
    unfolding boot_container_def connect_client_def require_rootless_def start_egress_def
      egress_network_def detect_timeout_def
    by (intro keeps_steps keeps_try_except method_keeps workspace_set workspace_run_sidecar) simp_all
  have first: "triple (\<lambda>_. True)
      (set_rt (\<lambda>b. b\<lparr>dr_workspace := Some ws, dr_config := Some cfg, dr_owns_image := owns\<rparr>))
      (\<lambda>_. fields (workspace_is ws)) (\<lambda>_ _. True)"
    by (auto simp: triple_def set_rt_def modify_def workspace_is_def)
  have fail: "triple P (next_do m (raise e)) Q (\<lambda>_ _. True)" for P Q e and m :: "unit docker_op"
    unfolding next_do_def by (rule triple_bnd [OF triple_any triple_raise]) simp
  have "triple (\<lambda>_. True) (boot D cfg ws owns) (\<lambda>_. fields (workspace_is ws)) (\<lambda>_ _. True)"
    unfolding boot_def next_do_def [of "set_rt _"]
    apply (rule triple_bnd [OF first])
    unfolding next_do_def [of "when_do _ _"]
    apply (rule triple_bnd [OF keeps_triple [OF keeps_when_do [OF keeps_bnd [OF keeps_of_sum keeps_ret]]]])
    apply (rule triple_bnd [OF keeps_triple [OF fields_on_snd]])
    apply (rule triple_try_except [OF keeps_triple [OF body]])
    using fail by (auto intro!: triple_raise)
  from tripleD [OF this _ assms] show ?thesis by (simp add: workspace_is_def)
qed

abbreviation disk_is :: "(disk \<Rightarrow> bool) \<Rightarrow> docker_world \<Rightarrow> bool" where
  "disk_is P w \<equiv> P (disk_of (host w))"

lemma host_keeps: "on_disk P m (\<lambda>_. P) P \<Longrightarrow> keeps (disk_is P) (on_host m)"
  unfolding keeps_def by (rule host_triple)

lemma disk_kept:
  assumes "\<And>h. keeps (\<lambda>w. host w = h) m"
  shows "keeps (disk_is P) m"
proof (rule keepsI)
  fix w r t assume P: "disk_is P w" and run: "m w = (r, t)"
  from keepsD [OF assms refl run] P show "disk_is P t" by simp
qed

lemma copytree_apart: "apart d0 d \<Longrightarrow> fresh d0 \<le> dst \<Longrightarrow> apart d0 (snd (copytree_disk src dst d))"
  by (auto simp: copytree_disk_def copy_apart split: option.split inode.split)

lemma keeps_copytree:
  assumes E: "undisturbed E" and r: "fresh d0 \<le> r"
  shows "on_disk (apart d0) (copytree E ws r) (\<lambda>_. apart d0) (apart d0)"
  unfolding copytree_def
proof (rule on_disk_bnd)
  show "on_disk (apart d0) (syscall E (\<lambda>d. Inr (copytree_disk ws r d))) (\<lambda>_. apart d0) (apart d0)"
  proof (rule on_disk_syscall)
    fix d x d' assume "apart d0 d" "Inr (copytree_disk ws r d) = (Inr (x, d') :: exn + bool \<times> disk)"
    with copytree_apart [OF _ r, of d ws] show "apart d0 d'" by simp
  qed (use E in simp_all)
  show "on_disk (apart d0) (guard_or ok e) (\<lambda>_. apart d0) (apart d0)" for ok e
    by (rule on_disk_conseq [OF on_disk_guard]) auto
qed

lemma keeps_chmod: "undisturbed E \<Longrightarrow> on_disk P (sys_fchmod E fd) (\<lambda>_. P) P"
  unfolding sys_fchmod_def by (rule on_disk_syscall) auto

lemma fork_prepare_apart:
  assumes "undisturbed (dk_os D)" "fresh d0 \<le> r"
  shows "keeps (disk_is (apart d0)) (fork_prepare D cfg c ws r)"
  unfolding fork_prepare_def fork_image_def
  by (intro keeps_steps keeps_try_except host_keeps keeps_copytree [OF assms] keeps_chmod [OF assms(1)]
      disk_kept host_world)

lemma boot_child_apart: "keeps (disk_is P) (boot_child D cfg ws owns child)"
proof (rule keepsI)
  fix w r t assume P: "disk_is P w" and "boot_child D cfg ws owns child w = (r, t)"
  then obtain r' b' where "boot D cfg ws owns (child, w) = (r', (b', t))"
    by (auto simp: boot_child_def split: sum.splits prod.splits)
  from keepsD [OF host_boot _ this, of "host w"] P show "disk_is P t" by simp
qed

lemma mkdtemp_apart:
  assumes "undisturbed (dk_os D)"
  shows "triple (disk_is (apart d0)) (mkdtemp D)
      (\<lambda>r. disk_is (\<lambda>d. apart d0 d \<and> fresh d0 \<le> r)) (\<lambda>_. disk_is (apart d0))"
proof -
  have make: "on_disk (apart d0) (syscall (dk_os D) (\<lambda>d. Inr (fresh d, alloc (Dir []) d)))
      (\<lambda>r d. apart d0 d \<and> fresh d0 \<le> r) (apart d0)"
  proof (rule on_disk_syscall)
    fix d x d' assume d: "apart d0 d" and "Inr (fresh d, alloc (Dir []) d) = (Inr (x, d') :: exn + nat \<times> disk)"
    then have "x = fresh d" "d' = alloc (Dir []) d" by simp_all
    with d apart_new [OF d, of "Dir []"] show "apart d0 d' \<and> fresh d0 \<le> x" by (simp add: apart_def)
  qed (use assms in simp_all)
  show ?thesis
    unfolding mkdtemp_def next_do_def own_def
    by (rule triple_bnd [OF host_triple [OF make]]) (auto simp: triple_def comp_defs)
qed

text \<open>What a fork that succeeds has done.\<close>

lemma fork_result:
  assumes "docker_fork D (b, w) = (Inr child, (b', w'))"
  obtains c cfg ws r w1 img owns w2 where
    "dr_container b = Some c" "dr_config b = Some cfg" "dr_workspace b = Some ws" "dr_client b" "b' = b"
    "mkdtemp D w = (Inr r, w1)" "fork_prepare D cfg c ws r w1 = (Inr (img, owns), w2)"
    "boot_child D (cfg\<lparr>image_name := img\<rparr>) r owns (new_docker True (dr_runtime_name b)) w2 = (Inr child, w')"
  using assms
  by (auto simp: docker_fork_def get_rt_def gets_def bnd_def raise_def on_snd_def
      split: option.splits if_splits sum.splits prod.splits)

lemma fork_apart:
  assumes E: "undisturbed (dk_os D)" and wf: "disk_wf (disk_of (host w))"
    and run: "docker_fork D (b, w) = (Inr child, (b', w'))"
  shows "apart (disk_of (host w)) (disk_of (host w'))"
    and "\<exists>r. dr_workspace child = Some r \<and> fresh (disk_of (host w)) \<le> r"
proof -
  let ?d = "disk_of (host w)"
  obtain c cfg ws r w1 img owns w2 where
      mk: "mkdtemp D w = (Inr r, w1)" and prep: "fork_prepare D cfg c ws r w1 = (Inr (img, owns), w2)"
      and boot: "boot_child D (cfg\<lparr>image_name := img\<rparr>) r owns (new_docker True (dr_runtime_name b)) w2 = (Inr child, w')"
    by (rule fork_result [OF run])
  from tripleD [OF mkdtemp_apart [OF E] _ mk, of ?d] apart_refl [OF wf]
  have 1: "apart ?d (disk_of (host w1))" "fresh ?d \<le> r" by auto
  from keepsD [OF fork_prepare_apart [OF E 1(2)] _ prep] 1(1) have "apart ?d (disk_of (host w2))" by simp
  from keepsD [OF boot_child_apart [where P = "apart ?d"] this boot] show "apart ?d (disk_of (host w'))" .
  from boot have "dr_workspace child = Some r"
    by (auto simp: boot_child_def dest: workspace_boot split: sum.splits prod.splits)
  with 1(2) show "\<exists>r. dr_workspace child = Some r \<and> fresh ?d \<le> r" by blast
qed

lemma apart_confined:
  assumes "apart d0 d" "disk_closed d0"
  shows "confined {fresh d0..<fresh d} d"
  unfolding confined_def
proof (intro conjI allI impI ballI)
  fix i n j assume i: "i \<notin> {fresh d0..<fresh d}" and e: "entry d i n = Some j"
  from assms(1) have d: "disk_wf d" "untouched {..<fresh d0} d0 d" by (auto simp: apart_def)
  from e d(1) have "i < fresh d" by (fastforce simp: entry_def disk_wf_def not_less [symmetric] split: option.splits)
  with i d(2) have "inodes d i = inodes d0 i" by (auto simp: untouched_def)
  with e have "entry d0 i n = Some j" by (simp add: entry_def)
  with assms(2) have "j < fresh d0" by (auto simp: disk_closed_def)
  then show "j \<notin> {fresh d0..<fresh d}" by simp
qed auto

end
