(* ===== verification/Docker_Copy.thy ===== *)
theory Docker_Copy
  imports Docker_Fork
begin

text \<open>
  What \<open>copytree\<close> copies: the copy of a workspace reads, path by path, as the workspace does, and
  the depth bound of \<open>copy_entries\<close> is enough for every tree.
\<close>

section \<open>What is at a path\<close>

datatype node = Folder | Content bytes | Link str | Pipe

definition node_of :: "inode \<Rightarrow> node" where
  "node_of x = (case x of Reg c \<Rightarrow> Content c | Sym t \<Rightarrow> Link t | Dir _ \<Rightarrow> Folder | Fifo \<Rightarrow> Pipe)"

primrec view :: "disk \<Rightarrow> nat \<Rightarrow> str list \<Rightarrow> node option" where
  "view d i [] = map_option node_of (inodes d i)"
| "view d i (c # cs) = (case entry d i c of None \<Rightarrow> None | Some j \<Rightarrow> view d j cs)"

text \<open>A disk whose directories name each entry once.\<close>

definition tidy :: "disk \<Rightarrow> bool" where
  "tidy d \<longleftrightarrow> (\<forall>i m. inodes d i = Some (Dir m) \<longrightarrow> distinct (map fst m))"

definition inside :: "nat \<Rightarrow> disk \<Rightarrow> bool" where
  "inside k d \<longleftrightarrow> (\<forall>i n j. k \<le> i \<longrightarrow> entry d i n = Some j \<longrightarrow> k \<le> j \<and> j < fresh d)"

lemma insideD: "inside k d \<Longrightarrow> k \<le> i \<Longrightarrow> entry d i n = Some j \<Longrightarrow> k \<le> j \<and> j < fresh d"
  by (auto simp: inside_def)

lemma view_cong:
  assumes "inside k d" "\<And>i. k \<le> i \<Longrightarrow> i < fresh d \<Longrightarrow> inodes d' i = inodes d i"
  shows "k \<le> i \<Longrightarrow> i < fresh d \<Longrightarrow> view d' i cs = view d i cs"
proof (induction cs arbitrary: i)
  case (Cons c cs)
  have "entry d' i c = entry d i c" using assms(2) [OF Cons.prems] by (simp add: entry_def)
  with assms(1) Cons show ?case by (auto simp: inside_def split: option.split)
qed (simp add: assms(2))

section \<open>Grafting a copy\<close>

text \<open>\<open>grafted d0 dst d d' f\<close>: between \<open>d\<close> and \<open>d'\<close> the directory \<open>dst\<close> got the entries \<open>f\<close>, each a copy of an
  inode of \<open>d0\<close> made of new inodes only.\<close>

definition grafted :: "disk \<Rightarrow> nat \<Rightarrow> disk \<Rightarrow> disk \<Rightarrow> (str \<Rightarrow> nat option) \<Rightarrow> bool" where
  "grafted d0 dst d d' f \<longleftrightarrow>
     fresh d \<le> fresh d' \<and> is_dir d' dst \<and> inside (fresh d) d' \<and>
     (\<forall>k < fresh d. k \<noteq> dst \<longrightarrow> inodes d' k = inodes d k) \<and>
     (\<forall>n. case f n of
        None \<Rightarrow> entry d' dst n = entry d dst n
      | Some i \<Rightarrow> \<exists>j. entry d' dst n = Some j \<and> fresh d \<le> j \<and> j < fresh d' \<and> view d' j = view d0 i)"

lemma graftedD:
  assumes "grafted d0 dst d d' f"
  shows "fresh d \<le> fresh d'" "is_dir d' dst" "inside (fresh d) d'"
    "\<And>k. k < fresh d \<Longrightarrow> k \<noteq> dst \<Longrightarrow> inodes d' k = inodes d k"
    "\<And>n. f n = None \<Longrightarrow> entry d' dst n = entry d dst n"
    "\<And>n i. f n = Some i \<Longrightarrow> \<exists>j. entry d' dst n = Some j \<and> fresh d \<le> j \<and> j < fresh d' \<and> view d' j = view d0 i"
proof -
  have n: "case f n of None \<Rightarrow> entry d' dst n = entry d dst n
      | Some i \<Rightarrow> \<exists>j. entry d' dst n = Some j \<and> fresh d \<le> j \<and> j < fresh d' \<and> view d' j = view d0 i" for n
    using assms unfolding grafted_def by blast
  show "f n = None \<Longrightarrow> entry d' dst n = entry d dst n" for n using n [of n] by simp
  show "f n = Some i \<Longrightarrow> \<exists>j. entry d' dst n = Some j \<and> fresh d \<le> j \<and> j < fresh d' \<and> view d' j = view d0 i" for n i
    using n [of n] by simp
qed (use assms in \<open>auto simp: grafted_def\<close>)

lemma grafted_refl: "disk_wf d \<Longrightarrow> is_dir d dst \<Longrightarrow> grafted d0 dst d d Map.empty"
  by (auto simp: grafted_def inside_def entry_def disk_wf_def split: option.splits)

lemma grafted_trans:
  assumes dst: "dst < fresh d" and g: "grafted d0 dst d d1 f" and h: "grafted d0 dst d1 d2 g"
  shows "grafted d0 dst d d2 (f ++ g)"
  unfolding grafted_def
proof (intro conjI allI impI)
  note G = graftedD [OF g] and H = graftedD [OF h]
  show "fresh d \<le> fresh d2" "is_dir d2 dst" using G(1) H(1,2) by auto
  have same: "inodes d2 k = inodes d1 k" if "fresh d \<le> k" "k < fresh d1" for k
    using H(4) [OF that(2)] that(1) dst by auto
  show "inside (fresh d) d2"
    unfolding inside_def
  proof (intro allI impI)
    fix k n j assume k: "fresh d \<le> k" and e: "entry d2 k n = Some j"
    show "fresh d \<le> j \<and> j < fresh d2"
    proof (cases "k < fresh d1")
      case True
      with e same [OF k] have "entry d1 k n = Some j" by (simp add: entry_def)
      with G(3) k H(1) show ?thesis by (fastforce simp: inside_def)
    next
      case False
      with insideD [OF H(3) _ e] G(1) show ?thesis by simp
    qed
  qed
  show "inodes d2 k = inodes d k" if "k < fresh d" "k \<noteq> dst" for k
    using that G(1,4) H(4) by auto
  fix n
  show "case (f ++ g) n of None \<Rightarrow> entry d2 dst n = entry d dst n
      | Some i \<Rightarrow> \<exists>j. entry d2 dst n = Some j \<and> fresh d \<le> j \<and> j < fresh d2 \<and> view d2 j = view d0 i"
  proof (cases "g n")
    case (Some i)
    with H(6) [OF Some] G(1) show ?thesis by fastforce
  next
    case None
    note kept = H(5) [OF None]
    show ?thesis
    proof (cases "f n")
      case f: None
      with None kept G(5) show ?thesis by (simp add: map_add_def)
    next
      case (Some i)
      with G(6) obtain j where j: "entry d1 dst n = Some j" "fresh d \<le> j" "j < fresh d1" "view d1 j = view d0 i"
        by blast
      have "view d2 j = view d1 j"
        using view_cong [OF G(3) same j(2,3)] by (simp add: fun_eq_iff)
      with j kept None Some H(1) show ?thesis by (simp add: map_add_def)
    qed
  qed
qed


text \<open>Copying one entry, and then a list of them.\<close>

lemma entry_alloc_leaf:
  "x = Dir [] \<or> (\<forall>m. x \<noteq> Dir m) \<Longrightarrow> entry (alloc x d) k n = (if k = fresh d then None else entry d k n)"
  by (auto simp: entry_def alloc_def split: inode.split)

lemma graft_new:
  assumes wf: "disk_wf d" and dst: "is_dir d dst" and x: "x = Dir [] \<or> (\<forall>m. x \<noteq> Dir m)"
    and e: "e = set_entry dst n (Some (fresh d)) (alloc x d)"
  shows "dst < fresh d" "disk_wf e" "is_dir e dst" "fresh e = Suc (fresh d)" "inodes e (fresh d) = Some x"
    "\<And>k. k < fresh d \<Longrightarrow> k \<noteq> dst \<Longrightarrow> inodes e k = inodes d k"
    "\<And>m. entry e dst m = (if m = n then Some (fresh d) else entry d dst m)"
    "\<And>m. entry e (fresh d) m = None"
proof -
  show lt: "dst < fresh d"
    using wf dst by (cases "dst < fresh d") (auto simp: is_dir_def disk_wf_def not_less)
  have a: "is_dir (alloc x d) dst" using dst lt by (simp add: is_dir_def alloc_def)
  show "disk_wf e" "fresh e = Suc (fresh d)" using wf by (simp_all add: e disk_wf_alloc)
  show "is_dir e dst" using a by (simp add: e is_dir_def set_entry_def split: option.splits inode.splits)
  show "inodes e (fresh d) = Some x" "\<And>k. k < fresh d \<Longrightarrow> k \<noteq> dst \<Longrightarrow> inodes e k = inodes d k"
    using lt by (simp_all add: e inodes_set_entry_other alloc_def)
  show "entry e dst m = (if m = n then Some (fresh d) else entry d dst m)" for m
    using a lt by (simp add: e entry_set_entry entry_alloc_leaf [OF x])
  show "entry e (fresh d) m = None" for m
    using lt by (simp add: e entry_set_entry entry_alloc_leaf [OF x])
qed

lemma entry_unallocated: "disk_wf d \<Longrightarrow> fresh d \<le> k \<Longrightarrow> entry d k n = None"
  by (simp add: entry_def disk_wf_def)

lemma graft_leaf:
  assumes wf: "disk_wf d" and dst: "is_dir d dst" and x: "\<forall>m. x \<noteq> Dir m"
    and src: "inodes d0 i = Some x"
  shows "grafted d0 dst d (set_entry dst n (Some (fresh d)) (alloc x d)) [n \<mapsto> i]"
proof -
  define e where "e = set_entry dst n (Some (fresh d)) (alloc x d)"
  note N = graft_new [OF wf dst disjI2 [OF x] e_def]
  have no: "entry d0 i c = None" for c using src x by (simp add: entry_def split: inode.split)
  have "view e (fresh d) cs = view d0 i cs" for cs
    using N(5,8) src no by (cases cs) auto
  moreover have "inside (fresh d) e"
    unfolding inside_def
  proof (intro allI impI)
    fix k m j assume "fresh d \<le> k" "entry e k m = Some j"
    moreover from this N(8) have "k \<noteq> fresh d" by auto
    ultimately show "fresh d \<le> j \<and> j < fresh e"
      using entry_unallocated [OF N(2), of k m] N(4) by simp
  qed
  ultimately show ?thesis
    unfolding e_def [symmetric] grafted_def using N by (auto simp: fun_eq_iff)
qed

lemma graft_dir:
  assumes wf: "disk_wf d" and dst: "is_dir d dst"
    and src: "inodes d0 i = Some (Dir sub)"
    and g: "grafted d0 (fresh d) (set_entry dst n (Some (fresh d)) (alloc (Dir []) d)) d' (map_of sub)"
  shows "grafted d0 dst d d' [n \<mapsto> i]"
proof -
  define e where "e = set_entry dst n (Some (fresh d)) (alloc (Dir []) d)"
  have x: "Dir [] = Dir [] \<or> (\<forall>m. Dir [] \<noteq> Dir m)" by simp
  note N = graft_new [OF wf dst x e_def]
  note G = graftedD [OF g [folded e_def]]
  have dst': "inodes d' dst = inodes e dst" using G(4) N(1,4) by simp
  have ent: "entry d' dst m = (if m = n then Some (fresh d) else entry d dst m)" for m
    using N(7) dst' by (simp add: entry_def)
  have new: "entry d' (fresh d) m = Some j \<Longrightarrow> fresh e \<le> j \<and> j < fresh d'" for m j
    using G(5,6) [of m] N(8) by (cases "map_of sub m") fastforce+
  have "inside (fresh d) d'"
    unfolding inside_def
  proof (intro allI impI)
    fix k m j assume k: "fresh d \<le> k" "entry d' k m = Some j"
    show "fresh d \<le> j \<and> j < fresh d'"
    proof (cases "k = fresh d")
      case True with new k(2) N(4) show ?thesis by fastforce
    next
      case False
      with k(1) N(4) have "fresh e \<le> k" by simp
      with insideD [OF G(3) _ k(2)] N(4) show ?thesis by simp
    qed
  qed
  moreover have "view d' (fresh d) cs = view d0 i cs" for cs
  proof (cases cs)
    case Nil
    with G(2) src show ?thesis
      by (auto simp: is_dir_def node_of_def split: option.splits inode.splits)
  next
    case (Cons c cs')
    have "entry d0 i c = map_of sub c" using src by (simp add: entry_def)
    with G(5,6) [of c] N(8) Cons show ?thesis by (cases "map_of sub c") auto
  qed
  moreover have "is_dir d' dst" using N(3) dst' by (simp add: is_dir_def)
  moreover have "inodes d' k = inodes d k" if "k < fresh d" "k \<noteq> dst" for k
    using that N(4,6) G(4) by simp
  ultimately show ?thesis
    unfolding grafted_def using ent G(1) N(4) by (auto simp: fun_eq_iff)
qed

section \<open>The copy of a directory\<close>

lemma tidy_entries:
  assumes "tidy d0" "disk_closed d0" "inodes d0 i = Some (Dir m)"
  shows "distinct (map fst m)" "\<forall>e \<in> set m. snd e < fresh d0"
proof -
  show d: "distinct (map fst m)" using assms(1,3) by (auto simp: tidy_def)
  show "\<forall>e \<in> set m. snd e < fresh d0"
  proof
    fix e assume "e \<in> set m"
    with d have "map_of m (fst e) = Some (snd e)" by simp
    with assms(3) have "entry d0 i (fst e) = Some (snd e)" by (simp add: entry_def)
    with assms(2) show "snd e < fresh d0" by (auto simp: disk_closed_def)
  qed
qed

lemma map_of_Cons_add: "n \<notin> fst ` set m \<Longrightarrow> [n \<mapsto> i] ++ map_of m = map_of ((n, i) # m)"
proof -
  assume "n \<notin> fst ` set m"
  then have "map_of m n = None" by (rule map_of_eq_None_iff [THEN iffD2])
  then show ?thesis by (auto simp: fun_eq_iff map_add_def split: option.split)
qed

lemma apart_source: "apart d0 d \<Longrightarrow> i < fresh d0 \<Longrightarrow> inodes d i = inodes d0 i"
  by (simp add: apart_def untouched_def)

lemma copy_one_grafts:
  assumes d0: "tidy d0" "disk_closed d0" and dst: "fresh d0 \<le> dst"
    and d: "apart d0 d" "is_dir d dst" "snd e < fresh d0" and e: "copy_one n dst e (True, d) = (True, d1)"
    and IH: "\<And>es dst d d'. apart d0 d \<Longrightarrow> fresh d0 \<le> dst \<Longrightarrow> is_dir d dst \<Longrightarrow> distinct (map fst es) \<Longrightarrow>
      \<forall>e \<in> set es. snd e < fresh d0 \<Longrightarrow> copy_entries n es dst d = (True, d') \<Longrightarrow> grafted d0 dst d d' (map_of es)"
  shows "apart d0 d1 \<and> grafted d0 dst d d1 [fst e \<mapsto> snd e]"
proof -
  have wf: "disk_wf d" using d(1) by (simp add: apart_def)
  note src = apart_source [OF d(1,3)]
  have new: "apart d0 (set_entry dst (fst e) (Some (fresh d)) (alloc x d))"
    if "x = Dir [] \<or> (\<forall>m. x \<noteq> Dir m)" for x
    by (rule apart_step [OF d(1) that dst])
  show ?thesis
  proof (cases "\<exists>sub. inodes d (snd e) = Some (Dir sub)")
    case False
    then obtain x where x: "inodes d (snd e) = Some x" "\<forall>m. x \<noteq> Dir m"
        and d1: "d1 = set_entry dst (fst e) (Some (fresh d)) (alloc x d)"
      using e by (auto simp: copy_one_def split: option.splits inode.splits)
    with graft_leaf [OF wf d(2) x(2), of d0 "snd e"] new [of x] src show ?thesis by simp
  next
    case True
    then obtain sub where sub: "inodes d (snd e) = Some (Dir sub)" by blast
    with e have copied: "copy_entries n sub (fresh d) (set_entry dst (fst e) (Some (fresh d)) (alloc (Dir []) d)) = (True, d1)"
      by (auto simp: copy_one_def split: prod.splits)
    from sub src have at: "inodes d0 (snd e) = Some (Dir sub)" by simp
    define d' where "d' = set_entry dst (fst e) (Some (fresh d)) (alloc (Dir []) d)"
    have x: "Dir [] = Dir [] \<or> (\<forall>m. Dir [] \<noteq> Dir m)" by simp
    note N = graft_new [OF wf d(2) x d'_def]
    have "fresh d0 \<le> fresh d" using d(1) by (simp add: apart_def)
    moreover have "is_dir d' (fresh d)" using N(5) by (simp add: is_dir_def)
    ultimately have "grafted d0 (fresh d) d' d1 (map_of sub)"
      using IH [OF new [OF x, folded d'_def] _ _ tidy_entries [OF d0 at] copied [folded d'_def]] by simp
    from graft_dir [OF wf d(2) at this [unfolded d'_def]] have "grafted d0 dst d d1 [fst e \<mapsto> snd e]" .
    moreover have "apart d0 d1"
      using copy_apart [OF new [OF x] \<open>fresh d0 \<le> fresh d\<close>, of n sub] copied by simp
    ultimately show ?thesis by simp
  qed
qed

lemma copy_one_false: "\<not> fst (fold (copy_one n dst) es (False, d))"
  by (induction es rule: rev_induct) (auto simp: copy_one_def split: option.split inode.split prod.split)

lemma copy_grafts:
  assumes d0: "tidy d0" "disk_closed d0"
  shows "apart d0 d \<Longrightarrow> fresh d0 \<le> dst \<Longrightarrow> is_dir d dst \<Longrightarrow> distinct (map fst es) \<Longrightarrow>
    \<forall>e \<in> set es. snd e < fresh d0 \<Longrightarrow> copy_entries n es dst d = (True, d') \<Longrightarrow>
    grafted d0 dst d d' (map_of es)"
proof (induction n arbitrary: es dst d d')
  case 0
  then show ?case by (auto simp: apart_def intro: grafted_refl)
next
  case (Suc n)
  have "grafted d0 dst d d' (map_of es)"
    if "apart d0 d" "is_dir d dst" "distinct (map fst es)" "\<forall>e \<in> set es. snd e < fresh d0"
      "fold (copy_one n dst) es (True, d) = (True, d')" for es d
    using that
  proof (induction es arbitrary: d)
    case Nil
    then show ?case by (auto simp: apart_def intro: grafted_refl)
  next
    case (Cons e es)
    obtain ok d1 where e: "copy_one n dst e (True, d) = (ok, d1)" by fastforce
    from Cons.prems(5) e have rest: "fold (copy_one n dst) es (ok, d1) = (True, d')" by simp
    with copy_one_false [of n dst es d1] have ok by (cases ok) auto
    with e have e: "copy_one n dst e (True, d) = (True, d1)" by simp
    have lt: "snd e < fresh d0" using Cons.prems(4) by simp
    note s = copy_one_grafts [OF d0 Suc.prems(2) Cons.prems(1,2) lt e Suc.IH]
    have "grafted d0 dst d1 d' (map_of es)"
      using Cons.IH [of d1] s Cons.prems(3,4) rest \<open>ok\<close> graftedD(2) by fastforce
    moreover have "dst < fresh d"
      using Cons.prems(1,2) by (auto simp: apart_def is_dir_def disk_wf_def not_less [symmetric] split: option.splits)
    ultimately have "grafted d0 dst d d' ([fst e \<mapsto> snd e] ++ map_of es)"
      using s grafted_trans by blast
    with Cons.prems(3) show ?case by (simp add: map_of_Cons_add del: map_of.simps)
  qed
  from this [of d es] Suc.prems show ?case by (simp add: copy_entries_Suc del: copy_entries.simps)
qed

section \<open>The depth bound\<close>

text \<open>A tree has no cycle, and what hangs below an inode has fewer descendants than the inode; so
  the number of inodes bounds the depth.\<close>

definition links :: "disk \<Rightarrow> (nat \<times> nat) set" where
  "links d = {(i, j). \<exists>n. entry d i n = Some j}"

definition below :: "disk \<Rightarrow> nat \<Rightarrow> nat set" where
  "below d i = {j. (i, j) \<in> (links d)\<^sup>+}"

text \<open>Every entry names a directory, a file or a link.\<close>

definition plain :: "disk \<Rightarrow> bool" where
  "plain d \<longleftrightarrow> (\<forall>i n j. entry d i n = Some j \<longrightarrow> (\<exists>x. inodes d j = Some x \<and> x \<noteq> Fifo))"

lemma below_bound: "disk_closed d \<Longrightarrow> below d i \<subseteq> {..<fresh d}"
proof
  fix j assume d: "disk_closed d" and "j \<in> below d i"
  then have "(i, j) \<in> (links d)\<^sup>+" by (simp add: below_def)
  then obtain k where "(k, j) \<in> links d" by (cases rule: tranclE) blast+
  with d show "j \<in> {..<fresh d}" by (auto simp: links_def disk_closed_def)
qed

lemma below_finite: "disk_closed d \<Longrightarrow> finite (below d i)"
  by (meson below_bound finite_lessThan finite_subset)

lemma below_smaller:
  assumes d: "disk_closed d" "acyclic (links d)" and e: "entry d i n = Some j"
  shows "card (below d j) < card (below d i)"
proof (rule psubset_card_mono [OF below_finite [OF d(1)]])
  have l: "(i, j) \<in> links d" using e by (auto simp: links_def)
  have "below d j \<subseteq> below d i" using l by (auto simp: below_def intro: trancl_into_trancl2)
  moreover have "j \<in> below d i" using l by (auto simp: below_def)
  moreover have "j \<notin> below d j" using d(2) by (auto simp: below_def acyclic_def)
  ultimately show "below d j \<subset> below d i" by blast
qed

lemma copy_deep_enough:
  assumes d0: "tidy d0" "disk_closed d0" "acyclic (links d0)" "plain d0"
  shows "apart d0 d \<Longrightarrow> fresh d0 \<le> dst \<Longrightarrow>
    \<forall>e \<in> set es. \<exists>k m. entry d0 k m = Some (snd e) \<and> Suc (card (below d0 (snd e))) \<le> n \<Longrightarrow>
    fst (copy_entries n es dst d)"
proof (induction n arbitrary: es dst d)
  case 0
  then show ?case by (cases es) auto
next
  case (Suc n)
  let ?ok = "\<lambda>e. \<exists>k m. entry d0 k m = Some (snd e) \<and> Suc (card (below d0 (snd e))) \<le> Suc n"
  have step: "fst (copy_one n dst e s) \<and> apart d0 (snd (copy_one n dst e s))" if s: "fst s" "apart d0 (snd s)" and e: "?ok e" for e s
  proof -
    from e obtain k m where k: "entry d0 k m = Some (snd e)" and c: "card (below d0 (snd e)) \<le> n" by auto
    from k d0(4) obtain x where x: "inodes d0 (snd e) = Some x" "x \<noteq> Fifo" unfolding plain_def by blast
    from k d0(2) have "snd e < fresh d0" by (auto simp: disk_closed_def)
    from apart_source [OF s(2) this] x have at: "inodes (snd s) (snd e) = Some x" by simp
    have new: "apart d0 (set_entry dst (fst e) (Some (fresh (snd s))) (alloc y (snd s)))"
      if "y = Dir [] \<or> (\<forall>m. y \<noteq> Dir m)" for y
      by (rule apart_step [OF s(2) that Suc.prems(2)])
    show ?thesis
    proof (cases x)
      case (Dir sub)
      have "\<exists>k m. entry d0 k m = Some (snd e') \<and> Suc (card (below d0 (snd e'))) \<le> n" if "e' \<in> set sub" for e'
      proof -
        have "distinct (map fst sub)" using tidy_entries(1) [OF d0(1,2)] x Dir by simp
        with that have "map_of sub (fst e') = Some (snd e')" by simp
        with x Dir have en: "entry d0 (snd e) (fst e') = Some (snd e')" by (simp add: entry_def)
        from below_smaller [OF d0(2,3) en] en c show ?thesis by fastforce
      qed
      moreover have le: "fresh d0 \<le> fresh (snd s)" using s(2) by (simp add: apart_def)
      ultimately show ?thesis
        using Suc.IH [OF new le, of "Dir []" sub] copy_apart [OF new le, of "Dir []" n sub] at Dir s(1)
        by (auto simp: copy_one_def split: prod.splits)
    qed (use at new s(1) x in \<open>auto simp: copy_one_def\<close>)
  qed
  have "fst (fold (copy_one n dst) es s)" if "fst s" "apart d0 (snd s)" "\<forall>e \<in> set es. ?ok e" for s
    using that
  proof (induction es arbitrary: s)
    case (Cons e es)
    then have "fst (copy_one n dst e s) \<and> apart d0 (snd (copy_one n dst e s))" by (intro step) auto
    with Cons.IH [of "copy_one n dst e s"] Cons.prems(3) show ?case by simp
  qed simp
  from this [of "(True, d)"] Suc.prems show ?case by (simp add: copy_entries_Suc del: copy_entries.simps)
qed

section \<open>The workspace of a fork\<close>

lemma copytree_grafts:
  assumes d0: "tidy d0" "disk_closed d0" "disk_wf d0" and r: "r = fresh d0"
    and run: "copytree_disk ws r (alloc (Dir []) d0) = (True, d)" and ws: "ws < fresh d0"
  obtains es where "inodes d0 ws = Some (Dir es)" "grafted d0 r (alloc (Dir []) d0) d (map_of es)"
proof -
  let ?d1 = "alloc (Dir []) d0"
  have same: "inodes ?d1 ws = inodes d0 ws" using ws by (simp add: alloc_def)
  from run obtain es where es: "inodes d0 ws = Some (Dir es)"
      and copied: "copy_entries (Suc (fresh d0)) es r ?d1 = (True, d)"
    by (auto simp: copytree_disk_def same simp del: copy_entries.simps split: option.splits inode.splits)
  have "is_dir ?d1 r" by (simp add: is_dir_def alloc_def r)
  then have "grafted d0 r ?d1 d (map_of es)"
    using copy_grafts [OF d0(1,2) apart_new [OF apart_refl [OF d0(3)]] _ _ tidy_entries [OF d0(1,2) es] copied] r
    by simp
  with es that show thesis by blast
qed

lemma copytree_view:
  assumes d0: "tidy d0" "disk_closed d0" "disk_wf d0" and r: "r = fresh d0"
    and run: "copytree_disk ws r (alloc (Dir []) d0) = (True, d)" and ws: "ws < fresh d0"
  shows "view d r = view d0 ws" "inside (fresh d0) d"
proof -
  let ?d1 = "alloc (Dir []) d0"
  obtain es where es: "inodes d0 ws = Some (Dir es)" and g: "grafted d0 r ?d1 d (map_of es)"
    by (rule copytree_grafts [OF assms])
  have new: "entry ?d1 r n = None" for n by (simp add: entry_def alloc_def r)
  have view: "view d r cs = view d0 ws cs" for cs
  proof (cases cs)
    case Nil
    with graftedD(2) [OF g] es show ?thesis
      by (auto simp: is_dir_def node_of_def split: option.splits inode.splits)
  next
    case (Cons c cs')
    have "entry d0 ws c = map_of es c" using es by (simp add: entry_def)
    with graftedD(5,6) [OF g, of c] new Cons show ?thesis by (cases "map_of es c") auto
  qed
  then show "view d r = view d0 ws" by (simp add: fun_eq_iff)
  show "inside (fresh d0) d"
    unfolding inside_def
  proof (intro allI impI)
    fix k n j assume k: "fresh d0 \<le> k" and e: "entry d k n = Some j"
    show "fresh d0 \<le> j \<and> j < fresh d"
    proof (cases "k = r")
      case True
      with graftedD(5,6) [OF g, of n] new [of n] e show ?thesis by (cases "map_of es n") auto
    next
      case False
      with k r have "fresh ?d1 \<le> k" by simp
      with insideD [OF graftedD(3) [OF g] _ e] show ?thesis by simp
    qed
  qed
qed

lemma mkdtemp_disk:
  assumes "undisturbed (dk_os D)" "mkdtemp D w = (Inr r, w')"
  shows "r = fresh (disk_of (host w))" "disk_of (host w') = alloc (Dir []) (disk_of (host w))"
  using assms
  by (auto simp: mkdtemp_def comp_defs on_host_def syscall_def undisturbed_def own_def Let_def
      split: prod.splits sum.splits option.splits)

lemma fork_prepare_disk:
  assumes E: "undisturbed (dk_os D)" and run: "fork_prepare D cfg c ws r w = (Inr x, w')"
  shows "copytree_disk ws r (disk_of (host w)) = (True, disk_of (host w'))"
proof -
  let ?d = "disk_of (host w)"
  let ?Q = "\<lambda>d. copytree_disk ws r ?d = (True, d)"
  have copy: "on_disk (\<lambda>d. d = ?d) (copytree (dk_os D) ws r) (\<lambda>_. ?Q) (\<lambda>_. True)"
    unfolding copytree_def
  proof (rule on_disk_bnd)
    show "on_disk (\<lambda>d. d = ?d) (syscall (dk_os D) (\<lambda>d. Inr (copytree_disk ws r d)))
        (\<lambda>ok d. copytree_disk ws r ?d = (ok, d)) (\<lambda>_. True)"
      by (rule on_disk_syscall) (use E in simp_all)
    show "on_disk (\<lambda>d. copytree_disk ws r ?d = (ok, d)) (guard_or ok e) (\<lambda>_. ?Q) (\<lambda>_. True)" for ok e
      by (rule on_disk_conseq [OF on_disk_guard [where P = "\<lambda>d. copytree_disk ws r ?d = (ok, d)"]]) auto
  qed
  have image: "triple (disk_is ?Q) (fork_image D cfg c) (\<lambda>_. disk_is ?Q) (\<lambda>_ _. True)"
    unfolding fork_image_def by (intro keeps_triple keeps_steps disk_kept host_world)
  have chmod: "on_disk ?Q (sys_fchmod (dk_os D) r) (\<lambda>_. ?Q) (\<lambda>_. True)"
    by (rule on_disk_conseq [OF keeps_chmod [OF E, of ?Q]]) auto
  have "triple (disk_is (\<lambda>d. d = ?d)) (fork_prepare D cfg c ws r) (\<lambda>_. disk_is ?Q) (\<lambda>_ _. True)"
    unfolding fork_prepare_def next_do_def
    apply (rule triple_try_except [where E = "\<lambda>_ _. True"])
     apply (rule triple_bnd [OF host_triple [OF copy]])
     apply (rule triple_bnd [OF host_triple [OF chmod]])
     apply (rule image)
    by (auto intro!: triple_raise triple_bnd [OF triple_any])
  from tripleD [OF this _ run] show ?thesis by simp
qed

lemma fork_view:
  assumes E: "undisturbed (dk_os D)" and d: "disk_wf (disk_of (host w))" "disk_closed (disk_of (host w))"
    "tidy (disk_of (host w))"
    and ws: "dr_workspace b = Some ws" "is_dir (disk_of (host w)) ws"
    and run: "docker_fork D (b, w) = (Inr child, (b', w'))"
  shows "\<exists>r. dr_workspace child = Some r \<and> view (disk_of (host w')) r = view (disk_of (host w)) ws"
    and "inside (fresh (disk_of (host w))) (disk_of (host w'))"
proof -
  obtain c cfg ws' r w1 img owns w2 where "dr_workspace b = Some ws'" and
      mk: "mkdtemp D w = (Inr r, w1)" and prep: "fork_prepare D cfg c ws' r w1 = (Inr (img, owns), w2)"
      and boot: "boot_child D (cfg\<lparr>image_name := img\<rparr>) r owns (new_docker True (dr_runtime_name b)) w2 = (Inr child, w')"
    by (rule fork_result [OF run])
  with ws(1) have prep: "fork_prepare D cfg c ws r w1 = (Inr (img, owns), w2)" by simp
  note made = mkdtemp_disk [OF E mk]
  from fork_prepare_disk [OF E prep] made(2)
  have copied: "copytree_disk ws r (alloc (Dir []) (disk_of (host w))) = (True, disk_of (host w2))" by simp
  have same: "disk_of (host w') = disk_of (host w2)"
    using keepsD [OF boot_child_apart [where P = "\<lambda>d. d = disk_of (host w2)"] _ boot] by simp
  have "ws < fresh (disk_of (host w))"
    using d(1) ws(2) by (cases "ws < fresh (disk_of (host w))") (auto simp: disk_wf_def is_dir_def not_less)
  note copy = copytree_view [OF d(3,2,1) made(1) copied this, folded same]
  from boot have "dr_workspace child = Some r"
    by (auto simp: boot_child_def dest: workspace_boot split: sum.splits prod.splits)
  with copy(1) show "\<exists>r. dr_workspace child = Some r \<and> view (disk_of (host w')) r = view (disk_of (host w)) ws"
    by blast
  show "inside (fresh (disk_of (host w))) (disk_of (host w'))" by (rule copy(2))
qed

text \<open>What is at the paths below an inode does not change while a closed set around it is untouched.\<close>

definition closed_in :: "nat set \<Rightarrow> disk \<Rightarrow> bool" where
  "closed_in X d \<longleftrightarrow> (\<forall>i \<in> X. \<forall>n j. entry d i n = Some j \<longrightarrow> j \<in> X)"

lemma view_untouched:
  assumes "closed_in X d" "untouched X d d'"
  shows "i \<in> X \<Longrightarrow> view d' i cs = view d i cs"
proof (induction cs arbitrary: i)
  case (Cons c cs)
  have "entry d' i c = entry d i c" using assms(2) Cons.prems by (simp add: entry_def untouched_def)
  with assms(1) Cons show ?case by (auto simp: closed_in_def split: option.split)
qed (use assms(2) in \<open>simp add: untouched_def\<close>)

text \<open>A write of a runtime changes nothing in a set that its workspace is outside of.\<close>

lemma undisturbed_confined: "undisturbed E \<Longrightarrow> guest_confined X E"
  by (simp add: undisturbed_def guest_confined_def)

lemma write_untouched:
  assumes E: "undisturbed (dk_os D)" and r: "dr_workspace b = Some r" "r \<notin> X"
    and c: "confined X (disk_of (host w))"
  shows "untouched X (disk_of (host w)) (disk_of (host (snd (snd (docker_write_file D p content (b, w))))))"
proof -
  let ?t = "dk_token D (draws w)" and ?w = "w\<lparr>draws := Suc (draws w)\<rparr>"
  have run: "snd (snd (docker_write_file D p content (b, w))) =
      ?w\<lparr>host := snd (atomic_write (dk_os D) r ?t p content (host w))\<rparr>"
    using r(1)
    by (simp add: docker_write_file_def require_field_def get_rt_def gets_def bnd_def ret_def on_snd_def
        draw_def on_host_def split: prod.split)
  have "held X (disk_of (host w)) (disk_of (host w))" using c by (simp add: held_def)
  from keptD(1) [OF kept_atomic_write [OF undisturbed_confined [OF E] r(2)] this prod.collapse [symmetric]]
  show ?thesis by (simp add: run held_def)
qed

end
