(* ===== verification/Docker_Resources.thy ===== *)
theory Docker_Resources
  imports Docker_Copy
begin

text \<open>
  What a runtime object made and has not removed is what its fields name: the account
  \<open>settles base\<close> is kept by booting, whatever fails, and removing everything brings it back to
  \<open>base\<close> as long as the daemon answers the calls that remove.
\<close>

section \<open>The account\<close>

definition held_sidecar :: "sidecar \<Rightarrow> resource set" where
  "held_sidecar sc = Net ` set_option (sc_network sc) \<union> Box ` set_option (sc_proxy sc)"

definition held_by :: "docker_rt \<Rightarrow> resource set" where
  "held_by b = Box ` set_option (dr_container b) \<union> TempDir ` set_option (dr_workspace b) \<union>
     Img ` set_option (dr_owns_image b) \<union>
     (case dr_egress b of None \<Rightarrow> {} | Some sc \<Rightarrow> held_sidecar sc)"

definition account :: "resource set \<Rightarrow> docker_rt \<times> docker_world \<Rightarrow> bool" where
  "account base s \<longleftrightarrow> set (owned (snd s)) \<subseteq> base \<union> held_by (fst s) \<and>
     (dr_owns_image (fst s) \<noteq> None \<longrightarrow> dr_client (fst s))"

definition sidecar_account :: "resource set \<Rightarrow> sidecar \<times> docker_world \<Rightarrow> bool" where
  "sidecar_account base s \<longleftrightarrow> set (owned (snd s)) \<subseteq> base \<union> held_sidecar (fst s)"

abbreviation owns_within :: "resource set \<Rightarrow> docker_world \<Rightarrow> bool" where
  "owns_within X w \<equiv> set (owned w) \<subseteq> X"

text \<open>The daemon answers every call that removes something.\<close>

fun removes :: "dcall \<Rightarrow> bool" where
  "removes (ContainerRemove _) = True" | "removes (NetworkReload _) = True"
| "removes (NetworkDisconnect _ _) = True" | "removes (NetworkRemove _) = True"
| "removes (ImageRemove _) = True" | "removes _ = False"

definition removals_answered :: "docker_env \<Rightarrow> bool" where
  "removals_answered D \<longleftrightarrow> (\<forall>n c. removes c \<longrightarrow> dk_fault D n c = None)"

definition caught :: "exn \<Rightarrow> bool" where
  "caught e \<longleftrightarrow> exn_isa e UnsupportedCapabilityError \<or> exn_isa e DockerException \<or> exn_isa e OSError"

definition faults_caught :: "docker_env \<Rightarrow> bool" where
  "faults_caught D \<longleftrightarrow> (\<forall>n c e. dk_fault D n c = Some e \<longrightarrow> caught e)"

section \<open>Removing\<close>

text \<open>\<open>sure P m Q\<close>: from a state in \<open>P\<close> the computation returns, in a state in \<open>Q\<close>.\<close>

abbreviation sure :: "('s \<Rightarrow> bool) \<Rightarrow> (exn, 's, 'a) comp \<Rightarrow> ('s \<Rightarrow> bool) \<Rightarrow> bool" where
  "sure P m Q \<equiv> triple P m (\<lambda>_. Q) (\<lambda>_ _. False)"

lemma triple_get_then: "(\<And>x. triple P (f x) Q E) \<Longrightarrow> triple P (bnd (gets g) f) Q E"
  by (auto simp: triple_def bnd_def gets_def)

lemma sure_next: "sure P m Q \<Longrightarrow> sure Q n R \<Longrightarrow> sure P (next_do m n) R"
  unfolding next_do_def by (rule triple_bnd)

lemma sure_suppressing: "sure P m Q \<Longrightarrow> sure P (suppressing ign m) Q"
  unfolding suppressing_def by (rule triple_try_except [where E = "\<lambda>_ _. False"]) (auto simp: triple_def)

lemma sure_for_each: "(\<And>x. sure P (f x) P) \<Longrightarrow> sure P (for_each xs f) P"
  by (induction xs) (auto intro: sure_next triple_ret)

lemma sure_on_snd: "sure P m Q \<Longrightarrow> sure (\<lambda>s. F (fst s) \<and> P (snd s)) (on_snd m) (\<lambda>s. F (fst s) \<and> Q (snd s))"
  by (fastforce simp: triple_def on_snd_def split: prod.splits sum.splits)

lemma sure_option:
  "(\<And>y. x = Some y \<Longrightarrow> sure P (f y) Q) \<Longrightarrow> (x = None \<Longrightarrow> \<forall>s. P s \<longrightarrow> Q s) \<Longrightarrow>
   sure P (case x of None \<Rightarrow> ret () | Some y \<Rightarrow> f y) Q"
  by (cases x) (auto intro: triple_ret)

lemma sure_remove:
  assumes "removals_answered D" "removes c"
  shows "sure (owns_within (insert r X)) (sdk_remove D c r) (owns_within X)"
  using assms
  by (auto simp: triple_def sdk_remove_def sdk_do_def sdk_def Let_def removals_answered_def disown_def comp_defs)

lemma sure_sdk:
  assumes "removals_answered D" "removes c"
  shows "sure (owns_within X) (sdk D c) (owns_within X)" "sure (owns_within X) (sdk_do D c) (owns_within X)"
  using assms by (auto simp: triple_def sdk_do_def sdk_def Let_def removals_answered_def comp_defs)

text \<open>After \<open>EgressSidecar.destroy\<close> nothing of the sidecar is left.\<close>

lemma sidecar_destroy_account:
  assumes D: "removals_answered D"
  shows "sure (sidecar_account base) (sidecar_destroy D)
    (\<lambda>s. held_sidecar (fst s) = {} \<and> owns_within base (snd s))"
proof -
  let ?none = "\<lambda>sc. held_sidecar sc = {}"
  let ?held = "\<lambda>proxy net s. ?none (fst s) \<and> owns_within (base \<union> Net ` set_option net \<union> Box ` set_option proxy) (snd s)"
  let ?ign = "\<lambda>e. exn_isa e DockerException"
  have proxy: "sure (?held proxy net) (case proxy of None \<Rightarrow> ret ()
        | Some p \<Rightarrow> suppressing ?ign (on_snd (sdk_remove D (ContainerRemove p) (Box p)))) (?held None net)"
    for proxy net
    by (rule sure_option) (auto intro!: sure_suppressing sure_on_snd sure_remove D)
  have disconnect: "sure (owns_within X) (bnd (sdk D (NetworkReload n)) (\<lambda>k.
      next_do (for_each (dk_attached D k) (\<lambda>c. suppressing ?ign (sdk_do D (NetworkDisconnect n c))))
        (sdk_remove D (NetworkRemove n) (Net n)))) (owns_within base)" if "X = insert (Net n) base" for n X
    unfolding that
    by (rule triple_bnd [OF sure_sdk(1) [OF D]])
      (auto intro!: sure_next sure_for_each sure_suppressing sure_sdk sure_remove D)
  have net: "sure (?held None net) (case net of None \<Rightarrow> ret ()
        | Some n \<Rightarrow> suppressing ?ign (on_snd (bnd (sdk D (NetworkReload n)) (\<lambda>k.
            next_do (for_each (dk_attached D k) (\<lambda>c. suppressing ?ign (sdk_do D (NetworkDisconnect n c))))
              (sdk_remove D (NetworkRemove n) (Net n)))))) (\<lambda>s. ?none (fst s) \<and> owns_within base (snd s))" for net
    by (rule sure_option) (auto intro!: sure_suppressing sure_on_snd disconnect)
  have start: "triple (sidecar_account base) (gets (sc_proxy \<circ> fst))
      (\<lambda>p s. p = sc_proxy (fst s) \<and> sidecar_account base s) (\<lambda>_ _. False)"
    "triple (\<lambda>s. p = sc_proxy (fst s) \<and> sidecar_account base s) (gets (sc_network \<circ> fst))
      (\<lambda>n s. n = sc_network (fst s) \<and> p = sc_proxy (fst s) \<and> sidecar_account base s) (\<lambda>_ _. False)" for p
    by (auto simp: triple_def gets_def)
  have reset: "sure (\<lambda>s. n = sc_network (fst s) \<and> p = sc_proxy (fst s) \<and> sidecar_account base s)
      (modify (\<lambda>(sc, w). (sc\<lparr>sc_proxy := None, sc_network := None\<rparr>, w))) (?held p n)" for p n
    by (auto simp: triple_def modify_def sidecar_account_def held_sidecar_def)
  show ?thesis
    unfolding sidecar_destroy_def
    by (rule triple_bnd [OF start(1)], rule triple_bnd [OF start(2)], rule sure_next [OF reset],
        rule sure_next [OF proxy net])
qed

section \<open>Releasing a runtime\<close>

lemma with_sidecar_destroy:
  assumes D: "removals_answered D"
  shows "sure (owns_within (X \<union> held_sidecar sc)) (with_sidecar sc (sidecar_destroy D)) (owns_within X)"
  unfolding triple_def
proof (intro allI impI)
  fix w assume "owns_within (X \<union> held_sidecar sc) w"
  then have "sidecar_account X (sc, w)" by (simp add: sidecar_account_def)
  with sidecar_destroy_account [OF D, of X]
  show "case with_sidecar sc (sidecar_destroy D) w of (Inl e, t) \<Rightarrow> False | (Inr x, t) \<Rightarrow> owns_within X t"
    unfolding triple_def with_sidecar_def by (fastforce split: prod.splits sum.splits)
qed

lemma sure_option_do:
  "(\<And>y. x = Some y \<Longrightarrow> sure P (f y) Q) \<Longrightarrow> (x = None \<Longrightarrow> \<forall>s. P s \<longrightarrow> Q s) \<Longrightarrow> sure P (option_do x f) Q"
  unfolding option_do_def by (rule sure_option)

lemma sure_rmtree: "sure (owns_within (insert (TempDir r) X)) (rmtree r) (owns_within X)"
  by (auto simp: triple_def rmtree_def disown_def modify_def)

lemma release_account:
  assumes D: "removals_answered D" and img: "dr_owns_image b \<noteq> None \<longrightarrow> dr_client b"
  shows "sure (\<lambda>s. F (fst s) \<and> owns_within (base \<union> held_by b) (snd s)) (release D ign b)
    (\<lambda>s. F (fst s) \<and> owns_within base (snd s))"
proof -
  define E where "E = (case dr_egress b of None \<Rightarrow> {} | Some sc \<Rightarrow> held_sidecar sc)"
  let ?I = "Img ` set_option (dr_owns_image b)" and ?T = "TempDir ` set_option (dr_workspace b)"
    and ?B = "Box ` set_option (dr_container b)"
  let ?o = "\<lambda>X s. F (fst s) \<and> owns_within X (snd s)"
  have box: "sure (?o (base \<union> ?I \<union> E \<union> ?T \<union> ?B)) (option_do (dr_container b) (\<lambda>c. suppressing ign (remove_container D c)))
      (?o (base \<union> ?I \<union> E \<union> ?T))"
    unfolding remove_container_def
    by (rule sure_option_do) (auto intro!: sure_suppressing sure_on_snd sure_remove D)
  have dir: "sure (?o (base \<union> ?I \<union> E \<union> ?T)) (option_do (dr_workspace b) (\<lambda>r. on_snd (rmtree r))) (?o (base \<union> ?I \<union> E))"
    by (rule sure_option_do) (auto intro!: sure_on_snd sure_rmtree)
  have side: "sure (?o (base \<union> ?I \<union> E)) (option_do (dr_egress b) (\<lambda>sc. on_snd (with_sidecar sc (sidecar_destroy D))))
      (?o (base \<union> ?I))"
    by (rule sure_option_do) (auto intro!: sure_on_snd with_sidecar_destroy D simp: E_def)
  have image: "sure (?o (base \<union> ?I)) (option_do (dr_owns_image b) (\<lambda>i. when_do (dr_client b) (remove_image D i))) (?o base)"
    unfolding remove_image_def
    by (rule sure_option_do) (use img in \<open>auto simp: when_do_def intro!: sure_suppressing sure_on_snd sure_remove D\<close>)
  have "base \<union> held_by b = base \<union> ?I \<union> E \<union> ?T \<union> ?B" by (auto simp: held_by_def E_def)
  then show ?thesis
    unfolding release_def using sure_next [OF box sure_next [OF dir sure_next [OF side image]]] by simp
qed

lemma teardown_account:
  assumes "removals_answered D"
  shows "sure (account base) (teardown D ign) (\<lambda>s. settled (fst s) \<and> owns_within base (snd s))"
  unfolding triple_def
proof (intro allI impI)
  fix s assume s: "account base s"
  have "sure (\<lambda>t. fst t = forget (fst s) \<and> owns_within (base \<union> held_by (fst s)) (snd t)) (release D ign (fst s))
      (\<lambda>t. fst t = forget (fst s) \<and> owns_within base (snd t))"
    by (rule release_account [OF assms]) (use s in \<open>simp add: account_def\<close>)
  with s show "case teardown D ign s of (Inl e, t) \<Rightarrow> False | (Inr x, t) \<Rightarrow> settled (fst t) \<and> owns_within base (snd t)"
    by (cases s) (fastforce simp: teardown_eq account_def triple_def split: prod.splits sum.splits)
qed

section \<open>What booting raises\<close>

definition raises_caught :: "(exn, 's, 'a) comp \<Rightarrow> bool" where
  "raises_caught m \<longleftrightarrow> triple (\<lambda>_. True) m (\<lambda>_ _. True) (\<lambda>e _. caught e)"

lemma raises_ret: "raises_caught (ret x)" "raises_caught (gets f)" "raises_caught (modify g)"
  by (auto simp: raises_caught_def triple_def comp_defs)

lemma raises_raise: "caught e \<Longrightarrow> raises_caught (raise e)"
  by (simp add: raises_caught_def triple_raise)

lemma raises_bnd: "raises_caught m \<Longrightarrow> (\<And>x. raises_caught (f x)) \<Longrightarrow> raises_caught (bnd m f)"
  unfolding raises_caught_def by (rule triple_bnd)

lemma raises_next: "raises_caught m \<Longrightarrow> raises_caught n \<Longrightarrow> raises_caught (next_do m n)"
  unfolding next_do_def by (rule raises_bnd)

lemma raises_when: "(b \<Longrightarrow> raises_caught m) \<Longrightarrow> raises_caught (when_do b m)"
  by (simp add: when_do_def raises_ret)

lemma raises_guard: "caught e \<Longrightarrow> raises_caught (guard_or b e)"
  by (simp add: guard_or_def raises_ret raises_raise)

lemma raises_try:
  assumes "raises_caught m" "\<And>e. caught e \<Longrightarrow> raises_caught (h e)"
  shows "raises_caught (try_except m h)"
  unfolding raises_caught_def
proof (rule triple_try_except [OF assms(1) [unfolded raises_caught_def]])
  show "triple (\<lambda>_. caught e) (h e) (\<lambda>_ _. True) (\<lambda>e _. caught e)" for e
    by (rule triple_const) (rule assms(2) [unfolded raises_caught_def])
qed

lemma raises_on_snd: "raises_caught m \<Longrightarrow> raises_caught (on_snd m)"
  by (fastforce simp: raises_caught_def triple_def on_snd_def split: prod.splits sum.splits)

lemma raises_rt: "raises_caught (set_rt f)" "raises_caught (get_rt g)" "raises_caught (own r)" "raises_caught (draw h)"
  by (auto simp: set_rt_def get_rt_def own_def raises_ret)
    (simp add: raises_caught_def triple_def draw_def)

lemma raises_sdk:
  assumes "faults_caught D"
  shows "raises_caught (sdk D c)" "raises_caught (sdk_do D c)" "raises_caught (sdk_make D c f)"
proof -
  show s: "raises_caught (sdk D c)" for c
    using assms by (auto simp: raises_caught_def triple_def sdk_def Let_def faults_caught_def split: option.split)
  show "raises_caught (sdk_do D c)" "raises_caught (sdk_make D c f)"
    unfolding sdk_do_def sdk_make_def by (intro raises_bnd raises_next s raises_ret raises_rt)+
qed

lemmas raises_rules = raises_ret raises_bnd raises_next raises_when raises_guard raises_try raises_on_snd
  raises_rt raises_sdk raises_raise

section \<open>The account while booting\<close>

text \<open>The calls that leave the owned resources alone.\<close>

lemma owned_world: "keeps (owns_within X) (sdk D c)" "keeps (owns_within X) (draw f)"
  by (auto intro!: keepsI simp: sdk_def Let_def draw_def split: option.splits)

lemma owned_calls: "keeps (owns_within X) (sdk_do D c)" "keeps (owns_within X) (ensure_image D img)"
  unfolding ensure_image_def sdk_do_def by (intro keeps_steps keeps_try_except owned_world)+

abbreviation acct :: "resource set \<Rightarrow> (docker_rt \<Rightarrow> bool) \<Rightarrow> docker_rt \<times> docker_world \<Rightarrow> bool" where
  "acct base F s \<equiv> account base s \<and> F (fst s)"

lemma acct_on_snd: "(\<And>X. keeps (owns_within X) m) \<Longrightarrow> keeps (acct base F) (on_snd m)"
proof (rule keepsI)
  fix s r t assume m: "\<And>X. keeps (owns_within X) m" and s: "acct base F s" and run: "on_snd m s = (r, t)"
  then have "m (snd s) = (r, snd t)" "fst t = fst s" by (auto simp: on_snd_def split: prod.splits)
  with keepsD [OF m [of "base \<union> held_by (fst s)"] _ this(1)] s show "acct base F t"
    by (simp add: account_def)
qed

lemma acct_get: "keeps (acct base F) (get_rt f)"
  by (simp add: get_rt_def)

lemma acct_set:
  "(\<And>b. held_by (f b) = held_by b \<and> dr_owns_image (f b) = dr_owns_image b \<and>
     (dr_client b \<longrightarrow> dr_client (f b)) \<and> (F b \<longrightarrow> F (f b))) \<Longrightarrow> keeps (acct base F) (set_rt f)"
  by (rule keepsI) (auto simp: set_rt_def modify_def account_def)

lemma held_by_cong:
  "dr_container b = dr_container b' \<Longrightarrow> dr_workspace b = dr_workspace b' \<Longrightarrow>
   dr_owns_image b = dr_owns_image b' \<Longrightarrow> dr_egress b = dr_egress b' \<Longrightarrow> held_by b = held_by b'"
  by (simp add: held_by_def)

lemma make_within: "triple (owns_within X) (sdk_make D c f) (\<lambda>n. owns_within (insert (f n) X)) (\<lambda>_. owns_within X)"
  unfolding sdk_make_def next_do_def
  by (rule triple_bnd [OF owned_world(1) [unfolded keeps_def]])
    (auto simp: triple_def own_def comp_defs)

text \<open>The sidecar: whatever happens, its network and its proxy are in its fields.\<close>

lemma sidecar_on_snd: "(\<And>X. keeps (owns_within X) m) \<Longrightarrow> keeps (sidecar_account base) (on_snd m)"
proof (rule keepsI)
  fix s r t assume m: "\<And>X. keeps (owns_within X) m" and s: "sidecar_account base s" and run: "on_snd m s = (r, t)"
  then have "m (snd s) = (r, snd t)" "fst t = fst s" by (auto simp: on_snd_def split: prod.splits)
  with keepsD [OF m [of "base \<union> held_sidecar (fst s)"] _ this(1)] s show "sidecar_account base t"
    by (simp add: sidecar_account_def)
qed

definition bare :: "sidecar \<Rightarrow> bool" where
  "bare sc \<longleftrightarrow> sc_network sc = None \<and> sc_proxy sc = None"

lemma sidecar_make:
  "triple (\<lambda>s. sidecar_account base s \<and> P (fst s)) (on_snd (sdk_make D c f))
     (\<lambda>n s. owns_within (insert (f n) (base \<union> held_sidecar (fst s))) (snd s) \<and> P (fst s))
     (\<lambda>_. sidecar_account base)"
  unfolding triple_def
proof (intro allI impI)
  fix s assume s: "sidecar_account base s \<and> P (fst s)"
  then have "owns_within (base \<union> held_sidecar (fst s)) (snd s)" by (simp add: sidecar_account_def)
  with make_within [of "base \<union> held_sidecar (fst s)" D c f] s
  show "case on_snd (sdk_make D c f) s of (Inl e, t) \<Rightarrow> sidecar_account base t
      | (Inr n, t) \<Rightarrow> owns_within (insert (f n) (base \<union> held_sidecar (fst t))) (snd t) \<and> P (fst t)"
    by (fastforce simp: triple_def on_snd_def sidecar_account_def split: prod.splits sum.splits)
qed

lemma launch_account:
  "triple (\<lambda>s. sidecar_account base s \<and> bare (fst s)) (sidecar_launch D)
     (\<lambda>_. sidecar_account base) (\<lambda>_. sidecar_account base)"
proof -
  have net: "triple (\<lambda>s. owns_within (insert (Net n) (base \<union> held_sidecar (fst s))) (snd s) \<and> bare (fst s))
      (modify (\<lambda>(sc, w). (sc\<lparr>sc_network := Some n\<rparr>, w)))
      (\<lambda>_ s. sidecar_account base s \<and> sc_proxy (fst s) = None) (\<lambda>_. sidecar_account base)" for n
    by (auto simp: triple_def modify_def sidecar_account_def held_sidecar_def bare_def)
  have proxy: "triple (\<lambda>s. owns_within (insert (Box p) (base \<union> held_sidecar (fst s))) (snd s) \<and> sc_proxy (fst s) = None)
      (modify (\<lambda>(sc, w). (sc\<lparr>sc_proxy := Some p\<rparr>, w))) (\<lambda>_. sidecar_account base) (\<lambda>_. sidecar_account base)" for p
    by (auto simp: triple_def modify_def sidecar_account_def held_sidecar_def)
  have connect: "triple (sidecar_account base) (on_snd (sdk_do D c)) (\<lambda>_. sidecar_account base) (\<lambda>_. sidecar_account base)" for c
    using sidecar_on_snd [OF owned_calls(1)] by (simp add: keeps_def)
  show ?thesis
    unfolding sidecar_launch_def next_do_def
    apply (rule triple_get_then)
    apply (rule triple_bnd [OF sidecar_make])
    apply (rule triple_bnd [OF net])
    apply (rule triple_bnd [OF sidecar_make])
    by (rule triple_bnd [OF proxy connect])
qed

lemma start_account:
  assumes D: "removals_answered D"
  shows "triple (\<lambda>s. sidecar_account base s \<and> bare (fst s)) (sidecar_start D)
     (\<lambda>_. sidecar_account base) (\<lambda>_. sidecar_account base)"
proof -
  have clean: "triple (sidecar_account base) (sidecar_destroy D) (\<lambda>_. sidecar_account base) (\<lambda>_. sidecar_account base)"
    by (rule triple_conseq [OF sidecar_destroy_account [OF D]]) (auto simp: sidecar_account_def)
  have pull: "triple (\<lambda>s. sidecar_account base s \<and> bare (fst s)) (on_snd (ensure_image D img))
      (\<lambda>_ s. sidecar_account base s \<and> bare (fst s)) (\<lambda>_. sidecar_account base)" for img
    unfolding triple_def
  proof (intro allI impI)
    fix s assume s: "sidecar_account base s \<and> bare (fst s)"
    have "sidecar_account base (snd (on_snd (ensure_image D img) s))"
      using keepsD [OF sidecar_on_snd [OF owned_calls(2)] _ prod.collapse [symmetric]] s by blast
    moreover have "fst (snd (on_snd (ensure_image D img) s)) = fst s"
      by (simp add: on_snd_def split: prod.split)
    ultimately show "case on_snd (ensure_image D img) s of (Inl e, t) \<Rightarrow> sidecar_account base t
        | (Inr n, t) \<Rightarrow> sidecar_account base t \<and> bare (fst t)"
      using s by (auto split: prod.splits sum.splits)
  qed
  show ?thesis
    unfolding sidecar_start_def next_do_def
    apply (rule triple_get_then)
    apply (rule triple_bnd [OF pull])
    apply (rule triple_try_except [OF launch_account])
    by (auto intro!: triple_raise triple_bnd [OF clean])
qed

lemma run_sidecar_account:
  assumes D: "removals_answered D" and sc: "bare sc"
  shows "triple (acct base (\<lambda>b. dr_container b = None \<and> dr_egress b = Some sc)) (run_sidecar D sc)
    (\<lambda>_. acct base (\<lambda>b. dr_container b = None)) (\<lambda>_. account base)"
  unfolding triple_def
proof (intro allI impI)
  fix s assume s: "acct base (\<lambda>b. dr_container b = None \<and> dr_egress b = Some sc) s"
  obtain b w where sw: "s = (b, w)" by (cases s)
  define X where "X = base \<union> TempDir ` set_option (dr_workspace b) \<union> Img ` set_option (dr_owns_image b)"
  have held: "base \<union> held_by (b\<lparr>dr_egress := Some c\<rparr>) = X \<union> held_sidecar c" for c
    using s by (auto simp: X_def held_by_def sw)
  obtain r sc' w' where run: "sidecar_start D (sc, w) = (r, (sc', w'))"
    by (cases "sidecar_start D (sc, w)") auto
  have "b\<lparr>dr_egress := Some sc\<rparr> = b" using s by (cases b) (simp add: sw)
  with s held [of sc] have "sidecar_account X (sc, w)" by (simp add: sw account_def sidecar_account_def)
  with tripleD [OF start_account [OF D, of X] _ run] sc have "sidecar_account X (sc', w')"
    by (cases r) simp_all
  with held [of sc'] s run show "case run_sidecar D sc s of (Inl e, t) \<Rightarrow> account base t
      | (Inr x, t) \<Rightarrow> acct base (\<lambda>b. dr_container b = None) t"
    by (cases r) (auto simp: sw run_sidecar_def sidecar_account_def account_def)
qed

abbreviation listed :: "sandbox_config \<Rightarrow> bool" where
  "listed cfg \<equiv> np_mode (sp_network (policy cfg)) = ALLOWLIST"

lemma step_account:
  assumes "keeps (acct base F) m" "raises_caught m"
  shows "triple (acct base F) m (\<lambda>_. acct base F) (\<lambda>e s. account base s \<and> (caught e \<or> a))"
  unfolding triple_def
proof (intro allI impI)
  fix s assume s: "acct base F s"
  obtain r t where run: "m s = (r, t)" by (cases "m s")
  from keepsD [OF assms(1) s run] tripleD [OF assms(2) [unfolded raises_caught_def] _ run] run
  show "case m s of (Inl e, t) \<Rightarrow> account base t \<and> (caught e \<or> a) | (Inr x, t) \<Rightarrow> acct base F t"
    by (cases r) auto
qed

lemma start_egress_account:
  assumes D: "removals_answered D"
  shows "triple (acct base (\<lambda>b. dr_container b = None \<and> dr_egress b = None)) (start_egress D cfg labels)
     (\<lambda>_. acct base (\<lambda>b. dr_container b = None)) (\<lambda>e s. account base s \<and> (caught e \<or> listed cfg))"
proof (cases "listed cfg")
  case False
  then show ?thesis by (auto simp: start_egress_def intro: triple_ret)
next
  case True
  let ?F = "\<lambda>b. dr_container b = None \<and> dr_egress b = None"
  have keep: "triple (acct base F) m (\<lambda>_. acct base F) (\<lambda>_. account base)" if "keeps (acct base F) m" for m :: "'a docker_op" and F
    by (rule triple_conseq [OF that [unfolded keeps_def]]) auto
  have sc: "triple (acct base ?F) (of_sum (make_sidecar ref ds img l)) (\<lambda>sc s. bare sc \<and> acct base ?F s) (\<lambda>_. account base)"
    for ref ds img l
    by (auto simp: triple_def of_sum_def make_sidecar_def bare_def)
  have set: "triple (acct base ?F) (set_rt (\<lambda>b. b\<lparr>dr_egress := Some sc\<rparr>))
      (\<lambda>_. acct base (\<lambda>b. dr_container b = None \<and> dr_egress b = Some sc)) (\<lambda>_. account base)" if "bare sc" for sc
    using that by (auto simp: triple_def set_rt_def modify_def account_def held_by_def held_sidecar_def bare_def)
  have net: "keeps (acct base F) egress_network" for F
    unfolding egress_network_def by (intro keeps_steps acct_get)
  have "triple (acct base ?F) (start_egress D cfg labels)
     (\<lambda>_. acct base (\<lambda>b. dr_container b = None)) (\<lambda>_. account base)"
    unfolding start_egress_def next_do_def if_not_P [OF not_not [THEN iffD2, OF True]]
    apply (rule triple_bnd [OF keep [OF acct_on_snd [OF owned_world(2)]]])
    apply (rule triple_bnd [OF sc])
    apply (rule triple_pure)
    apply (rule triple_bnd [OF set], assumption)
    apply (rule triple_bnd [OF run_sidecar_account [OF D]], assumption)
    apply (rule triple_bnd [OF keep [OF net]])
    by (auto intro: triple_ret)
  then show ?thesis by (rule triple_conseq) (use True in auto)
qed

lemma boot_container_account:
  assumes D: "removals_answered D" "faults_caught D"
  shows "triple (acct base (\<lambda>b. dr_container b = None \<and> dr_egress b = None)) (boot_container D cfg ws labels)
     (\<lambda>_. account base) (\<lambda>e s. account base s \<and> (caught e \<or> listed cfg))"
proof -
  let ?F = "\<lambda>b. dr_container b = None \<and> dr_egress b = None" and ?C = "\<lambda>b. dr_container b = None"
  let ?E = "\<lambda>e s. account base s \<and> (caught e \<or> listed cfg)"
  have unsupported: "caught (Exn UnsupportedCapabilityError m)" for m by (simp add: caught_def)
  have image: "raises_caught (ensure_image D img)" for img
    unfolding ensure_image_def using raises_raise by (auto intro!: raises_try raises_sdk D(2))
  have client: "keeps (acct base ?F) (connect_client D)" "raises_caught (connect_client D)"
    unfolding connect_client_def
    by (intro keeps_steps acct_get acct_on_snd owned_calls acct_set) (auto simp: held_by_def intro!: raises_rules D(2))
  have rootless: "keeps (acct base ?F) (require_rootless D cfg)" "raises_caught (require_rootless D cfg)"
    unfolding require_rootless_def
    by (intro keeps_steps acct_on_snd owned_world) (auto intro!: raises_rules D(2) unsupported)
  have detect: "keeps (acct base F) (detect_timeout D)" "raises_caught (detect_timeout D)" for F
    unfolding detect_timeout_def
    by (intro keeps_steps keeps_try_except acct_get acct_on_snd owned_world)
      (auto split: option.split intro!: raises_rules D(2))
  have make: "triple (acct base ?C) (on_snd (sdk_make D c Box))
      (\<lambda>n s. owns_within (insert (Box n) (base \<union> held_by (fst s))) (snd s) \<and>
         (dr_owns_image (fst s) \<noteq> None \<longrightarrow> dr_client (fst s)) \<and> ?C (fst s)) ?E" for c
    unfolding triple_def
  proof (intro allI impI)
    fix s assume s: "acct base ?C s"
    obtain r w where run: "sdk_make D c Box (snd s) = (r, w)" by (cases "sdk_make D c Box (snd s)")
    from tripleD [OF make_within [of "base \<union> held_by (fst s)" D c Box] _ run] s
      tripleD [OF raises_sdk(3) [OF D(2), of c Box, unfolded raises_caught_def] _ run] run
    show "case on_snd (sdk_make D c Box) s of (Inl e, t) \<Rightarrow> ?E e t
        | (Inr n, t) \<Rightarrow> owns_within (insert (Box n) (base \<union> held_by (fst t))) (snd t) \<and>
           (dr_owns_image (fst t) \<noteq> None \<longrightarrow> dr_client (fst t)) \<and> ?C (fst t)"
      by (cases s; cases r) (auto simp: on_snd_def account_def)
  qed
  have put: "triple (\<lambda>s. owns_within (insert (Box n) (base \<union> held_by (fst s))) (snd s) \<and>
         (dr_owns_image (fst s) \<noteq> None \<longrightarrow> dr_client (fst s)) \<and> ?C (fst s))
      (set_rt (\<lambda>b. b\<lparr>dr_container := Some n\<rparr>)) (\<lambda>_. acct base (\<lambda>_. True)) ?E" for n
    by (auto simp: triple_def set_rt_def modify_def account_def held_by_def)
  have last: "triple (acct base (\<lambda>_. True)) (set_rt (\<lambda>b. b\<lparr>dr_has_timeout := t\<rparr>)) (\<lambda>_. account base) ?E" for t
    by (auto simp: triple_def set_rt_def modify_def account_def held_by_def)
  note step = step_account [where a = "listed cfg"]
  show ?thesis
    unfolding boot_container_def next_do_def
    apply (rule triple_bnd [OF step [OF client]])
    apply (rule triple_bnd [OF step [OF rootless]])
    apply (rule triple_bnd [OF step [OF acct_on_snd [OF owned_calls(2)] raises_on_snd [OF image]]])
    apply (rule triple_bnd [OF start_egress_account [OF D(1)]])
    apply (simp only: case_prod_beta)
    apply (rule triple_bnd [OF step [OF acct_get raises_rt(2)]])
    apply (rule triple_bnd [OF make])
    apply (rule triple_bnd [OF put])
    apply (rule triple_bnd [OF step [OF acct_on_snd [OF owned_calls(1)] raises_on_snd [OF raises_sdk(2) [OF D(2)]]]])
    by (rule triple_bnd [OF step [OF detect] last])
qed

text \<open>What \<open>_boot\<close> leaves: on success everything is in the fields; on failure nothing is left, unless
  the proxy of an allowlist is to blame.\<close>

lemma boot_account:
  assumes D: "removals_answered D" "faults_caught D"
  shows "triple (\<lambda>s. owns_within (base \<union> {TempDir ws} \<union> Img ` set_option owns) (snd s) \<and>
       dr_container (fst s) = None \<and> dr_egress (fst s) = None \<and> (owns \<noteq> None \<longrightarrow> dr_client (fst s)))
     (boot D cfg ws owns) (\<lambda>_. account base)
     (\<lambda>e s. owns_within base (snd s) \<or> listed cfg \<and> account base s)"
proof -
  let ?F = "\<lambda>b. dr_container b = None \<and> dr_egress b = None"
  let ?E = "\<lambda>e s. owns_within base (snd s) \<or> listed cfg \<and> account base s"
  have first: "triple (\<lambda>s. owns_within (base \<union> {TempDir ws} \<union> Img ` set_option owns) (snd s) \<and>
       dr_container (fst s) = None \<and> dr_egress (fst s) = None \<and> (owns \<noteq> None \<longrightarrow> dr_client (fst s)))
     (set_rt (\<lambda>b. b\<lparr>dr_workspace := Some ws, dr_config := Some cfg, dr_owns_image := owns\<rparr>))
     (\<lambda>_. acct base ?F) ?E"
    by (auto simp: triple_def set_rt_def modify_def account_def held_by_def)
  have domains: "triple (acct base ?F) (when_do (listed cfg) (bnd (of_sum x) (\<lambda>_. ret ()))) (\<lambda>_. acct base ?F) ?E"
    for x :: "exn + 'a"
    by (auto simp: triple_def comp_defs split: sum.split)
  have clock: "triple (acct base ?F) (on_snd (draw f)) (\<lambda>_. acct base ?F) ?E" for f :: "nat \<Rightarrow> rat"
    using keepsD [OF acct_on_snd [OF owned_world(2)]] by (fastforce simp: triple_def on_snd_def draw_def)
  have down: "triple (account base) (teardown D ign) (\<lambda>_ s. owns_within base (snd s)) ?E" for ign
    by (rule triple_conseq [OF teardown_account [OF D(1)]]) auto
  have clean: "triple (account base) (next_do (cleanup_failed_create D) (raise e)) Q ?E" for e and Q :: "unit \<Rightarrow> docker_rt \<times> docker_world \<Rightarrow> bool"
    unfolding next_do_def cleanup_failed_create_def
    by (rule triple_bnd [OF down]) (auto intro!: triple_raise)
  have clean_any: "triple (\<lambda>s. account base s \<and> P) (next_do (cleanup_failed_create D) (raise e)) Q ?E" for e P and Q :: "unit \<Rightarrow> docker_rt \<times> docker_world \<Rightarrow> bool"
    by (rule triple_conseq [OF clean]) auto
  have else_raise: "triple (\<lambda>s. account base s \<and> (caught e \<or> listed cfg)) (raise e) Q ?E" if "\<not> caught e" for e and Q :: "unit \<Rightarrow> docker_rt \<times> docker_world \<Rightarrow> bool"
    using that by (auto intro!: triple_raise)
  have handler: "triple (\<lambda>s. account base s \<and> (caught e \<or> listed cfg))
      (if exn_isa e UnsupportedCapabilityError then next_do (cleanup_failed_create D) (raise e)
       else if exn_isa e DockerException \<or> exn_isa e OSError
       then next_do (cleanup_failed_create D) (raise (f e)) else raise e) Q ?E" for e f and Q :: "unit \<Rightarrow> docker_rt \<times> docker_world \<Rightarrow> bool"
    using clean clean_any else_raise by (simp add: caught_def)
  show ?thesis
    unfolding boot_def next_do_def [of "set_rt _"] next_do_def [of "when_do _ _"]
    by (rule triple_bnd [OF first], rule triple_bnd [OF domains], rule triple_bnd [OF clock],
        rule triple_try_except [OF boot_container_account [OF D] handler])
qed

section \<open>Preparing the workspace\<close>

definition plain_parts :: "str list \<Rightarrow> bool" where
  "plain_parts cs \<longleftrightarrow> (\<forall>c \<in> set cs. c \<noteq> ''..'' \<and> CHR 0x00 \<notin> set c)"

abbreviation empty_dir :: "nat \<Rightarrow> disk \<Rightarrow> bool" where
  "empty_dir r d \<equiv> disk_wf d \<and> is_dir d r \<and> (\<forall>n. entry d r n = None)"

lemma certain_mkdir_parents:
  "calm E \<Longrightarrow> plain_parts cs \<Longrightarrow> certain (empty_dir r) (mkdir_parents E r cs) (\<lambda>_ _. True)"
proof (induction cs arbitrary: r)
  case Nil
  then show ?case by (simp add: on_disk_ret)
next
  case (Cons c cs)
  then have c: "c \<noteq> ''..''" "CHR 0x00 \<notin> set c" and cs: "plain_parts cs" by (auto simp: plain_parts_def)
  let ?f = "\<lambda>d. if c = ''..'' then Inl (os_error ''outside the model'')
       else case entry d r c of
         Some j \<Rightarrow> if is_dir d j then Inr (j, d) else Inl (Exn FileExistsError ''File exists'')
       | None \<Rightarrow> if is_dir d r
           then Inr (fresh d, set_entry r c (Some (fresh d)) (alloc (Dir []) d)) else Inl no_entry"
  have "certain (empty_dir r) (named c (syscall E ?f)) (\<lambda>j. empty_dir j)"
  proof (rule certain_named [OF c(2)], rule certain_syscall [OF Cons.prems(1)])
    fix d assume d: "empty_dir r d"
    define e where "e = set_entry r c (Some (fresh d)) (alloc (Dir []) d)"
    have "disk_wf d" "is_dir d r" using d by auto
    note N = graft_new [OF this disjI1 [OF refl] e_def]
    have "empty_dir (fresh d) e" using N(2,5,8) by (simp add: is_dir_def)
    with c(1) d show "\<exists>x d'. ?f d = Inr (x, d') \<and> empty_dir x d'" by (simp add: e_def)
  qed
  from on_disk_bnd [OF this Cons.IH [OF Cons.prems(1) cs]] show ?case by simp
qed

lemma prepare_account:
  assumes E: "calm (dk_os D)" and wd: "plain_parts (path_parts (relative_workdir (workdir cfg)))"
  shows "triple (\<lambda>w. owns_within base w \<and> disk_wf (disk_of (host w))) (prepare_workspace D cfg)
    (\<lambda>r. owns_within (insert (TempDir r) base)) (\<lambda>_ _. False)"
proof -
  let ?Q = "\<lambda>r w. owns_within (insert (TempDir r) base) w \<and> empty_dir r (disk_of (host w))"
  have on: "triple (\<lambda>w. F (owned w) \<and> P (disk_of (host w))) (on_host m)
      (\<lambda>x w. F (owned w) \<and> Q x (disk_of (host w))) (\<lambda>_ _. False)" if "certain P m Q" for F P Q and m :: "'x syscall"
    using host_triple [OF that] by (fastforce simp: triple_def on_host_def split: prod.splits sum.splits)
  have tmp: "triple (\<lambda>w. owns_within base w \<and> disk_wf (disk_of (host w))) (mkdtemp D) ?Q (\<lambda>_ _. False)"
  proof -
    have "certain disk_wf (syscall (dk_os D) (\<lambda>d. Inr (fresh d, alloc (Dir []) d))) empty_dir"
      by (rule certain_syscall [OF E])
        (auto simp: disk_wf_def is_dir_def entry_def alloc_def)
    from on [OF this, of "\<lambda>x. set x \<subseteq> base"] show ?thesis
      unfolding mkdtemp_def next_do_def
      by (rule triple_bnd) (auto simp: triple_def own_def comp_defs)
  qed
  have chmod: "certain P (sys_fchmod (dk_os D) j) (\<lambda>_. P)" for P j
    unfolding sys_fchmod_def by (rule certain_syscall [OF E]) auto
  have dirs: "certain (empty_dir r) (bnd (mkdir_parents (dk_os D) r (path_parts (relative_workdir (workdir cfg))))
      (\<lambda>j. sys_fchmod (dk_os D) j)) (\<lambda>_ _. True)" for r
    by (rule on_disk_bnd [OF certain_mkdir_parents [OF E wd] chmod])
  have rest: "triple (?Q r) (when_do b (on_host (bnd (mkdir_parents (dk_os D) r (path_parts (relative_workdir (workdir cfg))))
      (\<lambda>j. sys_fchmod (dk_os D) j)))) (\<lambda>_. owns_within (insert (TempDir r) base)) (\<lambda>_ _. False)" for b r
    using triple_conseq [OF on [OF dirs, of "\<lambda>x. set x \<subseteq> insert (TempDir r) base" r], of "?Q r"
        "\<lambda>_. owns_within (insert (TempDir r) base)" "\<lambda>_ _. False"]
    by (auto simp: when_do_def intro: triple_ret)
  show ?thesis
    unfolding prepare_workspace_def Let_def next_do_def
    by (rule triple_bnd [OF tmp], rule triple_bnd [OF on [OF chmod]], rule triple_bnd [OF rest])
      (auto intro: triple_ret)
qed

section \<open>Creating and destroying\<close>

lemma create_account:
  assumes D: "removals_answered D" "faults_caught D" "calm (dk_os D)"
    and wd: "plain_parts (path_parts (relative_workdir (workdir cfg)))"
  shows "triple (\<lambda>s. owns_within base (snd s) \<and> disk_wf (disk_of (host (snd s))) \<and>
       dr_container (fst s) = None \<and> dr_egress (fst s) = None)
     (docker_create D cfg) (\<lambda>_. account base)
     (\<lambda>e s. owns_within base (snd s) \<or> listed cfg \<and> account base s)"
proof -
  let ?P = "\<lambda>s :: docker_rt \<times> docker_world. owns_within base (snd s) \<and> disk_wf (disk_of (host (snd s))) \<and>
       dr_container (fst s) = None \<and> dr_egress (fst s) = None"
  let ?E = "\<lambda>(e :: exn) s. owns_within base (snd s) \<or> listed cfg \<and> account base s"
  have guard: "triple ?P (guard_or b e) (\<lambda>_. ?P) ?E" "triple ?P (of_sum x) (\<lambda>_. ?P) ?E" for b e and x :: "exn + 'x"
    by (auto simp: triple_def comp_defs split: sum.split)
  have prep: "triple ?P (on_snd (prepare_workspace D cfg))
      (\<lambda>ws s. owns_within (base \<union> {TempDir ws} \<union> Img ` set_option None) (snd s) \<and>
         dr_container (fst s) = None \<and> dr_egress (fst s) = None \<and> (None \<noteq> None \<longrightarrow> dr_client (fst s))) ?E"
    using prepare_account [OF D(3) wd, of base]
    by (fastforce simp: triple_def on_snd_def split: prod.splits sum.splits)
  show ?thesis
    unfolding docker_create_def next_do_def get_rt_def
    by (rule triple_get_then, rule triple_bnd [OF guard(1)], rule triple_bnd [OF guard(2)],
        rule triple_bnd [OF prep boot_account [OF D(1,2)]])
qed

end
