(* ===== verification/Docker_Hardening.thy ===== *)
theory Docker_Hardening
  imports Docker_Facts
begin

text \<open>
  Every container that the runtime asks the daemon for, in \<open>create\<close> and in \<open>fork\<close>, has the
  hardening options and the limits of its configuration, and the network that its policy allows.
\<close>

section \<open>The calls so far\<close>

definition call_ok :: "(create_options \<Rightarrow> bool) \<Rightarrow> dcall \<Rightarrow> bool" where
  "call_ok Q c = (case c of ContainerCreate opts \<Rightarrow> Q opts | _ \<Rightarrow> True)"

definition trace_ok :: "(create_options \<Rightarrow> bool) \<Rightarrow> docker_world \<Rightarrow> bool" where
  "trace_ok Q w = (\<forall>c \<in> set (dcalls w). call_ok Q c)"

abbreviation traced :: "(create_options \<Rightarrow> bool) \<Rightarrow> 's \<times> docker_world \<Rightarrow> bool" where
  "traced Q s \<equiv> trace_ok Q (snd s)"

named_theorems trace_keeps \<open>what keeps the trace of calls in order\<close>

lemma trace_sdk: "call_ok Q c \<Longrightarrow> keeps (trace_ok Q) (sdk D c)"
  by (rule keepsI) (auto simp: sdk_def Let_def trace_ok_def split: option.splits)

lemma trace_world [trace_keeps]: "keeps (trace_ok Q) (own r)" "keeps (trace_ok Q) (disown r)"
  "keeps (trace_ok Q) (draw f)" "keeps (trace_ok Q) (on_host m)" "keeps (trace_ok Q) (rmtree n)"
  by (auto intro!: keepsI simp: own_def disown_def draw_def on_host_def rmtree_def modify_def trace_ok_def
      split: prod.splits)

lemma trace_calls:
  "call_ok Q c \<Longrightarrow> keeps (trace_ok Q) (sdk_do D c)"
  "call_ok Q c \<Longrightarrow> keeps (trace_ok Q) (sdk_make D c f)"
  "call_ok Q c \<Longrightarrow> keeps (trace_ok Q) (sdk_remove D c r)"
  unfolding sdk_do_def sdk_make_def sdk_remove_def
  by (intro keeps_steps trace_sdk trace_world; assumption)+

lemma trace_image [trace_keeps]: "keeps (trace_ok Q) (ensure_image D img)"
  unfolding ensure_image_def by (intro keeps_try_except keeps_if keeps_raise trace_calls) (auto simp: call_ok_def)

lemma trace_mkdtemp [trace_keeps]: "keeps (trace_ok Q) (mkdtemp D)"
  unfolding mkdtemp_def by (intro keeps_steps trace_keeps)

lemma trace_on_snd: "keeps (trace_ok Q) m \<Longrightarrow> keeps (traced Q) (on_snd m)"
  by (rule keeps_on_snd)

lemma trace_first: "keeps (traced Q) (modify (\<lambda>(b, w). (f b, w)))"
  by (rule keepsI) (auto simp: modify_def)

text \<open>Calls other than \<open>containers.create\<close> are harmless.\<close>

lemma call_ok_other: "(\<And>x. c \<noteq> ContainerCreate x) \<Longrightarrow> call_ok Q c"
  by (auto simp: call_ok_def split: dcall.split)

lemma trace_sidecar_destroy: "keeps (traced Q) (sidecar_destroy D)"
  unfolding sidecar_destroy_def
  by (intro keeps_steps keeps_suppressing keeps_for_each trace_first trace_on_snd trace_calls trace_sdk
      call_ok_other) auto

lemma trace_sidecar_start: "keeps (traced Q) (sidecar_start D)"
  unfolding sidecar_start_def sidecar_launch_def
  by (intro keeps_steps keeps_try_except trace_first trace_on_snd trace_calls trace_image
      trace_sidecar_destroy call_ok_other) auto

lemma trace_with_sidecar:
  assumes "keeps (traced Q) m"
  shows "keeps (trace_ok Q) (with_sidecar sc m)"
proof (rule keepsI)
  fix w r t assume w: "trace_ok Q w" and "with_sidecar sc m w = (r, t)"
  then obtain sc' where "m (sc, w) = (r, (sc', t))" by (auto simp: with_sidecar_def split: prod.splits)
  from keepsD [OF assms _ this] w show "trace_ok Q t" by simp
qed

lemma trace_run_sidecar: "keeps (traced Q) (run_sidecar D sc)"
proof (rule keepsI)
  fix s r t assume s: "traced Q s" and run: "run_sidecar D sc s = (r, t)"
  then obtain sc' where "sidecar_start D (sc, snd s) = (r, (sc', snd t))"
    by (cases s) (auto simp: run_sidecar_def split: prod.splits)
  from keepsD [OF trace_sidecar_start _ this] s show "traced Q t" by simp
qed

lemma trace_fields: "keeps (traced Q) (set_rt f)" "keeps (traced Q) (get_rt g)"
  by (auto simp: set_rt_def get_rt_def intro: trace_first)

lemma trace_option_do: "(\<And>x. keeps (traced Q) (f x)) \<Longrightarrow> keeps (traced Q) (option_do y f)"
  by (simp add: option_do_def split: option.split)

lemma trace_teardown: "keeps (traced Q) (teardown D ign)"
  unfolding teardown_def release_def remove_container_def remove_image_def
  by (intro keeps_steps keeps_suppressing trace_option_do trace_fields trace_on_snd trace_calls
      trace_with_sidecar trace_sidecar_destroy trace_world call_ok_other) auto

section \<open>What a container must look like\<close>

text \<open>No privileges to gain, no capabilities, a fixed unprivileged user, no executable temporary
  file systems, and only the workspace mounted.\<close>

definition hardened :: "create_options \<Rightarrow> bool" where
  "hardened x \<longleftrightarrow> co_user x = ''65532:65532'' \<and> \<not> co_privileged x \<and> co_cap_drop x = [''ALL''] \<and>
     ''no-new-privileges:true'' \<in> set (co_security_opt x) \<and> co_init x \<and> co_bind x = ''/workspace'' \<and>
     (\<forall>v \<in> snd ` set (co_tmpfs x). contains v ''noexec,nosuid,nodev'')"

text \<open>The limits and the network of the configuration: nothing if the policy denies it, the internal
  network and the proxy if it lists destinations.\<close>

definition fits :: "sandbox_config \<Rightarrow> create_options \<Rightarrow> bool" where
  "fits cfg x \<longleftrightarrow> co_read_only x = read_only_root cfg \<and> co_mem_limit x = memory (limits cfg) \<and>
     co_pids_limit x = pids (limits cfg) \<and> of_int (co_nano_cpus x) \<le> cpus (limits cfg) * 1000000000 \<and>
     co_working_dir x = workdir cfg \<and>
     co_network_disabled x = (np_mode (sp_network (policy cfg)) = DENY) \<and>
     (co_network x \<noteq> None) = (np_mode (sp_network (policy cfg)) = ALLOWLIST) \<and>
     (np_mode (sp_network (policy cfg)) = ALLOWLIST \<and> ''HTTPS_PROXY'' \<notin> fst ` set (cfg_environment cfg) \<longrightarrow>
        map_of (co_environment x) ''HTTPS_PROXY'' = Some ''http://agentnest-egress:8080'')"

lemma options_hardened: "hardened (container_options cfg ws name env net labels)"
  by (simp add: hardened_def container_options_def sandbox_user_def security_options_def) code_simp

text \<open>The environment of a container under an allowlist names the proxy.\<close>

lemma environment_proxy:
  assumes "''HTTPS_PROXY'' \<notin> fst ` set (cfg_environment cfg)"
  shows "map_of (container_environment proxy_environment cfg) ''HTTPS_PROXY'' = Some ''http://agentnest-egress:8080''"
proof -
  have "map_of (rev (cfg_environment cfg)) ''HTTPS_PROXY'' = None"
    using assms by (simp add: map_of_eq_None_iff)
  moreover have "map_of (rev proxy_environment) ''HTTPS_PROXY'' = Some ''http://agentnest-egress:8080''"
    by code_simp
  ultimately show ?thesis by (simp add: container_environment_def dict_merge_lookup)
qed

lemma options_fit:
  assumes "(net \<noteq> None) = (np_mode (sp_network (policy cfg)) = ALLOWLIST)"
    and "np_mode (sp_network (policy cfg)) = ALLOWLIST \<Longrightarrow> env = proxy_environment"
  shows "fits cfg (container_options cfg ws name env net labels)"
  using assms environment_proxy [of cfg] by (auto simp: fits_def container_options_def)

section \<open>Booting\<close>

lemma run_sidecar_some: "\<exists>sc'. dr_egress (fst (snd (run_sidecar D sc s))) = Some sc'"
  by (cases s) (auto simp: run_sidecar_def split: prod.split)

lemma start_egress_value:
  "triple (traced Q) (start_egress D cfg labels)
     (\<lambda>x s. ((snd x \<noteq> None) = (np_mode (sp_network (policy cfg)) = ALLOWLIST) \<and>
        (np_mode (sp_network (policy cfg)) = ALLOWLIST \<longrightarrow> fst x = proxy_environment)) \<and> traced Q s)
     (\<lambda>_. traced Q)"
proof (cases "np_mode (sp_network (policy cfg)) = ALLOWLIST")
  case True
  have run: "triple (traced Q) (run_sidecar D sc)
      (\<lambda>_ s. dr_egress (fst s) \<noteq> None \<and> traced Q s) (\<lambda>_. traced Q)" for sc
    unfolding triple_def
  proof (intro allI impI)
    fix s :: "docker_rt \<times> docker_world" assume s: "traced Q s"
    have "traced Q (snd (run_sidecar D sc s))"
      using keepsD [OF trace_run_sidecar s prod.collapse [symmetric]] .
    with run_sidecar_some [of D sc s]
    show "case run_sidecar D sc s of (Inl e, t) \<Rightarrow> traced Q t
        | (Inr x, t) \<Rightarrow> dr_egress (fst t) \<noteq> None \<and> traced Q t"
      by (auto split: prod.split sum.split)
  qed
  have net: "triple (\<lambda>s. dr_egress (fst s) \<noteq> None \<and> traced Q s) egress_network
      (\<lambda>x s. x \<noteq> None \<and> traced Q s) (\<lambda>_. traced Q)"
    by (auto simp: triple_def egress_network_def get_rt_def comp_defs split: sum.splits)
  show ?thesis
    using True unfolding start_egress_def next_do_def
    by (simp del: One_nat_def)
      (intro triple_bnd [OF keeps_on_snd [OF trace_world(3), unfolded keeps_def]]
        triple_bnd [OF keeps_of_sum [unfolded keeps_def]] triple_bnd [OF trace_fields(1) [unfolded keeps_def]]
        triple_bnd [OF run] triple_bnd [OF net] triple_ret; auto)
next
  case False
  then show ?thesis by (simp add: start_egress_def triple_ret)
qed

lemma boot_container_ok:
  assumes Q: "\<And>name env net. (net \<noteq> None) = (np_mode (sp_network (policy cfg)) = ALLOWLIST) \<Longrightarrow>
      (np_mode (sp_network (policy cfg)) = ALLOWLIST \<Longrightarrow> env = proxy_environment) \<Longrightarrow>
      Q (container_options cfg ws name env net labels)"
  shows "keeps (traced Q) (boot_container D cfg ws labels)"
proof -
  have pre: "keeps (traced Q) (connect_client D)" "keeps (traced Q) (require_rootless D cfg)"
    unfolding connect_client_def require_rootless_def
    by (intro keeps_steps trace_fields trace_on_snd trace_calls trace_sdk call_ok_other; simp)+
  have detect: "keeps (traced Q) (detect_timeout D)"
    unfolding detect_timeout_def
    by (intro keeps_steps keeps_try_except trace_fields trace_on_snd trace_sdk call_ok_other; simp)
  have rest: "keeps (traced Q) (bnd (get_rt dr_runtime_name) (\<lambda>name.
      bnd (on_snd (sdk_make D (ContainerCreate (container_options cfg ws name env net labels)) Box)) (\<lambda>c.
      next_do (set_rt (\<lambda>b. b\<lparr>dr_container := Some c\<rparr>))
      (next_do (on_snd (sdk_do D (ContainerStart c)))
      (bnd (detect_timeout D) (\<lambda>t. set_rt (\<lambda>b. b\<lparr>dr_has_timeout := t\<rparr>)))))))"
    if "(net \<noteq> None) = (np_mode (sp_network (policy cfg)) = ALLOWLIST)"
      "np_mode (sp_network (policy cfg)) = ALLOWLIST \<longrightarrow> env = proxy_environment" for env net
    using that Q
    by (intro keeps_steps trace_fields trace_on_snd trace_calls detect) (auto simp: call_ok_def)
  show ?thesis
    unfolding boot_container_def
    apply (intro keeps_next_do pre trace_on_snd trace_image)
    unfolding keeps_def case_prod_beta
    apply (rule triple_bnd [OF start_egress_value])
    apply (rule triple_pure)
    using rest unfolding keeps_def by auto
qed

lemma boot_ok:
  assumes "\<And>name env net labels. (net \<noteq> None) = (np_mode (sp_network (policy cfg)) = ALLOWLIST) \<Longrightarrow>
      (np_mode (sp_network (policy cfg)) = ALLOWLIST \<Longrightarrow> env = proxy_environment) \<Longrightarrow>
      Q (container_options cfg ws name env net labels)"
  shows "keeps (traced Q) (boot D cfg ws owns)"
  unfolding boot_def cleanup_failed_create_def
  by (intro keeps_steps keeps_try_except trace_fields trace_on_snd trace_world trace_teardown
      boot_container_ok assms)

lemma create_ok: "keeps (traced (\<lambda>x. hardened x \<and> fits cfg x)) (docker_create D cfg)"
proof -
  have ws: "keeps (trace_ok Q) (prepare_workspace D cfg)" for Q
    unfolding prepare_workspace_def Let_def by (intro keeps_steps trace_keeps)
  show ?thesis
    unfolding docker_create_def
    by (intro keeps_steps trace_fields trace_on_snd ws boot_ok conjI options_hardened options_fit)
qed

text \<open>A fork has the parent's configuration but for the image, on which neither condition looks.\<close>

lemma fits_image: "fits (cfg\<lparr>image_name := img\<rparr>) x = fits cfg x"
  by (simp add: fits_def)

lemma fork_ok:
  assumes "traced (\<lambda>x. hardened x \<and> fits cfg x) (b, w)" "dr_config b = Some cfg"
  shows "traced (\<lambda>x. hardened x \<and> fits cfg x) (snd (docker_fork D (b, w)))"
proof -
  let ?Q = "\<lambda>x. hardened x \<and> fits cfg x"
  have boot: "keeps (traced ?Q) (boot D (cfg\<lparr>image_name := img\<rparr>) new_ws owns)" for img new_ws owns
    by (rule boot_ok) (use options_fit [of _ "cfg\<lparr>image_name := img\<rparr>"] in \<open>auto simp: options_hardened fits_image\<close>)
  have child: "keeps (trace_ok ?Q) (boot_child D (cfg\<lparr>image_name := img\<rparr>) new_ws owns b')"
    for img new_ws owns b'
  proof (rule keepsI)
    fix s r t assume s: "trace_ok ?Q s" and run: "boot_child D (cfg\<lparr>image_name := img\<rparr>) new_ws owns b' s = (r, t)"
    then obtain r' c where "boot D (cfg\<lparr>image_name := img\<rparr>) new_ws owns (b', s) = (r', (c, t))"
      by (auto simp: boot_child_def split: prod.splits sum.splits)
    from keepsD [OF boot _ this] s show "trace_ok ?Q t" by simp
  qed
  have prep: "keeps (trace_ok ?Q) (fork_prepare D cfg c ws new_ws)" for c ws new_ws
    unfolding fork_prepare_def fork_image_def
    by (intro keeps_steps keeps_try_except trace_keeps trace_sdk call_ok_other; simp)
  have "keeps (traced ?Q) (bnd (on_snd (mkdtemp D)) (\<lambda>new_ws.
        bnd (on_snd (fork_prepare D cfg c ws new_ws)) (\<lambda>(img, owns).
        on_snd (boot_child D (cfg\<lparr>image_name := img\<rparr>) new_ws owns b'))))" for c ws b'
    by (intro keeps_steps trace_on_snd trace_mkdtemp prep child)
  from keepsD [OF this _ prod.collapse [symmetric], of "(b, w)"] assms show ?thesis
    by (auto simp: docker_fork_def get_rt_def gets_def bnd_def raise_def split: option.split)
qed

end
