(* ===== verification/Docker_Exec.thy ===== *)
theory Docker_Exec
  imports Docker_Facts
begin

text \<open>
  Execution in a container: how much output is kept, and what an execution leaves of the
  runtime's fields on each way out.
\<close>

section \<open>The output limit\<close>

definition data_len :: "exec_chunk list \<Rightarrow> nat" where
  "data_len cs = sum_list (map (length \<circ> ch_data) cs)"

lemma data_len_append [simp]: "data_len (cs @ ds) = data_len cs + data_len ds"
  by (simp add: data_len_def)

text \<open>Decoding at most triples the length, so what has been kept is within three times what has been
  taken off the limit; the chunks of the loop carry no status.\<close>

definition kept_within :: "int \<Rightarrow> capture \<Rightarrow> bool" where
  "kept_within limit cap \<longleftrightarrow> 0 \<le> cap_remaining cap \<and>
     int (data_len (cap_chunks cap)) \<le> 3 * (limit - cap_remaining cap) \<and>
     (\<forall>c \<in> set (cap_chunks cap). ch_stream c \<noteq> STATUS)"

lemma stream_data_bound:
  assumes "stream_data p rem = (data, rem', t)" "0 \<le> rem"
  shows "0 \<le> rem' \<and> int (length data) \<le> 3 * (rem - rem')"
  using assms utf8_decode_length [of "take (nat rem) p"]
  by (auto simp: stream_data_def Let_def split: if_splits)

lemma capture_bound:
  assumes "kept_within limit cap" "name \<noteq> STATUS" "capture_part D name p cap w = (r, w')"
  shows "\<exists>cap'. r = Inr cap' \<and> kept_within limit cap'"
proof (cases p)
  case None
  with assms show ?thesis by (auto simp: capture_part_def ret_def)
next
  case (Some b)
  obtain data rem t where sd: "stream_data b (cap_remaining cap) = (data, rem, t)"
    by (cases "stream_data b (cap_remaining cap)") auto
  have "0 \<le> cap_remaining cap" using assms(1) by (simp add: kept_within_def)
  note s = stream_data_bound [OF sd this]
  show ?thesis
    using assms Some sd s
    by (auto simp: capture_part_def ret_def Let_def draw_def bnd_def kept_within_def make_chunk_def data_len_def
        split: if_splits)
qed

lemma stream_loop_within:
  "kept_within limit cap \<Longrightarrow> stream_loop D deadline as cap w = (r, w') \<Longrightarrow>
    \<exists>how cap'. r = Inr (how, cap') \<and> kept_within limit cap'"
proof (induction as arbitrary: cap w)
  case (Cons a as)
  show ?case
  proof (cases a)
    case (Output x y)
    define w0 where "w0 = w\<lparr>draws := Suc (draws w)\<rparr>"
    show ?thesis
    proof (cases "deadline - dk_monotonic D (draws w) \<le> 0")
      case False
      obtain r1 w1 where c1: "capture_part D STDOUT x cap w0 = (r1, w1)"
        by (cases "capture_part D STDOUT x cap w0")
      from capture_bound [OF Cons.prems(1) _ c1] obtain cap1 where cap1: "r1 = Inr cap1" "kept_within limit cap1"
        by auto
      obtain r2 w2 where c2: "capture_part D STDERR y cap1 w1 = (r2, w2)"
        by (cases "capture_part D STDERR y cap1 w1")
      from capture_bound [OF cap1(2) _ c2] obtain cap2 where cap2: "r2 = Inr cap2" "kept_within limit cap2"
        by auto
      have "stream_loop D deadline as cap2 w2 = (r, w')"
        using Cons.prems(2) Output False c1 c2 cap1 cap2
        by (simp add: draw_def bnd_def w0_def)
      from Cons.IH [OF cap2(2) this] show ?thesis .
    qed (use Cons.prems in \<open>auto simp: draw_def bnd_def ret_def\<close>)
  qed (use Cons.prems in \<open>auto simp: draw_def bnd_def ret_def split: if_splits\<close>)
qed (auto simp: draw_def bnd_def ret_def)

lemma stream_loop_triple:
  assumes "kept_within limit cap"
  shows "triple (\<lambda>_. True) (on_snd (stream_loop D deadline as cap))
    (\<lambda>x _. kept_within limit (snd x)) (\<lambda>_ _. True)"
  unfolding triple_def
proof (intro allI impI)
  fix s :: "'s \<times> docker_world"
  obtain r w where run: "stream_loop D deadline as cap (snd s) = (r, w)"
    by (cases "stream_loop D deadline as cap (snd s)")
  with stream_loop_within [OF assms run]
  show "case on_snd (stream_loop D deadline as cap) s of
    (Inl e, t) \<Rightarrow> True | (Inr x, t) \<Rightarrow> kept_within limit (snd x)"
    by (auto simp: on_snd_def split: prod.split)
qed

text \<open>Chunks as an execution gives them: output within the limit, then at most the notice, then at
  most a status.\<close>

definition bounded_chunks :: "int \<Rightarrow> exec_chunk list \<Rightarrow> bool" where
  "bounded_chunks limit cs \<longleftrightarrow> int (data_len cs) \<le> 3 * limit + int (length (truncation_notice limit))"

lemma ending_triple:
  assumes "triple P m (\<lambda>x _. Q (fst x)) (\<lambda>_ _. True)" "Q cs"
  shows "triple P (ending cs m) (\<lambda>x _. Q (fst x)) (\<lambda>_ _. True)"
  unfolding ending_def
  by (rule triple_try_except [OF assms(1)]) (auto intro!: triple_ret simp: assms(2))

lemma finish_bounded:
  assumes w: "kept_within limit cap" and limit: "limit = max_output_bytes (policy cfg)"
  shows "triple P (finish_exec D cfg i wrapped seconds cap)
    (\<lambda>x _. bounded_chunks limit (fst x)) (\<lambda>_ _. True)"
proof -
  let ?B = "\<lambda>c. bounded_chunks limit (cap_chunks c)"
  have note_len: "data_len [make_chunk STDERR (truncation_notice limit) now None] = length (truncation_notice limit)"
    for now by (simp add: data_len_def make_chunk_def)
  have status: "bounded_chunks limit (cs @ [make_chunk STATUS [] now x])" if "bounded_chunks limit cs" for cs now x
    using that by (simp add: bounded_chunks_def) (simp add: data_len_def make_chunk_def)
  have first: "triple P (if cap_truncated cap
          then let suffix = truncation_notice (max_output_bytes (policy cfg)) in
            bnd (on_snd (draw (dk_time D))) (\<lambda>now.
            ret (cap\<lparr>cap_log := cap_log cap @ [suffix],
              cap_chunks := cap_chunks cap @ [make_chunk STDERR suffix now None]\<rparr>))
          else ret cap) (\<lambda>c _. ?B c) (\<lambda>_ _. True)"
    using w unfolding Let_def limit [symmetric]
    by (auto intro!: triple_bnd [OF triple_any] triple_ret triple_if
        simp: bounded_chunks_def kept_within_def note_len simp del: One_nat_def)
  have rest: "triple (\<lambda>_. ?B c) (ending (cap_chunks c)
      (bnd (on_snd (sdk D (ExecInspect i))) (\<lambda>n.
       let exit = (case dk_exit D n of None \<Rightarrow> 0 | Some x \<Rightarrow> x) in
       if wrapped \<and> exit \<in> set timeout_exit_codes
       then next_do (append_log (cap_log c @ [''[timed out]'' @ [CHR 0x0A]])) (raise (process_error seconds))
       else next_do (append_log (cap_log c @ [''[exit='' @ int_text exit @ '']'' @ [CHR 0x0A]]))
         (bnd (on_snd (draw (dk_time D))) (\<lambda>now.
          ret (cap_chunks c @ [make_chunk STATUS [] now (Some exit)], None))))))
      (\<lambda>x _. bounded_chunks limit (fst x)) (\<lambda>_ _. True)" for c
    unfolding Let_def next_do_def
    by (rule triple_const, rule ending_triple)
      (auto intro!: triple_bnd [OF triple_any] triple_if triple_ret triple_raise status)
  show ?thesis
    unfolding finish_exec_def by (rule triple_bnd [OF first rest])
qed

lemma iter_bounded:
  "triple (\<lambda>s. \<exists>cfg. dr_config (fst s) = Some cfg \<and> max_output_bytes (policy cfg) = limit \<and> 0 \<le> limit)
     (iter_exec D q) (\<lambda>x _. bounded_chunks limit (fst x)) (\<lambda>_ _. True)"
proof -
  let ?P = "\<lambda>s :: docker_rt \<times> docker_world. \<exists>cfg. dr_config (fst s) = Some cfg \<and>
    max_output_bytes (policy cfg) = limit \<and> 0 \<le> limit"
  have cfg: "triple ?P (require_field dr_config)
      (\<lambda>cfg _. max_output_bytes (policy cfg) = limit \<and> 0 \<le> limit) (\<lambda>_ _. True)"
    by (auto simp: triple_def require_field_def get_rt_def gets_def bnd_def ret_def)
  have con: "triple ?P (bnd (require_field dr_container) (\<lambda>_. ret ())) (\<lambda>_. ?P) (\<lambda>_ _. True)"
    by (auto simp: triple_def require_field_def get_rt_def gets_def bnd_def ret_def raise_def split: option.split)
  have loop: "triple (\<lambda>_. True) (on_snd (stream_loop D dl as
      \<lparr>cap_remaining = limit, cap_truncated = False, cap_log = l, cap_chunks = []\<rparr>))
      (\<lambda>x _. kept_within limit (snd x)) (\<lambda>_ _. True)" if "0 \<le> limit" for dl as l
    by (rule stream_loop_triple) (use that in \<open>simp add: kept_within_def data_len_def\<close>)
  have tail: "triple (\<lambda>_. kept_within limit cap) (case how of
            Expired \<Rightarrow> ending (cap_chunks cap) (bnd (docker_destroy D) (\<lambda>_. raise (backstop_error bs)))
          | Broken e \<Rightarrow> ret (cap_chunks cap,
              Some (Exn ExecutionError (''Docker streaming execution failed: '' @ exn_msg e)))
          | Ended \<Rightarrow> finish_exec D cfg i wrapped seconds cap)
      (\<lambda>x _. bounded_chunks limit (fst x)) (\<lambda>_ _. True)"
    if "max_output_bytes (policy cfg) = limit" for how cap bs cfg i wrapped seconds
  proof (rule triple_const)
    assume k: "kept_within limit cap"
    then have b: "bounded_chunks limit (cap_chunks cap)"
      by (simp add: kept_within_def bounded_chunks_def)
    show "triple (\<lambda>_. True) (case how of
            Expired \<Rightarrow> ending (cap_chunks cap) (bnd (docker_destroy D) (\<lambda>_. raise (backstop_error bs)))
          | Broken e \<Rightarrow> ret (cap_chunks cap,
              Some (Exn ExecutionError (''Docker streaming execution failed: '' @ exn_msg e)))
          | Ended \<Rightarrow> finish_exec D cfg i wrapped seconds cap)
      (\<lambda>x _. bounded_chunks limit (fst x)) (\<lambda>_ _. True)"
      using b k that
      by (auto split: loop_end.split intro!: triple_ret ending_triple triple_bnd [OF triple_any]
          triple_raise finish_bounded)
  qed
  show ?thesis
    unfolding iter_exec_def next_do_def Let_def case_prod_beta
    apply (rule triple_bnd [OF con])
    apply (rule triple_bnd [OF cfg])
    apply (rule triple_const)
    apply (rule triple_bnd [OF triple_any])
    apply (rule triple_bnd [OF triple_any])
    apply (rule triple_bnd [OF triple_any])
    apply (rule triple_bnd [OF triple_any])
    apply (rule triple_bnd [OF triple_any])
    apply (erule conjE, simp only:)
    by (rule triple_bnd, rule loop, assumption, rule tail, assumption)
qed

text \<open>What \<open>exec\<close> returns.\<close>

lemma text_len: "length (stream_text STDOUT cs) + length (stream_text STDERR cs) \<le> data_len cs"
proof (induction cs)
  case (Cons c cs)
  then show ?case by (cases "ch_stream c") (auto simp: stream_text_def data_len_def)
qed (simp add: stream_text_def)

lemma exec_bounded:
  assumes "dr_config b = Some cfg" "0 \<le> max_output_bytes (policy cfg)"
    and "fst (docker_exec D q (b, w)) = Inr r"
  shows "int (length (stdout r) + length (stderr r)) \<le>
    3 * max_output_bytes (policy cfg) + int (length (truncation_notice (max_output_bytes (policy cfg))))"
proof -
  let ?w = "w\<lparr>draws := Suc (draws w)\<rparr>"
  let ?L = "max_output_bytes (policy cfg)"
  obtain x t where run: "iter_exec D q (b, ?w) = (x, t)" by (cases "iter_exec D q (b, ?w)")
  have "x = Inr (fst (projr x), None)" "r = \<lparr>er_command = xr_display q, exit_code = last_status (fst (projr x)),
         stdout = stream_text STDOUT (fst (projr x)), stderr = stream_text STDERR (fst (projr x)),
         duration = duration r\<rparr>"
    using assms(3) run
    by (auto simp: docker_exec_def draw_def on_snd_def bnd_def ret_def raise_def split: sum.splits option.splits prod.splits)
  moreover from this(1) have "bounded_chunks ?L (fst (projr x))"
    using tripleD [OF iter_bounded [of ?L D q] _ run] assms(1,2) by (metis (no_types, lifting) fst_conv old.sum.simps(6))
  moreover have "length (stdout r) + length (stderr r) \<le> data_len (fst (projr x))"
    using text_len [of "fst (projr x)"] calculation(2) by (metis exec_result.select_convs(3,4))
  ultimately show ?thesis unfolding bounded_chunks_def by linarith
qed

section \<open>What an execution leaves\<close>

text \<open>The fields but for the logs.\<close>

definition same_but_logs :: "docker_rt \<Rightarrow> docker_rt \<Rightarrow> bool" where
  "same_but_logs a b \<longleftrightarrow> b = a\<lparr>dr_logs := dr_logs b\<rparr>"

lemma same_refl [simp]: "same_but_logs a a"
  by (simp add: same_but_logs_def)

lemma same_trans: "same_but_logs a b \<Longrightarrow> same_but_logs b c \<Longrightarrow> same_but_logs a c"
  unfolding same_but_logs_def by (cases a; cases b; cases c) auto

lemma same_logs: "same_but_logs a b \<Longrightarrow> same_but_logs a (b\<lparr>dr_logs := l\<rparr>)"
  unfolding same_but_logs_def by (cases a; cases b) auto

lemma fields_append_log: "keeps (fields (same_but_logs a)) (append_log parts)"
  by (rule keepsI) (auto simp: append_log_def set_rt_def modify_def same_logs)

lemma fields_require: "keeps (fields P) (require_field f)"
  unfolding require_field_def by (intro keeps_steps method_keeps)

text \<open>After an execution: as before but for the logs, or torn down and then it ends in an exception.\<close>

definition left_by_exec :: "docker_rt \<Rightarrow> stream_result \<Rightarrow> docker_rt \<Rightarrow> bool" where
  "left_by_exec a x b \<longleftrightarrow> same_but_logs a b \<or> settled b \<and> snd x \<noteq> None"

lemma keeps_finish: "keeps (fields (same_but_logs a)) (finish_exec D cfg i wrapped seconds cap)"
  unfolding finish_exec_def ending_def Let_def
  by (intro keeps_steps keeps_try_except method_keeps fields_append_log)

lemma destroy_leaves:
  "triple (fields (same_but_logs a)) (ending cs (next_do (docker_destroy D) (raise e)))
     (\<lambda>x s. left_by_exec a x (fst s)) (\<lambda>_ s. same_but_logs a (fst s))"
proof -
  have d: "triple (fields (same_but_logs a)) (docker_destroy D) (\<lambda>_ s. settled (fst s)) (\<lambda>_ s. settled (fst s))"
    unfolding triple_def docker_destroy_def
  proof (intro allI impI)
    fix s :: "docker_rt \<times> docker_world"
    let ?m = "teardown D (\<lambda>e. exn_isa e NotFound \<or> exn_isa e APIError) s"
    have "settled (fst (snd ?m))"
      using teardown_fields [of D _ "fst s" "snd s"] by (cases s) simp
    then show "case ?m of (Inl e, t) \<Rightarrow> settled (fst t) | (Inr x, t) \<Rightarrow> settled (fst t)"
      by (cases ?m) (auto split: sum.split)
  qed
  show ?thesis
    unfolding ending_def next_do_def
    by (rule triple_try_except [OF triple_bnd [OF d triple_raise]])
      (auto intro!: triple_ret simp: left_by_exec_def)
qed

lemma iter_leaves:
  "triple (fields (same_but_logs a)) (iter_exec D q)
     (\<lambda>x s. left_by_exec a x (fst s)) (\<lambda>_ s. same_but_logs a (fst s))"
proof -
  have k: "triple (fields (same_but_logs a)) m (\<lambda>_. fields (same_but_logs a)) (\<lambda>_. fields (same_but_logs a))"
    if "keeps (fields (same_but_logs a)) m" for m :: "'x docker_op"
    using that by (simp add: keeps_def)
  have ok: "triple (fields (same_but_logs a)) m (\<lambda>x s. left_by_exec a x (fst s)) (\<lambda>_. fields (same_but_logs a))"
    if "keeps (fields (same_but_logs a)) m" for m
    by (rule triple_conseq [OF that [unfolded keeps_def]]) (auto simp: left_by_exec_def)
  show ?thesis
    unfolding iter_exec_def next_do_def Let_def case_prod_beta
    apply (rule triple_bnd [OF keeps_bnd [OF fields_require keeps_ret, unfolded keeps_def]])
    apply (rule triple_bnd [OF fields_require [unfolded keeps_def]])
    apply (rule triple_bnd [OF fields_get_rt [unfolded keeps_def]])
    apply (rule triple_bnd [OF keeps_guard_or [unfolded keeps_def]])
    apply (rule triple_bnd [OF fields_require [unfolded keeps_def]])
    apply (rule triple_bnd [OF fields_on_snd [unfolded keeps_def]])
    apply (rule triple_bnd [OF fields_on_snd [unfolded keeps_def]])
    apply (rule triple_bnd [OF fields_on_snd [unfolded keeps_def]])
    by (auto split: loop_end.split intro!: ok keeps_finish destroy_leaves [unfolded next_do_def])
qed

lemma exec_leaves:
  assumes "docker_exec D q (b, w) = (r, (b', w'))"
  shows "same_but_logs b b' \<or> settled b' \<and> (\<exists>e. r = Inl e)"
proof -
  let ?w = "w\<lparr>draws := Suc (draws w)\<rparr>"
  obtain x c v where run: "iter_exec D q (b, ?w) = (x, (c, v))"
    by (cases "iter_exec D q (b, ?w)") auto
  have "case x of Inr y \<Rightarrow> left_by_exec b y c | Inl e \<Rightarrow> same_but_logs b c"
    using tripleD [OF iter_leaves [of b D q] _ run] by (cases x) simp_all
  moreover have "b' = c" "\<And>e. x = Inl e \<Longrightarrow> r = Inl e"
      "\<And>cs e. x = Inr (cs, Some e) \<Longrightarrow> r = Inl e"
    using assms run
    by (auto simp: docker_exec_def draw_def on_snd_def bnd_def ret_def raise_def split: sum.splits option.splits prod.splits)
  ultimately show ?thesis by (cases x) (auto simp: left_by_exec_def split: sum.splits)
qed

end
