(* ===== verification/Docker_Properties.thy ===== *)
theory Docker_Properties
  imports Docker_Resources Docker_Hardening Docker_Exec
begin

text \<open>
  The properties of the Docker runtime and of a sandbox on it, each applied to a daemon that
  answers every call and a host with an empty disk.
\<close>

section \<open>A daemon for the examples\<close>

definition demo_env :: docker_env where
  "demo_env = \<lparr>dk_os = quiet, dk_fault = (\<lambda>_ _. None), dk_security_options = (\<lambda>_. []), dk_probe = (\<lambda>_. 0),
     dk_image_id = (\<lambda>n. ''image'' @ nat_digits n), dk_attached = (\<lambda>_. []),
     dk_containers = (\<lambda>_. []), dk_networks = (\<lambda>_. []),
     dk_arrivals = (\<lambda>_. [Output (Some ''hi'') None, Finished]), dk_exit = (\<lambda>_. Some 0), dk_output = (\<lambda>_. []),
     dk_archive = (\<lambda>_. []), dk_accepts = (\<lambda>_. True), dk_sha256 = (\<lambda>_. []), dk_monotonic = rat_of_nat,
     dk_time = rat_of_nat, dk_uuid = (\<lambda>_. ''0123456789abcdef''), dk_token = (\<lambda>_. ''00'')\<rparr>"

definition demo_world :: docker_world where
  "demo_world = \<lparr>host = \<lparr>disk_of = \<lparr>inodes = (\<lambda>_. None), fresh = 0\<rparr>, ticks = 0, fds = 0\<rparr>, owned = [],
     dcalls = [], draws = 0, saved = []\<rparr>"

definition demo_config :: sandbox_config where
  "demo_config = \<lparr>image_name = ''python:3.12-slim'', lifetime = 300, cfg_environment = [],
     workdir = ''/workspace/a'', network_enabled = False, limits = default_limits,
     read_only_root = True, policy = default_policy\<rparr>"

definition demo_runtime :: docker_rt where
  "demo_runtime = new_docker False None"

definition demo_running :: "docker_rt \<times> docker_world" where
  "demo_running = snd (docker_create demo_env demo_config (demo_runtime, demo_world))"

lemma demo_created: "fst (docker_create demo_env demo_config (demo_runtime, demo_world)) = Inr ()"
  by code_simp

lemma demo_running_fields: "dr_config (fst demo_running) = Some demo_config" "dr_workspace (fst demo_running) = Some 0"
  by code_simp+

section \<open>Containers\<close>




section \<open>Execution\<close>

text \<open>
  C20. Whatever a command writes and however the daemon cuts it up, the output that \<open>exec\<close> returns
  is at most three times the limit of the policy (invalid bytes are replaced by a three-byte
  character) and the notice that it was cut.
\<close>

theorem output_bounded:
  assumes "dr_config b = Some cfg" and "0 \<le> max_output_bytes (policy cfg)"
    and "fst (docker_exec D q (b, w)) = Inr r"
  shows "int (length (stdout r) + length (stderr r)) \<le>
    3 * max_output_bytes (policy cfg) + int (length (truncation_notice (max_output_bytes (policy cfg))))"
  by (rule exec_bounded [OF assms])

definition demo_request :: exec_request where
  "demo_request = \<lparr>xr_command = [''echo'', ''hi''], xr_display = ''echo hi'', xr_environment = [],
     xr_workdir = None, xr_timeout = Some 5\<rparr>"

definition demo_answer :: exec_result where
  "demo_answer = \<lparr>er_command = ''echo hi'', exit_code = 0, stdout = ''hi'', stderr = [], duration = 6\<rparr>"

lemma demo_exec: "fst (docker_exec demo_env demo_request (fst demo_running, snd demo_running)) = Inr demo_answer"
  by code_simp

lemma output_bounded_witness:
  "int (length (stdout demo_answer) + length (stderr demo_answer)) \<le>
    3 * max_output_bytes (policy demo_config) + int (length (truncation_notice (max_output_bytes (policy demo_config))))"
  by (rule output_bounded [OF demo_running_fields(1) _ demo_exec]) code_simp



section \<open>Forks\<close>

text \<open>
  C17. A fork is a copy: path by path its workspace reads as the parent's did, and from then on
  neither can change the other's files, because they share no inode.
\<close>

theorem fork_isolated:
  assumes E: "undisturbed (dk_os D)" and d: "disk_wf (disk_of (host w))" "disk_closed (disk_of (host w))"
      "tidy (disk_of (host w))"
    and ws: "dr_workspace b = Some ws" "is_dir (disk_of (host w)) ws"
    and run: "docker_fork D (b, w) = (Inr child, (b', w'))" and cw: "dr_workspace child = Some cw"
  shows "view (disk_of (host w')) cw = view (disk_of (host w)) ws \<and>
    view (disk_of (host (snd (snd (docker_write_file D p c (child, w')))))) ws = view (disk_of (host w')) ws \<and>
    view (disk_of (host (snd (snd (docker_write_file D p c (b', w')))))) cw = view (disk_of (host w')) cw"
proof (intro conjI)
  let ?d = "disk_of (host w)" and ?e = "disk_of (host w')"
  have b': "b' = b" using fork_result [OF run] by blast
  from fork_view(1) [OF E d ws run] cw show "view ?e cw = view ?d ws" by simp
  from fork_apart [OF E d(1) run] cw have a: "apart ?d ?e" and new: "fresh ?d \<le> cw" by auto
  from a have old: "confined {..<fresh ?d} ?e" "untouched {..<fresh ?d} ?d ?e" "disk_wf ?e" by (auto simp: apart_def)
  have in_old: "ws < fresh ?d"
    using d(1) ws(2) by (cases "ws < fresh ?d") (auto simp: disk_wf_def is_dir_def not_less)
  have "closed_in {..<fresh ?d} ?e"
    using d(2) old(2) by (auto simp: closed_in_def disk_closed_def untouched_def entry_def)
  from view_untouched [OF this write_untouched [OF E cw _ old(1)]] new in_old
  show "view (disk_of (host (snd (snd (docker_write_file D p c (child, w')))))) ws = view ?e ws"
    by (simp add: fun_eq_iff)
  have "closed_in {fresh ?d..<fresh ?e} ?e"
    using insideD [OF fork_view(2) [OF E d ws run]] by (fastforce simp: closed_in_def)
  moreover have "cw < fresh ?e"
  proof -
    have "is_dir ?d ws" by fact
    then have "view ?d ws [] = Some Folder" by (auto simp: is_dir_def node_of_def split: option.splits inode.splits)
    with \<open>view ?e cw = view ?d ws\<close> have "view ?e cw [] = Some Folder" by simp
    with old(3) show ?thesis by (cases "cw < fresh ?e") (auto simp: disk_wf_def not_less)
  qed
  moreover have "ws \<notin> {fresh ?d..<fresh ?e}" using in_old by simp
  moreover have "dr_workspace b' = Some ws" using ws(1) b' by simp
  ultimately show "view (disk_of (host (snd (snd (docker_write_file D p c (b', w')))))) cw = view ?e cw"
    using view_untouched [OF _ write_untouched [OF E _ _ apart_confined [OF a d(2)]]] new
    by (simp add: fun_eq_iff)
qed

text \<open>The workspace of the example holds the file \<open>f\<close>.\<close>

definition fork_disk :: disk where
  "fork_disk = \<lparr>inodes = [0 \<mapsto> Dir [(''f'', 1)], 1 \<mapsto> Reg ''data''], fresh = 2\<rparr>"

definition fork_world :: docker_world where
  "fork_world = (snd demo_running)\<lparr>host := \<lparr>disk_of = fork_disk, ticks = 0, fds = 0\<rparr>\<rparr>"

definition fork_child :: docker_rt where
  "fork_child = (fst demo_running)\<lparr>dr_container := Some 8, dr_workspace := Some 2, dr_config := Some demo_config\<rparr>"

lemma fork_run: "fst (docker_fork demo_env (fst demo_running, fork_world)) = Inr fork_child"
  by code_simp

lemma fork_isolated_witness:
  "let w' = snd (snd (docker_fork demo_env (fst demo_running, fork_world))) in
   view (disk_of (host w')) 2 = view fork_disk 0 \<and>
   view (disk_of (host (snd (snd (docker_write_file demo_env ''f'' ''x'' (fork_child, w')))))) 0 = view (disk_of (host w')) 0 \<and>
   view (disk_of (host (snd (snd (docker_write_file demo_env ''f'' ''x'' (fst demo_running, w')))))) 2 = view (disk_of (host w')) 2"
proof -
  define x where "x = docker_fork demo_env (fst demo_running, fork_world)"
  have d: "disk_of (host fork_world) = fork_disk" by (simp add: fork_world_def)
  have E: "undisturbed (dk_os demo_env)" by (simp add: demo_env_def)
  have run: "docker_fork demo_env (fst demo_running, fork_world) = (Inr fork_child, (fst (snd x), snd (snd x)))"
    using fork_run by (simp add: x_def prod_eq_iff)
  have b: "fst (snd x) = fst demo_running" using fork_result [OF run] by blast
  have wf: "disk_wf (disk_of (host fork_world))" "disk_closed (disk_of (host fork_world))" "tidy (disk_of (host fork_world))"
    "is_dir (disk_of (host fork_world)) 0"
    by (auto simp: d fork_disk_def disk_wf_def disk_closed_def tidy_def entry_def is_dir_def split: if_splits)
  have "dr_workspace fork_child = Some 2" by (simp add: fork_child_def)
  from fork_isolated [OF E wf(1-3) demo_running_fields(2) wf(4) run this] b d show ?thesis
    unfolding x_def [symmetric] Let_def by simp
qed

text \<open>
  Copying a workspace of regular files, links and directories ends: the depth that bounds the recursion
  is enough for every finite disk without a cycle of directories, and what is copied reads as the
  original, path by path.
\<close>

theorem copytree_completes:
  assumes d: "disk_wf d" "disk_closed d" "tidy d" "acyclic (links d)" "plain d" and ws: "is_dir d ws"
  shows "let (ok, e) = copytree_disk ws (fresh d) (alloc (Dir []) d) in ok \<and> view e (fresh d) = view d ws"
proof -
  have new: "ws < fresh d"
    using d(1) ws by (cases "ws < fresh d") (auto simp: disk_wf_def is_dir_def not_less)
  obtain es where es: "inodes d ws = Some (Dir es)"
    using ws by (auto simp: is_dir_def split: option.splits inode.splits)
  have "fst (copy_entries (Suc (fresh d)) es (fresh d) (alloc (Dir []) d))"
  proof (rule copy_deep_enough [OF d(3,2,4,5) apart_new [OF apart_refl [OF d(1)]]])
    show "\<forall>e \<in> set es. \<exists>k m. entry d k m = Some (snd e) \<and> Suc (card (below d (snd e))) \<le> Suc (fresh d)"
    proof
      fix e assume "e \<in> set es"
      then have "entry d ws (fst e) = Some (snd e)"
        using d(3) es by (auto simp: entry_def tidy_def)
      moreover have "card (below d (snd e)) \<le> card {..<fresh d}"
        by (rule card_mono [OF _ below_bound [OF d(2)]]) simp
      ultimately show "\<exists>k m. entry d k m = Some (snd e) \<and> Suc (card (below d (snd e))) \<le> Suc (fresh d)" by auto
    qed
  qed (simp_all add: alloc_def)
  then have ok: "fst (copytree_disk ws (fresh d) (alloc (Dir []) d))"
    using es new by (simp add: copytree_disk_def alloc_def del: copy_entries.simps)
  then obtain e where e: "copytree_disk ws (fresh d) (alloc (Dir []) d) = (True, e)"
    by (metis prod.collapse)
  with copytree_view(1) [OF d(3,2,1) refl e new] show ?thesis by simp
qed

lemma copytree_completes_witness:
  "let (ok, e) = copytree_disk 0 (fresh fork_disk) (alloc (Dir []) fork_disk) in ok \<and> view e (fresh fork_disk) = view fork_disk 0"
proof (rule copytree_completes)
  have l: "links fork_disk = {(0, 1)}" by (auto simp: links_def entry_def fork_disk_def split: if_splits)
  show "acyclic (links fork_disk)" unfolding l by (auto simp: acyclic_def trancl_insert)
qed (auto simp: fork_disk_def disk_wf_def disk_closed_def tidy_def entry_def is_dir_def plain_def split: if_splits)

section \<open>Resources\<close>

text \<open>
  Nothing leaks: on a daemon that answers the calls that remove, a create that fails leaves
  nothing behind (outside an allowlist), and after a create that succeeds, \<open>destroy\<close> returns and
  leaves exactly what there was before.
\<close>

theorem nothing_leaks:
  assumes "removals_answered D" "faults_caught D" "calm (dk_os D)"
    and "plain_parts (path_parts (relative_workdir (workdir cfg)))" and "disk_wf (disk_of (host w))"
    and "dr_container b = None" "dr_egress b = None"
  shows "case docker_create D cfg (b, w) of
      (Inl e, (b', w')) \<Rightarrow> np_mode (sp_network (policy cfg)) = ALLOWLIST \<or> set (owned w') \<subseteq> set (owned w)
    | (Inr _, s) \<Rightarrow> (case docker_destroy D s of (r, (b', w')) \<Rightarrow> r = Inr () \<and> settled b' \<and> set (owned w') \<subseteq> set (owned w))"
proof -
  obtain r b' w' where run: "docker_create D cfg (b, w) = (r, (b', w'))"
    by (cases "docker_create D cfg (b, w)") auto
  note acc = tripleD [OF create_account [OF assms(1-4), of "set (owned w)"] _ run]
  show ?thesis
  proof (cases r)
    case (Inl e)
    with acc assms(5-7) run show ?thesis by auto
  next
    case (Inr u)
    with acc assms(5-7) have a: "account (set (owned w)) (b', w')" by simp
    obtain q b2 w2 where d: "docker_destroy D (b', w') = (q, (b2, w2))"
      by (cases "docker_destroy D (b', w')") auto
    from tripleD [OF teardown_account [OF assms(1)] a d [unfolded docker_destroy_def]] Inr run d
    show ?thesis by (cases q) auto
  qed
qed

lemma nothing_leaks_witness:
  "case docker_create demo_env demo_config (demo_runtime, demo_world) of
      (Inl e, (b', w')) \<Rightarrow> np_mode (sp_network (policy demo_config)) = ALLOWLIST \<or> set (owned w') \<subseteq> set (owned demo_world)
    | (Inr _, s) \<Rightarrow> (case docker_destroy demo_env s of
        (r, (b', w')) \<Rightarrow> r = Inr () \<and> settled b' \<and> set (owned w') \<subseteq> set (owned demo_world))"
proof (rule nothing_leaks)
  show "plain_parts (path_parts (relative_workdir (workdir demo_config)))"
    unfolding plain_parts_def by code_simp
qed (simp_all add: removals_answered_def faults_caught_def demo_env_def demo_world_def disk_wf_def demo_runtime_def new_docker_def)

text \<open>
  The lifetime of a sandbox on Docker: whatever is called on it, in whatever order, once it has
  been destroyed by its owner or its timer it is destroyed, and its runtime has no container, no
  workspace, no network, no proxy and no image left.
\<close>

theorem sandbox_ends:
  assumes "am_runtime A = docker_runtime D" and "init A b a out = (Inr sb, out')"
    and "Destroy \<in> set cs \<or> Timer \<in> set cs"
  shows "let sb' = fst (perform_all A cs (sb, out')) in
     sb_destroyed sb' \<and> dr_container (sb_backend sb') = None \<and> dr_workspace (sb_backend sb') = None \<and>
     dr_egress (sb_backend sb') = None \<and> dr_owns_image (sb_backend sb') = None"
proof -
  have "gone docker_live (sb, out')" "timer_ok (fst (sb, out'))"
    using init_result [OF assms(2)] by (simp_all add: gone_def)
  from docker.run_ends [OF assms(1) this assms(3)] show ?thesis
    by (simp add: ended_def docker_live_def settled_iff Let_def)
qed

definition docker_ambient :: "(docker_rt, docker_world) ambient" where
  "docker_ambient = \<lparr>am_runtime = docker_runtime demo_env, am_observers = [], am_hook = allow_all,
     am_monotonic = rat_of_nat, am_time = rat_of_nat, am_uuid = (\<lambda>n. nat_digits n)\<rparr>"

definition docker_out :: "docker_world outside" where
  "docker_out = \<lparr>world = demo_world, tick = 0, emitted = []\<rparr>"

lemma init_created:
  assumes "init_config a = Inr cfg" "fst (rt_create (am_runtime A) cfg (b, world out)) = Inr ()" "am_observers A = []"
  shows "\<exists>sb. fst (init A b a out) = Inr sb"
  using assms
  by (auto simp: init_def Let_def emit_def split: prod.splits sum.splits)

lemma docker_init: "\<exists>sb. fst (init docker_ambient demo_runtime default_args docker_out) = Inr sb"
proof (rule init_created)
  show "init_config default_args = Inr (demo_config\<lparr>workdir := ''/workspace''\<rparr>)" by code_simp
  have "fst (docker_create demo_env (demo_config\<lparr>workdir := ''/workspace''\<rparr>) (demo_runtime, demo_world)) = Inr ()"
    by code_simp
  then show "fst (rt_create (am_runtime docker_ambient) (demo_config\<lparr>workdir := ''/workspace''\<rparr>)
      (demo_runtime, world docker_out)) = Inr ()"
    by (simp add: docker_ambient_def docker_runtime_def docker_out_def)
qed (simp add: docker_ambient_def)

lemma sandbox_ends_witness:
  "\<exists>sb out'. let sb' = fst (perform_all docker_ambient [ExecPython ''1'' None [] None, Timer, Logs] (sb, out')) in
     sb_destroyed sb' \<and> dr_container (sb_backend sb') = None \<and> dr_workspace (sb_backend sb') = None \<and>
     dr_egress (sb_backend sb') = None \<and> dr_owns_image (sb_backend sb') = None"
proof -
  obtain sb where "fst (init docker_ambient demo_runtime default_args docker_out) = Inr sb"
    using docker_init by blast
  then have "init docker_ambient demo_runtime default_args docker_out =
      (Inr sb, snd (init docker_ambient demo_runtime default_args docker_out))" by (simp add: prod_eq_iff)
  from sandbox_ends [OF _ this, of demo_env "[ExecPython ''1'' None [] None, Timer, Logs]"] show ?thesis
    by (intro exI) (simp add: docker_ambient_def)
qed

section \<open>Where the code falls short\<close>

text \<open>A CIDR allowlist is refused after the workspace was made and before the block that cleans up.\<close>

definition cidr_config :: sandbox_config where
  "cidr_config = demo_config\<lparr>policy := default_policy\<lparr>sp_network :=
     \<lparr>np_mode = ALLOWLIST, np_domains = [], np_cidrs = [''10.0.0.0/8'']\<rparr>\<rparr>\<rparr>"

lemma cidr_allowlist_leaks:
  "case docker_create demo_env cidr_config (demo_runtime, demo_world) of
     (Inl e, (b', w')) \<Rightarrow> exn_class e = UnsupportedCapabilityError \<and> owned w' = [TempDir 0]
   | (Inr _, _) \<Rightarrow> False"
  by code_simp

text \<open>When the connection to the daemon is lost, \<open>requests\<close> raises an \<open>OSError\<close>, which \<open>destroy\<close> does
  not catch: the workspace stays, although the fields have been reset.\<close>

definition lost_env :: docker_env where
  "lost_env = demo_env\<lparr>dk_fault := \<lambda>_ c. case c of ContainerRemove _ \<Rightarrow> Some (os_error ''connection lost'') | _ \<Rightarrow> None\<rparr>"

lemma lost_daemon_leaks:
  "case docker_destroy lost_env demo_running of
     (Inl e, (b', w')) \<Rightarrow> exn_class e = OSError \<and> dr_workspace b' = None \<and> TempDir 0 \<in> set (owned w')
   | (Inr _, _) \<Rightarrow> False"
  by code_simp

text \<open>A command that ends by itself with the status 137, as one killed for its memory does, is
  reported as a timeout.\<close>

lemma killed_is_timeout:
  "case docker_exec (demo_env\<lparr>dk_exit := \<lambda>_. Some 137\<rparr>) demo_request demo_running of
     (Inl e, _) \<Rightarrow> exn_class e = ExecutionTimeoutError | (Inr _, _) \<Rightarrow> False"
  by code_simp

end
