(* ===== verification/Sandbox_Threads.thy ===== *)
theory Sandbox_Threads
  imports Docker_Properties
begin

text \<open>
  \<open>Sandbox.destroy\<close> (\<open>src/agentnest/sandbox.py\<close>) called from several threads: the owner, the timer, a pool, the
  clean-up of a server. Only the look at the flag is under the lock; the call of the runtime and the event come
  after it. So the steps of the threads are interleaved at these three points.
\<close>

section \<open>Steps\<close>

datatype destroyer = Calling | Ending | Announcing | Returning "exn + unit"

definition destroy_step :: "('b, 'w) ambient \<Rightarrow> destroyer \<Rightarrow> ('b, 'w) state \<Rightarrow> (destroyer \<times> ('b, 'w) state) option" where
  "destroy_step A p s = (case p of
     Calling \<Rightarrow> (case s of (sb, out) \<Rightarrow>
         if sb_destroyed sb then Some (Returning (Inr ()), s)
         else Some (Ending, (sb\<lparr>sb_destroyed := True, sb_timer := False\<rparr>, out)))
   | Ending \<Rightarrow> (case backend_call (rt_destroy (am_runtime A)) s of
         (Inl e, s') \<Rightarrow> Some (Returning (Inl e), s') | (Inr _, s') \<Rightarrow> Some (Announcing, s'))
   | Announcing \<Rightarrow> (case emit A DESTROYED [] s of (r, s') \<Rightarrow> Some (Returning r, s'))
   | Returning _ \<Rightarrow> None)"



text \<open>A thread that is not interrupted does what \<open>destroy\<close> does.\<close>

primrec thread_run :: "nat \<Rightarrow> ('b, 'w) ambient \<Rightarrow> destroyer \<Rightarrow> ('b, 'w) state \<Rightarrow> destroyer \<times> ('b, 'w) state" where
  "thread_run 0 A p s = (p, s)"
| "thread_run (Suc k) A p s = (case destroy_step A p s of None \<Rightarrow> (p, s) | Some (p', s') \<Rightarrow> thread_run k A p' s')"

lemma thread_is_destroy:
  "thread_run 3 A Calling s = (Returning (fst (destroy A s)), snd (destroy A s))"
  by (cases s) (auto simp: numeral_3_eq_3 destroy_step_def destroy_def comp_defs split: prod.split sum.split)

section \<open>The invariant\<close>

definition busy :: "destroyer \<Rightarrow> bool" where
  "busy p \<longleftrightarrow> p = Ending \<or> p = Announcing"




section \<open>Progress\<close>






section \<open>The property\<close>




end
