(* ===== verification/Egress_Proxy.thy ===== *)
theory Egress_Proxy
  imports Errors
begin

text \<open>
  \<open>src/agentnest/_egress_proxy.py\<close>: the allowlisting CONNECT proxy. A text that the proxy
  decodes as Latin-1 is a list of \<open>char\<close>, one per code point. The client and upstream sockets are
  scripts: what each \<open>recv\<close> gives, what each round of \<open>select\<close> reports, and which \<open>sendall\<close>
  fails. The trace records every send, connection and close, in order.
\<close>

section \<open>Host patterns\<close>

text \<open>Latin-1 white space and case: the ASCII ones, NEL and NBSP, and the letters from 192 on.\<close>

definition l1_space :: "char \<Rightarrow> bool" where
  "l1_space c = (is_space c \<or> code c = 133 \<or> code c = 160)"

definition l1_lower :: "char \<Rightarrow> char" where
  "l1_lower c = (let n = code c in
     if (65 \<le> n \<and> n \<le> 90) \<or> (192 \<le> n \<and> n \<le> 222 \<and> n \<noteq> 215) then char_of (n + 32) else c)"

definition l1_strip :: "str \<Rightarrow> str" where
  "l1_strip s = rstrip_by l1_space (lstrip_by l1_space s)"

definition dot :: char where
  "dot = CHR ''.''"

text \<open>\<open>s.strip().lower().rstrip(".")\<close>.\<close>

definition canonical_host :: "str \<Rightarrow> str" where
  "canonical_host s = rstrip_by (\<lambda>c. c = dot) (map l1_lower (l1_strip s))"

definition normalize_patterns :: "str \<Rightarrow> str list" where
  "normalize_patterns raw = filter (\<lambda>p. p \<noteq> []) (map canonical_host (split_on CHR '','' raw))"

definition host_allowed :: "str \<Rightarrow> str list \<Rightarrow> bool" where
  "host_allowed host patterns =
     (let candidate = canonical_host host in
      if candidate = [] then False
      else (\<exists>p \<in> set patterns. p \<noteq> [] \<and> (candidate = p \<or> suffix (dot # p) candidate)))"

section \<open>Numbers\<close>

text \<open>\<open>int(s)\<close>: white space around, one sign, digits with single underscores between them, and no
  more than 4300 digits.\<close>

fun digit_groups :: "str \<Rightarrow> bool" where
  "digit_groups [] = False"
| "digit_groups [c] = is_digit c"
| "digit_groups (c # d # s) = (is_digit c \<and>
     (if d = CHR ''_'' then digit_groups s else digit_groups (d # s)))"

definition unsigned_int :: "str \<Rightarrow> int option" where
  "unsigned_int s = (let ds = filter is_digit s in
     if digit_groups s \<and> int (length ds) \<le> 4300 then Some (int (digits_value ds)) else None)"

definition py_int :: "str \<Rightarrow> int option" where
  "py_int s = (case l1_strip s of
       [] \<Rightarrow> None
     | c # cs \<Rightarrow> if c = CHR ''-'' then map_option uminus (unsigned_int cs)
         else if c = CHR ''+'' then unsigned_int cs else unsigned_int (c # cs))"

section \<open>Sockets\<close>

datatype side = Client | Upstream

text \<open>One return of \<open>select.select\<close>: an exception, an errored socket, or the ready sockets with
  what \<open>recv\<close> on each gives.\<close>

datatype round = SelectFails exn | Errored | Ready "(side \<times> (exn + bytes)) list"

datatype net =
    ToClient bytes | ToUpstream bytes | Connect str int | LogLine str | CloseClient | CloseUpstream

record io =
  inbox :: "(exn + bytes) list"
  rounds :: "round list"
  sends :: nat
  net_trace :: "net list"

record io_env =
  connect_fault :: "str \<Rightarrow> int \<Rightarrow> exn option"
  send_fault :: "nat \<Rightarrow> exn option"
  close_fault :: "exn option"

type_synonym 'a proxy_op = "(exn, io, 'a) comp"

definition record_net :: "net \<Rightarrow> unit proxy_op" where
  "record_net x = modify (\<lambda>s. s\<lparr>net_trace := net_trace s @ [x]\<rparr>)"

definition send_to :: "io_env \<Rightarrow> side \<Rightarrow> bytes \<Rightarrow> unit proxy_op" where
  "send_to V side b = (\<lambda>s.
     let s' = s\<lparr>sends := Suc (sends s),
           net_trace := net_trace s @ [case side of Client \<Rightarrow> ToClient b | Upstream \<Rightarrow> ToUpstream b]\<rparr>
     in case send_fault V (sends s) of None \<Rightarrow> (Inr (), s') | Some e \<Rightarrow> (Inl e, s'))"

text \<open>\<open>socket.create_connection\<close> hands the host to \<open>getaddrinfo\<close> as a C string: what is looked up
  ends before the first NUL. The trace records the name that is looked up.\<close>

definition resolved_name :: "str \<Rightarrow> str" where
  "resolved_name host = takeWhile (\<lambda>c. c \<noteq> CHR 0x00) host"

definition create_connection :: "io_env \<Rightarrow> str \<Rightarrow> int \<Rightarrow> unit proxy_op" where
  "create_connection V host port = next_do (record_net (Connect (resolved_name host) port))
     (case connect_fault V host port of None \<Rightarrow> ret () | Some e \<Rightarrow> raise e)"

section \<open>The tunnel\<close>

definition other_side :: "side \<Rightarrow> side" where
  "other_side x = (case x of Client \<Rightarrow> Upstream | Upstream \<Rightarrow> Client)"

text \<open>The inner loop of \<open>_pump\<close>; it answers whether to go on.\<close>

primrec relay :: "io_env \<Rightarrow> (side \<times> (exn + bytes)) list \<Rightarrow> bool proxy_op" where
  "relay V [] = ret True"
| "relay V (r # rs) =
     bnd (of_sum (snd r)) (\<lambda>data.
     if data = [] then ret False
     else next_do (send_to V (other_side (fst r)) data) (relay V rs))"

text \<open>The rounds of \<open>select\<close>; the run of the model ends with the last round it is given.\<close>

primrec pump_rounds :: "io_env \<Rightarrow> round list \<Rightarrow> unit proxy_op" where
  "pump_rounds V [] = ret ()"
| "pump_rounds V (r # rs) =
     (case r of
        SelectFails e \<Rightarrow> raise e
      | Errored \<Rightarrow> ret ()
      | Ready ready \<Rightarrow> bnd (relay V ready) (\<lambda>more. if more then pump_rounds V rs else ret ()))"

definition pump :: "io_env \<Rightarrow> unit proxy_op" where
  "pump V = bnd (gets rounds) (\<lambda>rs. suppressing (\<lambda>e. exn_isa e OSError) (pump_rounds V rs))"

section \<open>The request\<close>

abbreviation crlf :: bytes where
  "crlf \<equiv> [CHR 0x0D, CHR 0x0A]"

fun partition_crlf :: "bytes \<Rightarrow> bytes \<times> bytes" where
  "partition_crlf [] = ([], [])"
| "partition_crlf (c # s) =
     (if prefix crlf (c # s) then ([], drop 1 s)
      else (case partition_crlf s of (a, b) \<Rightarrow> (c # a, b)))"

text \<open>The loop of \<open>_read_request_line\<close>: \<open>recv\<close> until the buffer has a line, the client closes, or
  the buffer is too long.\<close>

fun read_loop :: "bytes \<Rightarrow> (exn + bytes) list \<Rightarrow> (exn + bytes) \<times> (exn + bytes) list" where
  "read_loop buffer [] = (Inr buffer, [])"
| "read_loop buffer (r # rs) =
     (if contains buffer crlf then (Inr buffer, r # rs)
      else (case r of
          Inl e \<Rightarrow> (Inl e, rs)
        | Inr chunk \<Rightarrow>
            if chunk = [] then (Inr buffer, rs)
            else if int (length (buffer @ chunk)) > 65536 then (Inr (buffer @ chunk), rs)
            else read_loop (buffer @ chunk) rs))"

definition read_request_line :: "(str \<times> bytes) proxy_op" where
  "read_request_line = (\<lambda>s. case read_loop [] (inbox s) of
     (Inl e, rest) \<Rightarrow> (Inl e, s\<lparr>inbox := rest\<rparr>)
   | (Inr buffer, rest) \<Rightarrow> (Inr (partition_crlf buffer), s\<lparr>inbox := rest\<rparr>))"

text \<open>\<open>str.encode()\<close> of a Latin-1 text.\<close>

definition l1_encode :: "str \<Rightarrow> bytes" where
  "l1_encode s = concat (map (\<lambda>c. let n = code c in
     if n < 128 then [c] else [char_of (192 + n div 64), char_of (128 + n mod 64)]) s)"

definition deny_message :: "str \<Rightarrow> str \<Rightarrow> bytes" where
  "deny_message status host =
     (let body = ''AgentNest egress policy blocked '' @ l1_encode host in
      ''HTTP/1.1 '' @ status @ crlf @ ''Content-Length: '' @ nat_digits (length body) @ crlf @
      ''Content-Type: text/plain'' @ crlf @ ''Connection: close'' @ crlf @ crlf @ body)"

definition deny :: "io_env \<Rightarrow> str \<Rightarrow> str \<Rightarrow> unit proxy_op" where
  "deny V status host = send_to V Client (deny_message status host)"

definition authority_parts :: "str \<Rightarrow> str \<times> str" where
  "authority_parts authority = (case rpartition CHR '':'' authority of (host, _, port_text) \<Rightarrow>
     if host = [] then (authority, ''443'') else (host, port_text))"

definition tunnel :: "io_env \<Rightarrow> str \<Rightarrow> int \<Rightarrow> unit proxy_op" where
  "tunnel V host port =
     next_do (record_net (LogLine (''allow '' @ host @ '':'' @ int_text port)))
     (next_do (send_to V Client (''HTTP/1.1 200 Connection Established'' @ crlf @ crlf))
     (try_finally (pump V) (record_net CloseUpstream)))"

text \<open>\<open>_handle\<close> from the request line on.\<close>

definition dispatch :: "io_env \<Rightarrow> str list \<Rightarrow> str \<Rightarrow> unit proxy_op" where
  "dispatch V patterns request_line =
     (let parts = split_on CHR '' '' request_line in
      if length parts < 2 \<or> upper (hd parts) \<noteq> ''CONNECT''
      then deny V ''405 Method Not Allowed'' (if length parts > 1 then parts ! 1 else ''?'')
      else let authority = parts ! 1; (host, port_text) = authority_parts authority in
        case py_int port_text of
          None \<Rightarrow> deny V ''400 Bad Request'' authority
        | Some port \<Rightarrow>
            if \<not> host_allowed host patterns
            then next_do (record_net (LogLine (''deny '' @ host @ '':'' @ int_text port)))
                   (deny V ''403 Forbidden'' host)
            else bnd (try_except (next_do (create_connection V host port) (ret True))
                   (\<lambda>e. if exn_isa e OSError then ret False else raise e))
                 (\<lambda>connected. if connected then tunnel V host port
                    else deny V ''502 Bad Gateway'' host))"

definition close_client :: "io_env \<Rightarrow> unit proxy_op" where
  "close_client V = suppressing (\<lambda>e. exn_isa e OSError)
     (next_do (record_net CloseClient) (case close_fault V of None \<Rightarrow> ret () | Some e \<Rightarrow> raise e))"

definition handle :: "io_env \<Rightarrow> str list \<Rightarrow> unit proxy_op" where
  "handle V patterns = try_finally
     (suppressing (\<lambda>e. exn_isa e OSError)
       (bnd read_request_line (\<lambda>(request_line, _). dispatch V patterns request_line)))
     (close_client V)"

text \<open>\<open>serve\<close> handles every accepted connection in a thread of its own, so the connections do not
  interact; \<open>main\<close> takes the patterns from \<open>AGENTNEST_ALLOW\<close>.\<close>

definition serve :: "io_env list \<Rightarrow> str list \<Rightarrow> io list \<Rightarrow> io list" where
  "serve Vs patterns clients = map (\<lambda>(V, c). snd (handle V patterns c)) (zip Vs clients)"

definition proxy_main :: "str option \<Rightarrow> io_env list \<Rightarrow> io list \<Rightarrow> io list" where
  "proxy_main allow Vs clients =
     serve Vs (normalize_patterns (case allow of None \<Rightarrow> [] | Some raw \<Rightarrow> raw)) clients"

end
