(* ===== verification/Egress_Proxy_Facts.thy ===== *)
theory Egress_Proxy_Facts
  imports Egress_Proxy
begin

text \<open>
  The proxy matches hosts at label boundaries, connects only to hosts that match, sends nothing
  upstream before that, relays bytes unchanged and in order, and reads back the allowlist that the
  sidecar was started with.
\<close>

section \<open>Matching\<close>

lemma split_on_append: "split_on c (x @ c # y) = split_on c x @ split_on c y"
proof (induction x)
  case (Cons a x)
  obtain p ps where "split_on c x = p # ps" by (cases "split_on c x") auto
  with Cons show ?case by auto
qed simp

lemma join_append: "xs \<noteq> [] \<Longrightarrow> ys \<noteq> [] \<Longrightarrow> join_with s (xs @ ys) = join_with s xs @ s @ join_with s ys"
proof (induction xs)
  case (Cons x xs)
  then show ?case by (cases xs; cases ys) auto
qed simp

text \<open>The labels of a host name.\<close>

definition labels :: "str \<Rightarrow> str list" where
  "labels h = split_on dot h"

lemma label_suffix: "suffix (labels p) (labels h) \<longleftrightarrow> h = p \<or> suffix (dot # p) h"
proof
  assume "suffix (labels p) (labels h)"
  then obtain zs where zs: "labels h = zs @ labels p" by (auto simp: suffix_def)
  have "join_with [dot] (labels h) = h" by (simp add: labels_def)
  with zs have h: "h = join_with [dot] (zs @ labels p)" by simp
  show "h = p \<or> suffix (dot # p) h"
  proof (cases zs)
    case Nil
    with h show ?thesis by (simp add: labels_def)
  next
    case (Cons z zs')
    then have "h = join_with [dot] zs @ [dot] @ p"
      unfolding h by (subst join_append) (auto simp: labels_def)
    then show ?thesis by (auto simp: suffix_def)
  qed
next
  assume "h = p \<or> suffix (dot # p) h"
  then show "suffix (labels p) (labels h)"
    by (auto simp: suffix_def labels_def split_on_append)
qed

lemma host_allowed_labels: "host_allowed h ps \<longleftrightarrow> canonical_host h \<noteq> [] \<and>
    (\<exists>p \<in> set ps. p \<noteq> [] \<and> suffix (labels p) (labels (canonical_host h)))"
  unfolding host_allowed_def Let_def label_suffix by auto

section \<open>Runs as triples\<close>

text \<open>An invariant of the trace: \<open>admitted ps t\<close>, every connection in \<open>t\<close> is to the looked-up part of a
  host that matches, and something is sent upstream only after a connection.\<close>

definition connects :: "net list \<Rightarrow> (str \<times> int) list" where
  "connects t = concat (map (\<lambda>x. case x of Connect h p \<Rightarrow> [(h, p)] | _ \<Rightarrow> []) t)"

definition upstream_bytes :: "net list \<Rightarrow> bytes" where
  "upstream_bytes t = concat (map (\<lambda>x. case x of ToUpstream b \<Rightarrow> b | _ \<Rightarrow> []) t)"

definition client_bytes :: "net list \<Rightarrow> bytes" where
  "client_bytes t = concat (map (\<lambda>x. case x of ToClient b \<Rightarrow> b | _ \<Rightarrow> []) t)"

definition admitted :: "str list \<Rightarrow> (str \<Rightarrow> bool) \<Rightarrow> net list \<Rightarrow> bool" where
  "admitted ps ok t \<longleftrightarrow> (\<forall>(h, p) \<in> set (connects t). \<exists>host. host_allowed host ps \<and> ok host \<and> h = resolved_name host) \<and>
     (upstream_bytes t = [] \<or> connects t \<noteq> [])"

lemma connects_snoc [simp]: "connects (t @ [x]) = connects t @ (case x of Connect h p \<Rightarrow> [(h, p)] | _ \<Rightarrow> [])"
  by (simp add: connects_def)

lemma upstream_snoc [simp]: "upstream_bytes (t @ [x]) = upstream_bytes t @ (case x of ToUpstream b \<Rightarrow> b | _ \<Rightarrow> [])"
  by (simp add: upstream_bytes_def)

lemma client_snoc [simp]: "client_bytes (t @ [x]) = client_bytes t @ (case x of ToClient b \<Rightarrow> b | _ \<Rightarrow> [])"
  by (simp add: client_bytes_def)

definition safe_io :: "str list \<Rightarrow> (str \<Rightarrow> bool) \<Rightarrow> io \<Rightarrow> bool" where
  "safe_io ps ok s = admitted ps ok (net_trace s)"

text \<open>Nothing has been connected to, so nothing has been sent upstream.\<close>

definition closed_io :: "io \<Rightarrow> bool" where
  "closed_io s \<longleftrightarrow> connects (net_trace s) = [] \<and> upstream_bytes (net_trace s) = []"

lemma closed_safe: "closed_io s \<Longrightarrow> safe_io ps ok s"
  by (simp add: closed_io_def safe_io_def admitted_def)

lemma closed_deny: "keeps closed_io (deny V status host)"
  by (rule keepsI) (auto simp: deny_def send_to_def Let_def closed_io_def split: option.splits)

lemma closed_log: "keeps closed_io (record_net (LogLine l))"
  by (rule keepsI) (auto simp: record_net_def modify_def closed_io_def)

text \<open>With a connection open, every send keeps the invariant.\<close>

definition open_io :: "str list \<Rightarrow> (str \<Rightarrow> bool) \<Rightarrow> io \<Rightarrow> bool" where
  "open_io ps ok s \<longleftrightarrow> safe_io ps ok s \<and> connects (net_trace s) \<noteq> []"

lemma open_send: "keeps (open_io ps ok) (send_to V side b)"
  by (rule keepsI) (auto simp: send_to_def Let_def open_io_def safe_io_def admitted_def split: option.splits side.splits)

lemma open_record: "(\<And>h p. x \<noteq> Connect h p) \<Longrightarrow> keeps (open_io ps ok) (record_net x)"
  by (rule keepsI) (auto simp: record_net_def modify_def open_io_def safe_io_def admitted_def split: net.splits)

lemma open_relay: "keeps (open_io ps ok) (relay V rs)"
  by (induction rs) (auto intro!: keeps_bnd keeps_next_do open_send)

lemma open_pump_rounds: "keeps (open_io ps ok) (pump_rounds V rs)"
proof (induction rs)
  case (Cons r rs)
  then show ?case by (cases r) (auto intro!: keeps_bnd open_relay)
qed simp

lemma keeps_finally: "keeps P m \<Longrightarrow> keeps P c \<Longrightarrow> keeps P (try_finally m c)"
  by (rule keepsI) (auto simp: try_finally_def split: prod.splits sum.splits dest: keepsD)

lemma open_tunnel: "keeps (open_io ps ok) (tunnel V host port)"
  unfolding tunnel_def pump_def
  by (intro keeps_next_do keeps_finally keeps_bnd keeps_suppressing keeps_gets open_record open_send
      open_pump_rounds) auto

lemma safe_deny: "keeps (safe_io ps ok) (deny V status host)"
  by (rule keepsI) (auto simp: deny_def send_to_def Let_def safe_io_def admitted_def split: option.splits)

text \<open>\<open>parts ! 1\<close> and what \<open>rpartition\<close> makes of it keep the characters of the request line.\<close>

lemma split_on_chars: "p \<in> set (split_on c s) \<Longrightarrow> set p \<subseteq> set s"
proof (induction s arbitrary: p)
  case (Cons x s)
  obtain y ys where "split_on c s = y # ys" by (cases "split_on c s") auto
  with Cons.prems Cons.IH [of y] Cons.IH [of p] show ?case by (auto split: if_splits)
qed simp

lemma authority_chars: "set (fst (authority_parts a)) \<subseteq> set a"
proof -
  have "set (drop 1 (dropWhile (\<lambda>x. x \<noteq> CHR '':'') (rev a))) \<subseteq> set a"
  proof
    fix x assume "x \<in> set (drop 1 (dropWhile (\<lambda>x. x \<noteq> CHR '':'') (rev a)))"
    then have "x \<in> set (dropWhile (\<lambda>x. x \<noteq> CHR '':'') (rev a))" by (rule in_set_dropD)
    then have "x \<in> set (rev a)" by (rule set_dropWhileD)
    then show "x \<in> set a" by simp
  qed
  then show ?thesis by (auto simp: authority_parts_def rpartition_def)
qed

lemma connect_open:
  assumes "host_allowed host ps" "ok host"
  shows "triple closed_io (create_connection V host port) (\<lambda>_. open_io ps ok) (\<lambda>_. safe_io ps ok)"
  using assms
  by (auto simp: triple_def create_connection_def record_net_def comp_defs closed_io_def open_io_def
      safe_io_def admitted_def split: option.splits)

lemma open_safe: "open_io ps ok s \<Longrightarrow> safe_io ps ok s"
  by (simp add: open_io_def)

lemma triple_keeps:
  assumes "keeps P m" "\<And>s. P s \<Longrightarrow> Q s"
  shows "triple P m (\<lambda>_. Q) (\<lambda>_. Q)"
  by (rule triple_conseq [OF assms(1) [unfolded keeps_def]]) (use assms(2) in auto)

lemma dispatch_safe:
  assumes chars: "\<And>host. set host \<subseteq> set line \<Longrightarrow> ok host"
  shows "triple closed_io (dispatch V ps line) (\<lambda>_. safe_io ps ok) (\<lambda>_. safe_io ps ok)"
proof -
  let ?parts = "split_on CHR '' '' line"
  let ?a = "?parts ! 1"
  obtain host port_text where ap: "authority_parts ?a = (host, port_text)" by (cases "authority_parts ?a")
  have refuse: "triple closed_io (deny V status h) (\<lambda>_. safe_io ps ok) (\<lambda>_. safe_io ps ok)" for status h
    by (rule triple_keeps [OF closed_deny closed_safe])
  have logged: "triple closed_io (next_do (record_net (LogLine l)) (deny V status h)) (\<lambda>_. safe_io ps ok) (\<lambda>_. safe_io ps ok)"
    for status h l
    by (rule triple_keeps [OF keeps_next_do [OF closed_log closed_deny] closed_safe])
  have connect: "triple closed_io (bnd (try_except (next_do (create_connection V host port) (ret True))
        (\<lambda>e. if exn_isa e OSError then ret False else raise e))
        (\<lambda>connected. if connected then tunnel V host port else deny V status host))
      (\<lambda>_. safe_io ps ok) (\<lambda>_. safe_io ps ok)"
    if h: "host_allowed host ps" "ok host" for port status
  proof (rule triple_bnd)
    let ?R = "\<lambda>c s. if c then open_io ps ok s else safe_io ps ok s"
    show "triple closed_io (try_except (next_do (create_connection V host port) (ret True))
        (\<lambda>e. if exn_isa e OSError then ret False else raise e)) ?R (\<lambda>_. safe_io ps ok)"
      unfolding next_do_def
      by (rule triple_try_except [OF triple_bnd [OF connect_open [of host ps ok, OF h]]])
        (auto intro!: triple_ret triple_raise)
    show "triple (?R c) (if c then tunnel V host port else deny V status host) (\<lambda>_. safe_io ps ok) (\<lambda>_. safe_io ps ok)" for c
      using triple_keeps [OF open_tunnel open_safe] triple_keeps [OF safe_deny, of ps ok "safe_io ps ok"] by auto
  qed
  have ok: "ok host" if "\<not> length ?parts < 2"
  proof (rule chars)
    have "set host \<subseteq> set ?a" using authority_chars [of ?a] ap by simp
    moreover have "set ?a \<subseteq> set line" using that by (intro split_on_chars [of _ "CHR '' ''"]) simp
    ultimately show "set host \<subseteq> set line" by simp
  qed
  show ?thesis
    unfolding dispatch_def Let_def ap prod.case
    using ok refuse logged connect by (auto intro!: triple_if split: option.split)
qed

text \<open>All bytes that a socket delivers.\<close>

definition delivered :: "(exn + bytes) list \<Rightarrow> bytes" where
  "delivered rs = concat (map (\<lambda>r. case r of Inl _ \<Rightarrow> [] | Inr b \<Rightarrow> b) rs)"

lemma delivered_Cons: "delivered (Inr c # rs) = c @ delivered rs"
  by (simp add: delivered_def)

lemma read_loop_chars: "read_loop buf inb = (Inr b, rest) \<Longrightarrow> set b \<subseteq> set buf \<union> set (delivered inb)"
proof (induction buf inb arbitrary: b rest rule: read_loop.induct)
  case (2 buffer r rs)
  show ?case
  proof (cases r)
    case (Inl e)
    with 2(2) show ?thesis by (auto split: if_splits)
  next
    case (Inr c)
    have "set b \<subseteq> set buffer \<or> set b \<subseteq> set (buffer @ c) \<or> set b \<subseteq> set (buffer @ c) \<union> set (delivered rs)"
      using 2 Inr by (auto simp del: set_append split: if_splits)
    then show ?thesis using Inr by (auto simp: delivered_Cons)
  qed
qed auto

lemma partition_chars: "set (fst (partition_crlf s)) \<subseteq> set s"
  by (induction s) (auto split: prod.splits)

section \<open>A connection\<close>

lemma close_safe: "keeps (safe_io ps ok) (close_client V)"
proof -
  have "keeps (safe_io ps ok) (record_net CloseClient)"
    by (rule keepsI) (auto simp: record_net_def modify_def safe_io_def admitted_def)
  then show ?thesis
    unfolding close_client_def by (intro keeps_suppressing keeps_next_do) (auto split: option.split)
qed

lemma handle_safe:
  assumes "closed_io s" and ok: "\<And>host. set host \<subseteq> set (delivered (inbox s)) \<Longrightarrow> ok host"
  shows "safe_io ps ok (snd (handle V ps s))"
proof -
  have read: "triple (\<lambda>x. closed_io x \<and> inbox x = inbox s) read_request_line
      (\<lambda>x t. set (fst x) \<subseteq> set (delivered (inbox s)) \<and> closed_io t) (\<lambda>_. safe_io ps ok)"
    unfolding triple_def read_request_line_def
  proof (intro allI impI)
    fix x assume x: "closed_io x \<and> inbox x = inbox s"
    obtain r rest where run: "read_loop [] (inbox x) = (r, rest)" by (cases "read_loop [] (inbox x)")
    have closed: "closed_io (x\<lparr>inbox := rest\<rparr>)" using x by (simp add: closed_io_def)
    show "case (case read_loop [] (inbox x) of (Inl e, rest) \<Rightarrow> (Inl e, x\<lparr>inbox := rest\<rparr>)
        | (Inr buffer, rest) \<Rightarrow> (Inr (partition_crlf buffer), x\<lparr>inbox := rest\<rparr>)) of
        (Inl e, t) \<Rightarrow> safe_io ps ok t
      | (Inr y, t) \<Rightarrow> set (fst y) \<subseteq> set (delivered (inbox s)) \<and> closed_io t"
    proof (cases r)
      case (Inr b)
      have "set (fst (partition_crlf b)) \<subseteq> set (delivered (inbox s))"
        using partition_chars [of b] read_loop_chars [of "[]" "inbox x" b rest] run Inr x by auto
      with closed show ?thesis by (simp add: run Inr)
    qed (simp add: run closed closed_safe)
  qed
  have disp: "triple (\<lambda>t. set (fst x) \<subseteq> set (delivered (inbox s)) \<and> closed_io t)
      (case x of (line, _) \<Rightarrow> dispatch V ps line) (\<lambda>_. safe_io ps ok) (\<lambda>_. safe_io ps ok)" for x :: "str \<times> bytes"
    by (rule triple_pure, cases x) (auto intro!: dispatch_safe ok)
  let ?m = "suppressing (\<lambda>e. exn_isa e OSError) (bnd read_request_line (\<lambda>(line, _). dispatch V ps line))"
  have body: "triple (\<lambda>x. closed_io x \<and> inbox x = inbox s) ?m (\<lambda>_. safe_io ps ok) (\<lambda>_. safe_io ps ok)"
    unfolding suppressing_def
    by (rule triple_try_except [OF triple_bnd [OF read disp]]) (auto intro!: triple_ret triple_raise)
  obtain r t where run: "?m s = (r, t)" by (cases "?m s")
  with tripleD [OF body _ run] assms(1) have t: "safe_io ps ok t" by (auto split: sum.splits)
  obtain r' t' where c: "close_client V t = (r', t')" by (cases "close_client V t")
  from keepsD [OF close_safe t c] run c show ?thesis
    by (auto simp: handle_def try_finally_def split: sum.splits)
qed

section \<open>The tunnel is transparent\<close>

text \<open>What the client sent and what the upstream sent, while neither closed.\<close>

definition from_side :: "side \<Rightarrow> (side \<times> (exn + bytes)) list \<Rightarrow> bytes" where
  "from_side x rs = concat (map (\<lambda>(y, r). if y = x then (case r of Inr b \<Rightarrow> b | Inl _ \<Rightarrow> []) else []) rs)"

fun flowing :: "round \<Rightarrow> bool" where
  "flowing (Ready rs) = (\<forall>(x, r) \<in> set rs. case r of Inr b \<Rightarrow> b \<noteq> [] | Inl _ \<Rightarrow> False)"
| "flowing _ = False"

fun round_bytes :: "side \<Rightarrow> round \<Rightarrow> bytes" where
  "round_bytes x (Ready rs) = from_side x rs"
| "round_bytes x _ = []"

lemma relay_flow:
  assumes "\<forall>n. send_fault V n = None" "flowing (Ready rs)"
  shows "\<exists>t. relay V rs s = (Inr True, t) \<and>
    upstream_bytes (net_trace t) = upstream_bytes (net_trace s) @ from_side Client rs \<and>
    client_bytes (net_trace t) = client_bytes (net_trace s) @ from_side Upstream rs"
  using assms(2)
proof (induction rs arbitrary: s)
  case (Cons r rs)
  obtain x b where r: "r = (x, Inr b)" "b \<noteq> []" using Cons.prems by (cases r) (auto split: sum.splits)
  obtain u where u: "send_to V (other_side x) b s = (Inr (), u)"
    "net_trace u = net_trace s @ [case other_side x of Client \<Rightarrow> ToClient b | Upstream \<Rightarrow> ToUpstream b]"
    using assms(1) by (simp add: send_to_def Let_def)
  from Cons.IH [of u] Cons.prems obtain t where "relay V rs u = (Inr True, t)"
    "upstream_bytes (net_trace t) = upstream_bytes (net_trace u) @ from_side Client rs"
    "client_bytes (net_trace t) = client_bytes (net_trace u) @ from_side Upstream rs" by auto
  moreover have "relay V (r # rs) s = relay V rs u"
    using r u(1) by (simp add: of_sum_def bnd_def next_do_def)
  ultimately show ?case
    using r u(2) by (cases x) (auto simp: from_side_def other_side_def)
qed (simp add: comp_defs from_side_def)

lemma pump_flow:
  assumes "\<forall>n. send_fault V n = None" "\<forall>r \<in> set rs. flowing r"
  shows "\<exists>t. pump_rounds V rs s = (Inr (), t) \<and>
    upstream_bytes (net_trace t) = upstream_bytes (net_trace s) @ concat (map (round_bytes Client) rs) \<and>
    client_bytes (net_trace t) = client_bytes (net_trace s) @ concat (map (round_bytes Upstream) rs)"
  using assms(2)
proof (induction rs arbitrary: s)
  case (Cons r rs)
  obtain ready where r: "r = Ready ready" using Cons.prems by (cases r) auto
  with Cons.prems have "flowing (Ready ready)" by simp
  from relay_flow [OF assms(1) this, of s] obtain u where u: "relay V ready s = (Inr True, u)"
    "upstream_bytes (net_trace u) = upstream_bytes (net_trace s) @ from_side Client ready"
    "client_bytes (net_trace u) = client_bytes (net_trace s) @ from_side Upstream ready" by auto
  from Cons.IH [of u] Cons.prems u r show ?case by (auto simp: bnd_def)
qed (simp add: comp_defs)

section \<open>The allowlist reaches the proxy\<close>

text \<open>A domain as the proxy keeps it.\<close>

definition canonical_domain :: "str \<Rightarrow> bool" where
  "canonical_domain d \<longleftrightarrow> d \<noteq> [] \<and> CHR '','' \<notin> set d \<and> canonical_host d = d"

lemma patterns_roundtrip:
  assumes "\<forall>d \<in> set ds. canonical_domain d"
  shows "normalize_patterns (join_with '','' ds) = ds"
proof (cases "ds = []")
  case True
  then show ?thesis
    by (simp add: normalize_patterns_def canonical_host_def l1_strip_def lstrip_by_def)
next
  case False
  have "split_on CHR '','' (join_with '','' ds) = ds"
    using split_join [OF False, of "CHR '',''"] assms by (simp add: canonical_domain_def)
  then show ?thesis
    using assms by (simp add: normalize_patterns_def canonical_domain_def map_idI)
qed

end
