(* ===== verification/Egress_Proxy_Properties.thy ===== *)
theory Egress_Proxy_Properties
  imports Egress_Proxy_Facts
begin

text \<open>
  The properties of the egress proxy: what it matches, what it connects to, what it relays, and
  the two places where a connection is not what its request line says.
\<close>

definition calm_io :: io_env where
  "calm_io = \<lparr>connect_fault = (\<lambda>_ _. None), send_fault = (\<lambda>_. None), close_fault = None\<rparr>"

definition client_io :: "(exn + bytes) list \<Rightarrow> round list \<Rightarrow> io" where
  "client_io received rs = \<lparr>inbox = received, rounds = rs, sends = 0, net_trace = []\<rparr>"

definition connect_request :: "str \<Rightarrow> bytes" where
  "connect_request authority = ''CONNECT '' @ authority @ '' HTTP/1.1'' @ crlf"

text \<open>
  C11. A host is allowed exactly when, stripped, lower-cased and without trailing dots, it is not
  empty and its dot-separated labels end in the labels of a pattern: the match is at a label
  boundary, so \<open>notpypi.org\<close> never matches \<open>pypi.org\<close>.
\<close>

theorem host_allowed_exact:
  "host_allowed host patterns = (canonical_host host \<noteq> [] \<and>
     (\<exists>p \<in> set patterns. p \<noteq> [] \<and> suffix (labels p) (labels (canonical_host host))))"
  by (rule host_allowed_labels)



text \<open>
  With a NUL byte in the host the allowlist is bypassed: the host as a whole ends in an allowed
  domain, but what is looked up ends at the NUL, and the proxy connects there.
\<close>

theorem nul_bypasses_allowlist:
  "connects (net_trace (snd (handle calm_io [''pypi.org'']
     (client_io [Inr (connect_request (''evil.com'' @ [CHR 0x00] @ ''.pypi.org:443''))] [])))) = [(''evil.com'', 443)] \<and>
   \<not> host_allowed ''evil.com'' [''pypi.org'']"
  by code_simp

text \<open>
  C12. An open tunnel is transparent: as long as neither side closes or fails, the upstream gets
  exactly the bytes the client sent, and the client those the upstream sent, in order.
\<close>

theorem tunnel_transparent:
  assumes "\<forall>n. send_fault V n = None" and "\<forall>r \<in> set (rounds s). flowing r"
  shows "let t = snd (pump V s) in
    upstream_bytes (net_trace t) = upstream_bytes (net_trace s) @ concat (map (round_bytes Client) (rounds s)) \<and>
    client_bytes (net_trace t) = client_bytes (net_trace s) @ concat (map (round_bytes Upstream) (rounds s))"
proof -
  obtain t where t: "pump_rounds V (rounds s) s = (Inr (), t)"
    "upstream_bytes (net_trace t) = upstream_bytes (net_trace s) @ concat (map (round_bytes Client) (rounds s))"
    "client_bytes (net_trace t) = client_bytes (net_trace s) @ concat (map (round_bytes Upstream) (rounds s))"
    using pump_flow [OF assms, of s] by blast
  then have "snd (pump V s) = t"
    by (simp add: pump_def suppressing_def try_except_def gets_def bnd_def)
  with t show ?thesis by (simp add: Let_def)
qed

lemma tunnel_transparent_witness:
  "let t = snd (pump calm_io (client_io [] [Ready [(Client, Inr ''hello'')], Ready [(Upstream, Inr ''yo''), (Client, Inr ''!'')]])) in
    upstream_bytes (net_trace t) = upstream_bytes [] @ ''hello!'' \<and> client_bytes (net_trace t) = client_bytes [] @ ''yo''"
  using tunnel_transparent [of calm_io "client_io [] [Ready [(Client, Inr ''hello'')], Ready [(Upstream, Inr ''yo''), (Client, Inr ''!'')]]"]
  by (simp add: calm_io_def client_io_def from_side_def Let_def)

text \<open>
  The bytes that follow the request line are not consumed: those that arrive with it are
  dropped, those that arrive after it are sent to the upstream as if they were tunnelled.
\<close>

theorem request_headers_mishandled:
  "upstream_bytes (net_trace (snd (handle calm_io [''a.b'']
      (client_io [Inr (connect_request ''a.b:1'' @ ''early data'')] [])))) = [] \<and>
   upstream_bytes (net_trace (snd (handle calm_io [''a.b'']
      (client_io [Inr (connect_request ''a.b:1'')] [Ready [(Client, Inr ''Host: a.b'')]])))) = ''Host: a.b''"
  by code_simp

text \<open>
  The proxy reads back the allowlist that the sidecar passes it in \<open>AGENTNEST_ALLOW\<close>, for
  domains in the form the proxy keeps them: non-empty, lower case, without comma, surrounding
  white space or trailing dot.
\<close>

theorem allowlist_roundtrip:
  assumes "\<forall>d \<in> set domains. canonical_domain d"
  shows "normalize_patterns (join_with '','' domains) = domains"
  by (rule patterns_roundtrip [OF assms])

lemma allowlist_roundtrip_witness:
  "normalize_patterns (join_with '','' [''pypi.org'', ''files.pythonhosted.org'']) = [''pypi.org'', ''files.pythonhosted.org'']"
  by (rule allowlist_roundtrip) (code_simp)

end
