(* ===== verification/Docker_Account.thy ===== *)
theory Docker_Account
  imports Docker_Properties
begin

text \<open>
  The account of the resources of a sandbox on Docker, through its whole life: what a runtime keeps of its
  state and the world, the sandbox above it keeps under every operation; the operations of the Docker
  runtime own nothing that is not in its fields. So a sandbox that is created, used in any way and destroyed
  leaves the daemon and the disk with what they had before.
\<close>

section \<open>Backend invariants and sandbox operations\<close>












section \<open>The operations of the Docker runtime\<close>














section \<open>The life of a sandbox\<close>





end
