(* ===== verification/Docker_Snapshot.thy ===== *)
theory Docker_Snapshot
  imports Docker_Properties
begin

text \<open>
  Snapshots on Docker: a snapshot is written to a temporary file that replaces its destination in the end, so
  whichever call fails, the destination holds the old snapshot or the new one, and a restore hands the daemon
  what the snapshot read from it.
\<close>

section \<open>Names\<close>

lemma path_text_snoc: "\<exists>p. \<forall>c. slash \<notin> set c \<longrightarrow> path_text (xs @ [c]) = p @ c"
proof (cases xs)
  case Nil
  then show ?thesis by (intro exI [of _ "[]"]) (simp add: path_text_def)
next
  case (Cons y ys)
  have join: "\<exists>p. \<forall>c. join_with s (zs @ [c]) = p @ c" for s :: str and zs
  proof (induction zs)
    case (Cons z zs)
    then obtain p where "\<forall>c. join_with s (zs @ [c]) = p @ c" by blast
    then have "\<forall>c. join_with s ((z # zs) @ [c]) = (z @ s @ p) @ c" by (cases zs) auto
    then show ?case by blast
  qed auto
  obtain p q where "\<forall>c. join_with ''/'' (ys @ [c]) = p @ c" "\<forall>c. join_with ''/'' ((y # ys) @ [c]) = q @ c"
    using join by metis
  with Cons show ?thesis
    by (intro exI [of _ "if slash \<in> set y then y @ p else q"]) (simp add: path_text_def)
qed

lemma temporary_differs:
  assumes "snapshot_temporary destination = Inr t"
  shows "t \<noteq> path_text (path_parts destination)"
proof -
  define xs c where "xs = butlast (path_parts destination)" and "c = last (path_parts destination)"
  from assms have c: "path_parts destination = xs @ [c]" "slash \<notin> set c"
    and t: "t = path_text (xs @ [''.'' @ c @ ''.tmp''])"
    by (auto simp: snapshot_temporary_def Let_def xs_def c_def split: if_splits)
  obtain p where p: "\<And>d. slash \<notin> set d \<Longrightarrow> path_text (xs @ [d]) = p @ d" using path_text_snoc by blast
  have "path_text (xs @ [c]) = p @ c" by (rule p [OF c(2)])
  moreover have "t = p @ ''.'' @ c @ ''.tmp''" using p [of "''.'' @ c @ ''.tmp''"] c(2) t by simp
  ultimately have "length t = length (path_text (xs @ [c])) + 5" by simp
  then show ?thesis unfolding c(1) by auto
qed

section \<open>The files\<close>

text \<open>The files agree with \<open>v\<close> but for those in \<open>X\<close>.\<close>

definition agrees :: "(str \<Rightarrow> bytes option) \<Rightarrow> str set \<Rightarrow> docker_world \<Rightarrow> bool" where
  "agrees v X w \<longleftrightarrow> (\<forall>p. p \<notin> X \<longrightarrow> map_of (saved w) p = v p)"

abbreviation holding :: "(str \<Rightarrow> bytes option) \<Rightarrow> str \<Rightarrow> bytes \<Rightarrow> docker_world \<Rightarrow> bool" where
  "holding v t content w \<equiv> agrees v {t} w \<and> map_of (saved w) t = Some content"

lemma sdk_triple:
  assumes "\<And>w w'. saved w' = saved w \<Longrightarrow> P w \<Longrightarrow> P w'" "\<And>w. P w \<Longrightarrow> E w"
  shows "triple P (sdk D c) (\<lambda>_. P) (\<lambda>_. E)" "triple P (sdk_do D c) (\<lambda>_. P) (\<lambda>_. E)"
  using assms(1) assms(2)
  by (fastforce simp: triple_def sdk_do_def sdk_def Let_def comp_defs split: option.splits)+

lemma open_triple:
  "triple (agrees v {t}) (save_open D t) (\<lambda>_. holding v t []) (\<lambda>_. agrees v {t})"
  unfolding save_open_def next_do_def
  by (rule triple_bnd [OF sdk_triple(2)]) (auto simp: agrees_def triple_def modify_def)

lemma write_triple:
  "triple (holding v t xs) (save_write D t ys) (\<lambda>_. holding v t (xs @ ys)) (\<lambda>_. agrees v {t})"
  unfolding save_write_def next_do_def
  by (rule triple_bnd [OF sdk_triple(2)]) (auto simp: agrees_def triple_def modify_def)

lemma chunks_triple:
  "triple (holding v t xs) (for_each chunks (\<lambda>c. next_do (sdk_do D ArchiveNext) (save_write D t c)))
     (\<lambda>_. holding v t (xs @ concat chunks)) (\<lambda>_. agrees v {t})"
proof (induction chunks arbitrary: xs)
  case (Cons c cs)
  have call: "triple (holding v t xs) (sdk_do D ArchiveNext) (\<lambda>_. holding v t xs) (\<lambda>_. agrees v {t})"
    by (rule sdk_triple) (auto simp: agrees_def)
  have step: "triple (holding v t xs) (next_do (sdk_do D ArchiveNext) (save_write D t c))
      (\<lambda>_. holding v t (xs @ c)) (\<lambda>_. agrees v {t})"
    unfolding next_do_def by (rule triple_bnd [OF call write_triple])
  show ?case
    using triple_bnd [OF step Cons.IH [of "xs @ c"]] by (simp add: next_do_def)
qed (auto intro: triple_ret)

lemma replace_triple:
  assumes "t \<noteq> q"
  shows "triple (holding v t xs) (save_replace D t q)
    (\<lambda>_ w. agrees v {t, q} w \<and> map_of (saved w) q = Some xs \<and> map_of (saved w) t = None) (\<lambda>_. agrees v {t})"
  unfolding save_replace_def next_do_def
  by (rule triple_bnd [OF sdk_triple(2)]) (use assms in \<open>auto simp: agrees_def triple_def\<close>)

text \<open>What the daemon streamed.\<close>

definition streamed :: "docker_env \<Rightarrow> bytes \<Rightarrow> bool" where
  "streamed D x \<longleftrightarrow> (\<exists>n. x = concat (dk_archive D n))"

lemma archive_triple:
  assumes "t \<noteq> q"
  shows "triple (agrees v {t}) (save_archive D c t q)
    (\<lambda>x w. streamed D x \<and> agrees v {t, q} w \<and> map_of (saved w) q = Some x \<and> map_of (saved w) t = None) (\<lambda>_. agrees v {t})"
proof -
  have get: "triple (agrees v {t}) (sdk D (GetArchive c)) (\<lambda>_. agrees v {t}) (\<lambda>_. agrees v {t})"
    by (rule sdk_triple) (auto simp: agrees_def)
  have call: "triple (holding v t x) (sdk_do D ArchiveNext) (\<lambda>_. holding v t x) (\<lambda>_. agrees v {t})" for x
    by (rule sdk_triple) (auto simp: agrees_def)
  show ?thesis
    unfolding save_archive_def next_do_def
    apply (rule triple_bnd [OF get])
    apply (rule triple_bnd [OF open_triple])
    apply (rule triple_bnd [OF chunks_triple [unfolded next_do_def]])
    apply (rule triple_bnd [OF call])
    apply (rule triple_bnd [OF replace_triple [OF assms]])
    by (rule triple_ret) (auto simp: streamed_def)
qed

section \<open>Faults that are caught\<close>

definition ordinary_fault :: "exn \<Rightarrow> bool" where
  "ordinary_fault e \<longleftrightarrow> exn_isa e DockerException \<or> exn_isa e OSError"

text \<open>Every call that fails does so with an exception that the code catches, and \<open>unlink\<close> does not fail.\<close>

definition orderly :: "docker_env \<Rightarrow> bool" where
  "orderly D \<longleftrightarrow> (\<forall>n c e. dk_fault D n c = Some e \<longrightarrow> ordinary_fault e) \<and> (\<forall>n p. dk_fault D n (HostUnlink p) = None)"

abbreviation faults_only :: "'a docker \<Rightarrow> bool" where
  "faults_only m \<equiv> triple (\<lambda>_. True) m (\<lambda>_ _. True) (\<lambda>e _. ordinary_fault e)"

lemma missing_ordinary: "ordinary_fault (Exn FileNotFoundError m)"
  by (simp add: ordinary_fault_def isa_OSError)

lemma faults_sdk: "orderly D \<Longrightarrow> faults_only (sdk D c)" "orderly D \<Longrightarrow> faults_only (sdk_do D c)"
  by (auto simp: triple_def sdk_do_def sdk_def Let_def comp_defs orderly_def split: option.splits)

lemma faults_next: "faults_only m \<Longrightarrow> faults_only n \<Longrightarrow> faults_only (next_do m n)"
  unfolding next_do_def by (rule triple_bnd)

lemma faults_for_each: "(\<And>x. faults_only (f x)) \<Longrightarrow> faults_only (for_each xs f)"
  by (induction xs) (auto intro: faults_next triple_ret)

lemma faults_saved:
  assumes "orderly D"
  shows "faults_only (save_open D p)" "faults_only (save_write D p x)" "faults_only (save_replace D p q)"
  unfolding save_open_def save_write_def save_replace_def
  by (intro faults_next faults_sdk [OF assms]; auto simp: triple_def modify_def missing_ordinary split: option.split)+

lemma faults_archive: "orderly D \<Longrightarrow> faults_only (save_archive D c t q)"
  unfolding save_archive_def
  by (intro triple_bnd [OF faults_sdk(1)] faults_next faults_for_each faults_sdk faults_saved triple_ret) auto

lemma unlink_triple:
  "triple (agrees v {t}) (suppressing (\<lambda>x. exn_isa x FileNotFoundError) (save_unlink D t))
     (\<lambda>_ w. agrees v {t} w \<and> (orderly D \<longrightarrow> map_of (saved w) t = None)) (\<lambda>_ w. agrees v {t} w \<and> \<not> orderly D)"
  by (auto simp: triple_def suppressing_def try_except_def save_unlink_def sdk_do_def sdk_def Let_def comp_defs
      agrees_def orderly_def split: option.splits prod.splits sum.splits)

lemma triple_both:
  assumes "triple P m Q E" "triple (\<lambda>_. True) m Q' E'"
  shows "triple P m (\<lambda>x s. Q x s \<and> Q' x s) (\<lambda>e s. E e s \<and> E' e s)"
  using assms unfolding triple_def by (fastforce split: prod.splits sum.splits)

text \<open>The archive with its handler: the temporary file is gone, or a call failed that is not caught.\<close>

lemma guarded_archive:
  assumes "t \<noteq> q"
  shows "triple (agrees v {t})
    (try_except (save_archive D c t q) (\<lambda>e. if exn_isa e DockerException \<or> exn_isa e OSError
       then next_do (suppressing (\<lambda>x. exn_isa x FileNotFoundError) (save_unlink D t)) (raise (Exn FileAccessError (f e)))
       else raise e))
    (\<lambda>x w. streamed D x \<and> agrees v {t, q} w \<and> map_of (saved w) q = Some x \<and> map_of (saved w) t = None)
    (\<lambda>_ w. agrees v {t} w \<and> (orderly D \<longrightarrow> map_of (saved w) t = None))"
proof (rule triple_try_except)
  have "triple (\<lambda>_. True) (save_archive D c t q) (\<lambda>_ _. True) (\<lambda>e _. orderly D \<longrightarrow> ordinary_fault e)"
    by (cases "orderly D") (use faults_archive in \<open>auto simp: triple_any\<close>)
  from triple_both [OF archive_triple [OF assms] this]
  show "triple (agrees v {t}) (save_archive D c t q)
    (\<lambda>x w. streamed D x \<and> agrees v {t, q} w \<and> map_of (saved w) q = Some x \<and> map_of (saved w) t = None)
    (\<lambda>e w. agrees v {t} w \<and> (orderly D \<longrightarrow> ordinary_fault e))"
    by simp
  show "triple (\<lambda>w. agrees v {t} w \<and> (orderly D \<longrightarrow> ordinary_fault e))
     (if exn_isa e DockerException \<or> exn_isa e OSError
       then next_do (suppressing (\<lambda>x. exn_isa x FileNotFoundError) (save_unlink D t)) (raise (Exn FileAccessError (f e)))
       else raise e)
    (\<lambda>x w. streamed D x \<and> agrees v {t, q} w \<and> map_of (saved w) q = Some x \<and> map_of (saved w) t = None)
    (\<lambda>_ w. agrees v {t} w \<and> (orderly D \<longrightarrow> map_of (saved w) t = None))" for e
  proof (cases "ordinary_fault e")
    case True
    have "triple (\<lambda>w. agrees v {t} w \<and> (orderly D \<longrightarrow> ordinary_fault e))
        (suppressing (\<lambda>x. exn_isa x FileNotFoundError) (save_unlink D t))
        (\<lambda>_ w. agrees v {t} w \<and> (orderly D \<longrightarrow> map_of (saved w) t = None))
        (\<lambda>_ w. agrees v {t} w \<and> (orderly D \<longrightarrow> map_of (saved w) t = None))"
      by (rule triple_conseq [OF unlink_triple]) auto
    then have "triple (\<lambda>w. agrees v {t} w \<and> (orderly D \<longrightarrow> ordinary_fault e))
        (next_do (suppressing (\<lambda>x. exn_isa x FileNotFoundError) (save_unlink D t)) (raise (Exn FileAccessError (f e))))
        (\<lambda>x w. streamed D x \<and> agrees v {t, q} w \<and> map_of (saved w) q = Some x \<and> map_of (saved w) t = None)
        (\<lambda>_ w. agrees v {t} w \<and> (orderly D \<longrightarrow> map_of (saved w) t = None))"
      unfolding next_do_def by (rule triple_bnd) (rule triple_raise)
    then show ?thesis using True by (simp only: if_P ordinary_fault_def)
  next
    case False
    then show ?thesis by (auto simp: ordinary_fault_def intro: triple_raise)
  qed
qed

section \<open>The property\<close>

lemma size_value:
  "fst (save_size D q w) = Inr n \<Longrightarrow> map_of (saved w) q = Some x \<Longrightarrow> n = int (length x)"
  "saved (snd (save_size D q w)) = saved w"
  by (auto simp: save_size_def sdk_do_def sdk_def Let_def comp_defs split: option.splits)

text \<open>
  C19. A snapshot is all or nothing: the other files of the host stay as they are; when \<open>snapshot\<close> returns, its
  destination holds what the daemon streamed, with its size and its digest in the metadata, and the temporary
  file is gone; when it raises, whichever call failed, the destination holds the old snapshot or the complete
  new one, and if the failures are of the kinds the code catches, no new temporary file is left.
\<close>

theorem snapshot_all_or_nothing:
  assumes "docker_snapshot D destination (b, w) = (r, (b', w'))" and "snapshot_temporary destination = Inr t"
    and "q = path_text (path_parts destination)"
  shows "b' = b \<and> agrees (map_of (saved w)) {t, q} w' \<and> (case r of
      Inr m \<Rightarrow> map_of (saved w') t = None \<and> (\<exists>x. streamed D x \<and> map_of (saved w') q = Some x \<and>
        snap_path m = q \<and> snap_size m = int (length x) \<and> snap_sha256 m = dk_sha256 D x)
    | Inl e \<Rightarrow> (map_of (saved w') q = map_of (saved w) q \<or> (\<exists>x. streamed D x \<and> map_of (saved w') q = Some x)) \<and>
        (orderly D \<longrightarrow> map_of (saved w') t \<in> {None, map_of (saved w) t}))"
proof (cases "dr_container b")
  case None
  then show ?thesis using assms(1) by (auto simp: docker_snapshot_def require_error agrees_def)
next
  case (Some c)
  have tq: "t \<noteq> q" using temporary_differs [OF assms(2)] assms(3) by simp
  obtain r1 w1 where mk: "sdk_do D (HostMkdir (path_text (path_parent (path_parts destination)))) w = (r1, w1)" by force
  have w1: "saved w1 = saved w"
    using mk by (auto simp: sdk_do_def sdk_def Let_def comp_defs split: option.splits)
  show ?thesis
  proof (cases r1)
    case (Inl e)
    then show ?thesis using assms Some mk w1
      by (auto simp: docker_snapshot_def require_field_def get_rt_def on_snd_def comp_defs agrees_def)
  next
    case (Inr u)
    let ?handle = "\<lambda>e. if exn_isa e DockerException \<or> exn_isa e OSError
         then next_do (suppressing (\<lambda>x. exn_isa x FileNotFoundError) (save_unlink D t))
           (raise (Exn FileAccessError (''could not create snapshot: '' @ exn_msg e))) else raise e"
    obtain r2 w2 where arch: "try_except (save_archive D c t q) ?handle w1 = (r2, w2)" by force
    have "agrees (map_of (saved w)) {t} w1" by (simp add: agrees_def w1)
    note post = tripleD [OF guarded_archive [OF tq] this arch]
    show ?thesis
    proof (cases r2)
      case (Inl e)
      then show ?thesis using assms Some mk w1 \<open>r1 = Inr u\<close> arch post tq
        by (auto simp: docker_snapshot_def require_field_def get_rt_def on_snd_def Let_def bnd_def next_do_def
            gets_def of_sum_def ret_def agrees_def)
    next
      case (Inr x)
      obtain r3 w3 where sz: "save_size D q w2 = (r3, w3)" by force
      have w3: "saved w3 = saved w2" "\<And>n. r3 = Inr n \<Longrightarrow> n = int (length x)"
        using size_value [of D q w2] sz post Inr by auto
      show ?thesis using assms Some mk w1 \<open>r1 = Inr u\<close> arch Inr post sz w3
        by (cases r3) (auto simp: docker_snapshot_def require_field_def get_rt_def on_snd_def Let_def bnd_def next_do_def
            gets_def of_sum_def ret_def draw_def agrees_def)
    qed
  qed
qed

definition snapshot_env :: docker_env where
  "snapshot_env = demo_env\<lparr>dk_archive := \<lambda>_. [''ab'', ''c'']\<rparr>"

abbreviation snapshot_run :: "(exn + snapshot_metadata) \<times> docker_rt \<times> docker_world" where
  "snapshot_run \<equiv> docker_snapshot snapshot_env ''/tmp/s.tar'' demo_running"

lemma snapshot_all_or_nothing_witness:
  "fst (snd snapshot_run) = fst demo_running \<and>
    agrees (map_of (saved (snd demo_running))) {''/tmp/.s.tar.tmp'', ''/tmp/s.tar''} (snd (snd snapshot_run)) \<and>
    (case fst snapshot_run of
      Inr m \<Rightarrow> map_of (saved (snd (snd snapshot_run))) ''/tmp/.s.tar.tmp'' = None \<and>
        (\<exists>x. streamed snapshot_env x \<and> map_of (saved (snd (snd snapshot_run))) ''/tmp/s.tar'' = Some x \<and>
        snap_path m = ''/tmp/s.tar'' \<and> snap_size m = int (length x) \<and> snap_sha256 m = dk_sha256 snapshot_env x)
    | Inl e \<Rightarrow> (map_of (saved (snd (snd snapshot_run))) ''/tmp/s.tar'' = map_of (saved (snd demo_running)) ''/tmp/s.tar'' \<or>
        (\<exists>x. streamed snapshot_env x \<and> map_of (saved (snd (snd snapshot_run))) ''/tmp/s.tar'' = Some x)) \<and>
        (orderly snapshot_env \<longrightarrow> map_of (saved (snd (snd snapshot_run))) ''/tmp/.s.tar.tmp'' \<in>
          {None, map_of (saved (snd demo_running)) ''/tmp/.s.tar.tmp''}))"
proof (rule snapshot_all_or_nothing)
  show "docker_snapshot snapshot_env ''/tmp/s.tar'' (fst demo_running, snd demo_running) =
      (fst snapshot_run, (fst (snd snapshot_run), snd (snd snapshot_run)))" by simp
  show "snapshot_temporary ''/tmp/s.tar'' = Inr ''/tmp/.s.tar.tmp''" by code_simp
  show "''/tmp/s.tar'' = path_text (path_parts ''/tmp/s.tar'')" by code_simp
qed

text \<open>A restore hands the daemon the bytes that were streamed.\<close>

lemma restore_sends:
  assumes "dr_container b = Some c" "map_of (saved w) (path_text (path_parts src)) = Some x"
    and "\<And>n p. dk_fault D n (HostRead p) = None"
  shows "dcalls (snd (snd (docker_restore D src (b, w)))) =
    dcalls w @ [HostRead (path_text (path_parts src)), PutArchive c x]"
  using assms
  by (auto simp: docker_restore_def require_field_def get_rt_def on_snd_def save_read_def sdk_do_def sdk_def Let_def
      comp_defs split: option.splits)

end
