(* ===== verification/Pool.thy ===== *)
theory Pool
  imports Errors
begin

text \<open>
  \<open>src/agentnest/pool.py\<close>: a bounded pool of warm sandboxes shared by threads. A sandbox is its
  number in the order the factory made them; \<open>gone\<close> holds the destroyed ones. Each thread is the
  point it has reached in \<open>acquire\<close> or \<open>close\<close>, and each step is one operation on shared state: a
  block under the lock, one operation of the queue, one call of the factory or of \<open>destroy\<close>.
  An action names the thread that moves and what its environment decides.
\<close>

section \<open>State\<close>

text \<open>
  \<open>Waiting\<close>: at \<open>self._items.get\<close>; \<open>Using\<close>: in the body of the \<open>with\<close> statement; \<open>Leaving\<close>: after
  the second look at \<open>_closed\<close>, whose value it holds; \<open>Refilling\<close>: at the factory; \<open>Putting\<close>: at
  \<open>self._items.put\<close>; \<open>Draining\<close>: in the loop of \<open>close\<close>; \<open>Done\<close> and \<open>Raised\<close>: out of the call.
\<close>

datatype thread =
    Idle | Waiting | Using nat nat | Leaving nat nat bool | Refilling | Putting nat nat
  | Draining | Done | Raised exn

record pool =
  po_size :: nat
  po_max_uses :: nat
  po_items :: "(nat \<times> nat) list"
  po_closed :: bool
  po_made :: nat
  po_gone :: "nat list"
  po_threads :: "thread list"

section \<open>Construction\<close>

text \<open>The loop of \<open>__init__\<close>; \<open>works n\<close> says whether the \<open>n\<close>-th call of the factory returns. When one
  raises, the sandboxes made before it are in no pool.\<close>

fun fill :: "(nat \<Rightarrow> exn option) \<Rightarrow> nat \<Rightarrow> (nat \<times> nat) list \<Rightarrow> exn + (nat \<times> nat) list" where
  "fill fails 0 items = Inr items"
| "fill fails (Suc n) items = (case fails (length items) of
     Some e \<Rightarrow> Inl e | None \<Rightarrow> fill fails n (items @ [(length items, 0)]))"

definition make_pool :: "(nat \<Rightarrow> exn option) \<Rightarrow> int \<Rightarrow> int \<Rightarrow> nat \<Rightarrow> exn + pool" where
  "make_pool fails n max_uses threads =
     (if n \<le> 0 \<or> max_uses \<le> 0 then Inl (value_error ''size and max_uses must be positive'')
      else case fill fails (nat n) [] of
        Inl e \<Rightarrow> Inl e
      | Inr items \<Rightarrow> Inr \<lparr>po_size = nat n, po_max_uses = nat max_uses, po_items = items, po_closed = False,
          po_made = length items, po_gone = [], po_threads = replicate threads Idle\<rparr>)"

section \<open>Steps\<close>

text \<open>
  \<open>Enter\<close>: the first look at \<open>_closed\<close>. \<open>Get\<close>, \<open>GiveUp\<close>: \<open>get\<close> answers, or its timeout passes.
  \<open>Leave\<close>: the body is over. \<open>Settle\<close>: the test and \<open>destroy\<close>, which may raise. \<open>Make\<close>: the
  factory, which may raise. \<open>Put\<close>: \<open>put\<close>. \<open>Close\<close>, \<open>Drain\<close>: \<open>close\<close>. \<open>Expire\<close>: a sandbox that
  is destroyed by its timer or its user.
\<close>

datatype act =
    Enter nat | Get nat | GiveUp nat | Leave nat | Settle nat "exn option" | Make nat "exn option"
  | Put nat | Close nat | Drain nat "exn option" | Expire nat

definition thread :: "pool \<Rightarrow> nat \<Rightarrow> thread option" where
  "thread p t = (if t < length (po_threads p) then Some (po_threads p ! t) else None)"

definition goto :: "nat \<Rightarrow> thread \<Rightarrow> pool \<Rightarrow> pool" where
  "goto t x p = p\<lparr>po_threads := (po_threads p)[t := x]\<rparr>"

definition retire :: "nat \<Rightarrow> pool \<Rightarrow> pool" where
  "retire i p = p\<lparr>po_gone := List.insert i (po_gone p)\<rparr>"

definition closed_error :: exn where
  "closed_error = Exn PoolExhaustedError ''sandbox pool is closed''"

definition waited_error :: exn where
  "waited_error = Exn PoolExhaustedError ''timed out waiting for a sandbox''"

text \<open>\<open>sandbox.destroy()\<close>: only the first call reaches the runtime, so only it can raise.\<close>

definition destroy_raises :: "nat \<Rightarrow> exn option \<Rightarrow> pool \<Rightarrow> exn option" where
  "destroy_raises i raised p = (if i \<in> set (po_gone p) then None else raised)"

text \<open>The \<open>finally\<close> block after the look at \<open>_closed\<close>.\<close>

definition settle :: "nat \<Rightarrow> nat \<Rightarrow> nat \<Rightarrow> bool \<Rightarrow> exn option \<Rightarrow> pool \<Rightarrow> pool" where
  "settle t i uses shut raised p =
     (if shut \<or> i \<in> set (po_gone p) \<or> po_max_uses p \<le> Suc uses
      then goto t (case destroy_raises i raised p of Some e \<Rightarrow> Raised e
          | None \<Rightarrow> if shut then Done else Refilling) (retire i p)
      else goto t (Putting i (Suc uses)) p)"

text \<open>\<open>None\<close>: the thread cannot take the step.\<close>

fun step :: "act \<Rightarrow> pool \<Rightarrow> pool option" where
  "step (Enter t) p = (case thread p t of
     Some Idle \<Rightarrow> Some (goto t (if po_closed p then Raised closed_error else Waiting) p) | _ \<Rightarrow> None)"
| "step (Get t) p = (case thread p t of
     Some Waiting \<Rightarrow> (case po_items p of
       [] \<Rightarrow> None | (i, uses) # rest \<Rightarrow> Some (goto t (Using i uses) (p\<lparr>po_items := rest\<rparr>))) | _ \<Rightarrow> None)"
| "step (GiveUp t) p = (case thread p t of
     Some Waiting \<Rightarrow> if po_items p = [] then Some (goto t (Raised waited_error) p) else None | _ \<Rightarrow> None)"
| "step (Leave t) p = (case thread p t of
     Some (Using i uses) \<Rightarrow> Some (goto t (Leaving i uses (po_closed p)) p) | _ \<Rightarrow> None)"
| "step (Settle t raised) p = (case thread p t of
     Some (Leaving i uses shut) \<Rightarrow> Some (settle t i uses shut raised p) | _ \<Rightarrow> None)"
| "step (Make t raised) p = (case thread p t of
     Some Refilling \<Rightarrow> Some (case raised of
         Some e \<Rightarrow> goto t (Raised e) p
       | None \<Rightarrow> goto t (Putting (po_made p) 0) (p\<lparr>po_made := Suc (po_made p)\<rparr>)) | _ \<Rightarrow> None)"
| "step (Put t) p = (case thread p t of
     Some (Putting i uses) \<Rightarrow> if length (po_items p) < po_size p
       then Some (goto t Done (p\<lparr>po_items := po_items p @ [(i, uses)]\<rparr>)) else None | _ \<Rightarrow> None)"
| "step (Close t) p = (case thread p t of
     Some Idle \<Rightarrow> Some (if po_closed p then goto t Done p else goto t Draining (p\<lparr>po_closed := True\<rparr>)) | _ \<Rightarrow> None)"
| "step (Drain t raised) p = (case thread p t of
     Some Draining \<Rightarrow> Some (case po_items p of
         [] \<Rightarrow> goto t Done p
       | (i, _) # rest \<Rightarrow> (let p' = retire i (p\<lparr>po_items := rest\<rparr>) in
           case destroy_raises i raised p of Some e \<Rightarrow> goto t (Raised e) p' | None \<Rightarrow> p')) | _ \<Rightarrow> None)"
| "step (Expire i) p = (if i < po_made p then Some (retire i p) else None)"

text \<open>A schedule: the steps that cannot be taken are skipped.\<close>

definition move :: "act \<Rightarrow> pool \<Rightarrow> pool" where
  "move a p = (case step a p of None \<Rightarrow> p | Some q \<Rightarrow> q)"

definition schedule :: "act list \<Rightarrow> pool \<Rightarrow> pool" where
  "schedule as p = fold move as p"

inductive reachable :: "pool \<Rightarrow> pool \<Rightarrow> bool" for p where
  start: "reachable p p"
| next_step: "reachable p q \<Longrightarrow> step a q = Some r \<Longrightarrow> reachable p r"

section \<open>The invariant\<close>

text \<open>The sandbox a thread answers for, and the place in the pool it has taken.\<close>

fun sandbox_of :: "thread \<Rightarrow> nat list" where
  "sandbox_of (Using i _) = [i]" | "sandbox_of (Leaving i _ _) = [i]" | "sandbox_of (Putting i _) = [i]"
| "sandbox_of _ = []"

fun place_of :: "thread \<Rightarrow> nat" where
  "place_of (Using _ _) = 1" | "place_of (Leaving _ _ _) = 1" | "place_of (Putting _ _) = 1"
| "place_of Refilling = 1" | "place_of _ = 0"

fun uses_of :: "thread \<Rightarrow> nat list" where
  "uses_of (Using _ n) = [n]" | "uses_of (Leaving _ n _) = [n]" | "uses_of (Putting _ n) = [n]"
| "uses_of _ = []"

definition in_pool :: "pool \<Rightarrow> nat list" where
  "in_pool p = map fst (po_items p) @ concat (map sandbox_of (po_threads p))"

definition places :: "pool \<Rightarrow> nat" where
  "places p = length (po_items p) + sum_list (map place_of (po_threads p))"

definition pool_wf :: "pool \<Rightarrow> bool" where
  "pool_wf p \<longleftrightarrow> distinct (in_pool p) \<and> places p \<le> po_size p \<and>
     (\<forall>n \<in> snd ` set (po_items p) \<union> set (concat (map uses_of (po_threads p))). n < po_max_uses p) \<and>
     (\<forall>i < po_made p. i \<in> set (po_gone p) \<or> i \<in> set (in_pool p)) \<and> set (in_pool p) \<subseteq> {..<po_made p}"

end
