(* ===== verification/Pool_Properties.thy ===== *)
theory Pool_Properties
  imports Pool
begin

text \<open>
  The pool under every schedule: a sandbox is with one thread at most, the places of the pool are
  never exceeded, no sandbox is lent more often than allowed or forgotten; and what the races of
  \<open>close\<close> leave open.
\<close>

section \<open>One step\<close>

lemma thread_split:
  assumes "thread p t = Some x"
  shows "\<exists>ys zs. po_threads p = ys @ x # zs \<and> (\<forall>y. (po_threads p)[t := y] = ys @ y # zs)"
proof (intro exI conjI allI)
  from assms have t: "t < length (po_threads p)" "po_threads p ! t = x"
    by (auto simp: thread_def split: if_splits)
  show "po_threads p = take t (po_threads p) @ x # drop (Suc t) (po_threads p)"
    using t id_take_nth_drop [OF t(1)] by simp
  show "(po_threads p)[t := y] = take t (po_threads p) @ y # drop (Suc t) (po_threads p)" for y
    by (rule upd_conv_take_nth_drop [OF t(1)])
qed

text \<open>The invariant seen from one thread: the rest of the pool is \<open>R\<close>, \<open>P\<close> and \<open>U\<close>.\<close>

definition around :: "pool \<Rightarrow> thread \<Rightarrow> nat list \<Rightarrow> nat \<Rightarrow> nat set \<Rightarrow> bool" where
  "around q y R P U \<longleftrightarrow> (\<exists>ids lent. ids = map fst (po_items q) \<and> lent = map snd (po_items q) \<and>
     distinct (ids @ sandbox_of y @ R) \<and> length ids + place_of y + P \<le> po_size q \<and>
     (\<forall>n \<in> set lent \<union> set (uses_of y) \<union> U. n < po_max_uses q) \<and>
     (\<forall>i < po_made q. i \<in> set (po_gone q) \<or> i \<in> set ids \<union> set (sandbox_of y) \<union> set R) \<and>
     set ids \<union> set (sandbox_of y) \<union> set R \<subseteq> {..<po_made q})"

lemma wf_around:
  assumes "thread p t = Some x"
  shows "\<exists>R P U. pool_wf p = around p x R P U \<and>
    (\<forall>y q. po_threads q = (po_threads p)[t := y] \<longrightarrow> pool_wf q = around q y R P U)"
proof -
  from thread_split [OF assms] obtain ys zs where ts: "po_threads p = ys @ x # zs"
    "\<And>y. (po_threads p)[t := y] = ys @ y # zs" by blast
  define R where "R = concat (map sandbox_of (ys @ zs))"
  define P where "P = sum_list (map place_of (ys @ zs))"
  define U where "U = set (concat (map uses_of (ys @ zs)))"
  have "pool_wf q = around q y R P U" if q: "po_threads q = ys @ y # zs" for q y
  proof -
    have "distinct (in_pool q) = distinct (map fst (po_items q) @ sandbox_of y @ R)"
        "set (in_pool q) = set (map fst (po_items q)) \<union> set (sandbox_of y) \<union> set R"
      by (auto simp: in_pool_def q R_def)
    moreover have "places q = length (map fst (po_items q)) + place_of y + P"
      by (simp add: places_def q P_def)
    moreover have "snd ` set (po_items q) \<union> set (concat (map uses_of (po_threads q))) =
        set (map snd (po_items q)) \<union> set (uses_of y) \<union> U"
      by (auto simp: q U_def)
    ultimately show ?thesis unfolding pool_wf_def around_def by simp
  qed
  with ts show ?thesis by (intro exI [of _ R] exI [of _ P] exI [of _ U]) auto
qed

lemmas pool_simps = around_def goto_def retire_def

text \<open>The cases of a step, one per action.\<close>

lemma step_cases:
  assumes "step a p = Some q"
  shows "case a of
      Enter t \<Rightarrow> thread p t = Some Idle \<and> q = goto t (if po_closed p then Raised closed_error else Waiting) p
    | Get t \<Rightarrow> thread p t = Some Waiting \<and> (\<exists>i n rest. po_items p = (i, n) # rest \<and>
        q = goto t (Using i n) (p\<lparr>po_items := rest\<rparr>))
    | GiveUp t \<Rightarrow> thread p t = Some Waiting \<and> po_items p = [] \<and> q = goto t (Raised waited_error) p
    | Leave t \<Rightarrow> (\<exists>i n. thread p t = Some (Using i n) \<and> q = goto t (Leaving i n (po_closed p)) p)
    | Settle t r \<Rightarrow> (\<exists>i n shut. thread p t = Some (Leaving i n shut) \<and> q = settle t i n shut r p)
    | Make t r \<Rightarrow> thread p t = Some Refilling \<and> q = (case r of Some e \<Rightarrow> goto t (Raised e) p
        | None \<Rightarrow> goto t (Putting (po_made p) 0) (p\<lparr>po_made := Suc (po_made p)\<rparr>))
    | Put t \<Rightarrow> (\<exists>i n. thread p t = Some (Putting i n) \<and> length (po_items p) < po_size p \<and>
        q = goto t Done (p\<lparr>po_items := po_items p @ [(i, n)]\<rparr>))
    | Close t \<Rightarrow> thread p t = Some Idle \<and>
        q = (if po_closed p then goto t Done p else goto t Draining (p\<lparr>po_closed := True\<rparr>))
    | Drain t r \<Rightarrow> thread p t = Some Draining \<and> (case po_items p of [] \<Rightarrow> q = goto t Done p
        | (i, n) # rest \<Rightarrow> q = (case destroy_raises i r p of Some e \<Rightarrow> goto t (Raised e) (retire i (p\<lparr>po_items := rest\<rparr>))
            | None \<Rightarrow> retire i (p\<lparr>po_items := rest\<rparr>)))
    | Expire i \<Rightarrow> i < po_made p \<and> q = retire i p"
  using assms
  by (cases a) (auto simp: Let_def destroy_raises_def retire_def
      split: option.splits thread.splits list.splits if_splits)

lemma settle_wf:
  assumes p: "pool_wf p" and t: "thread p t = Some (Leaving i n shut)"
  shows "pool_wf (settle t i n shut r p)"
proof -
  obtain R P U where W: "pool_wf p = around p (Leaving i n shut) R P U"
    "\<And>y q. po_threads q = (po_threads p)[t := y] \<Longrightarrow> pool_wf q = around q y R P U"
    using wf_around [OF t] by blast
  have "pool_wf (goto t x (retire i p))" if "sandbox_of x = []" "uses_of x = []" "place_of x \<le> 1" for x
    using p that by (subst W(2) [of _ x]) (auto simp: pool_simps W(1) simp del: set_map)
  moreover have "pool_wf (goto t (Putting i (Suc n)) p)" if "Suc n < po_max_uses p"
    using p that by (subst W(2) [of _ "Putting i (Suc n)"]) (auto simp: pool_simps W(1) simp del: set_map)
  ultimately show ?thesis
    unfolding settle_def by (auto simp: not_le split: option.split)
qed

lemma goto_wf:
  assumes "pool_wf p" "thread p t = Some x" "po_threads p' = po_threads p"
    and "\<And>R P U. around p x R P U \<Longrightarrow> around p' y R P U"
  shows "pool_wf (goto t y p')"
proof -
  obtain R P U where W: "pool_wf p = around p x R P U"
    "\<And>y q. po_threads q = (po_threads p)[t := y] \<Longrightarrow> pool_wf q = around q y R P U"
    using wf_around [OF assms(2)] by blast
  have "pool_wf (goto t y p') = around (goto t y p') y R P U" by (rule W(2)) (simp add: goto_def assms(3))
  moreover have "around (goto t y p') y R P U = around p' y R P U" by (simp add: around_def goto_def)
  ultimately show ?thesis using assms(1,4) W(1) by simp
qed

lemma step_wf:
  assumes p: "pool_wf p" "0 < po_max_uses p" and s: "step a p = Some q"
  shows "pool_wf q"
proof (cases a)
  case (Settle t r)
  with step_cases [OF s] settle_wf [OF p(1)] show ?thesis by auto
next
  case (Expire i)
  with step_cases [OF s] p(1) show ?thesis
    by (auto simp: pool_wf_def in_pool_def places_def retire_def)
next
  case (Drain t r)
  with step_cases [OF s] have t: "thread p t = Some Draining" by simp
  show ?thesis
  proof (cases "po_items p")
    case Nil
    with step_cases [OF s] Drain show ?thesis by (auto intro!: goto_wf [OF p(1) t] simp: around_def)
  next
    case (Cons e rest)
    obtain i n where e: "e = (i, n)" by fastforce
    let ?q = "retire i (p\<lparr>po_items := rest\<rparr>)"
    have a: "around ?q y R P U" if "around p Draining R P U" "y = Draining \<or> (\<exists>e. y = Raised e)" for y R P U
      using that Cons e by (auto simp: around_def retire_def simp del: set_map)
    have q: "pool_wf (goto t y ?q)" if "y = Draining \<or> (\<exists>e. y = Raised e)" for y
      by (rule goto_wf [OF p(1) t _ a]) (use that in \<open>simp_all add: retire_def\<close>)
    have "(po_threads p)[t := Draining] = po_threads p"
      using t by (auto simp: thread_def split: if_splits) (metis list_update_id)
    then have "goto t Draining ?q = ?q" by (cases p) (simp add: goto_def retire_def)
    with q [of Draining] have "pool_wf ?q" by simp
    with step_cases [OF s] Drain Cons e q show ?thesis by (auto split: option.splits)
  qed
qed (use step_cases [OF s] p in \<open>auto intro!: goto_wf [OF p(1)] simp: around_def less_Suc_eq subset_iff
      simp del: set_map split: option.splits list.splits if_splits\<close>)

section \<open>Every schedule\<close>

lemma fill_items: "fill fails n items = Inr r \<Longrightarrow> \<exists>k. r = items @ map (\<lambda>i. (i, 0)) [length items..<k] \<and> k = length items + n"
proof (induction n arbitrary: items)
  case (Suc n)
  then have "fill fails n (items @ [(length items, 0)]) = Inr r" by (simp split: option.splits)
  from Suc.IH [OF this] show ?case by (auto simp: upt_conv_Cons)
qed simp

lemma make_pool_start:
  assumes "make_pool fails n m k = Inr p"
  shows "p = \<lparr>po_size = nat n, po_max_uses = nat m, po_items = map (\<lambda>i. (i, 0)) [0..<nat n], po_closed = False,
      po_made = nat n, po_gone = [], po_threads = replicate k Idle\<rparr>" "0 < n" "0 < m"
  using assms fill_items [of fails "nat n" "[]"]
  by (auto simp: make_pool_def split: if_splits sum.splits)

lemma sum_list_zero: "sum_list (map place_of (replicate k Idle)) = 0"
  by (induction k) auto

lemma make_pool_wf:
  assumes "make_pool fails n m k = Inr p"
  shows "pool_wf p" "0 < po_max_uses p" "places p = po_size p"
proof -
  note S = make_pool_start [OF assms]
  have "concat (map sandbox_of (replicate k Idle)) = []" "concat (map uses_of (replicate k Idle)) = []" by auto
  moreover have "map fst (map (\<lambda>i. (i, 0)) [0..<nat n] :: (nat \<times> nat) list) = [0..<nat n]"
    by (simp add: comp_def)
  ultimately show "pool_wf p" "places p = po_size p"
    using S(2,3) by (auto simp: S(1) pool_wf_def in_pool_def places_def sum_list_zero simp del: map_map)
  show "0 < po_max_uses p" using S(3) by (simp add: S(1))
qed

lemma step_constant: "step a p = Some q \<Longrightarrow> po_max_uses q = po_max_uses p \<and> po_size q = po_size p"
  using step_cases [of a p q]
  by (cases a) (auto simp: goto_def retire_def settle_def split: option.splits list.splits if_splits)

lemma reachable_wf:
  assumes "reachable p q" "pool_wf p" "0 < po_max_uses p"
  shows "pool_wf q \<and> po_max_uses q = po_max_uses p \<and> po_size q = po_size p"
  using assms(1)
proof (induction rule: reachable.induct)
  case (next_step q a r)
  with step_wf [of q a r] step_constant [of a q r] assms(3) show ?case by auto
qed (use assms in auto)

lemma put_enabled:
  assumes "pool_wf q" "thread q t = Some (Putting i n)"
  shows "step (Put t) q \<noteq> None"
proof -
  obtain R P U where "pool_wf q = around q (Putting i n) R P U" using wf_around [OF assms(2)] by blast
  with assms(1) have "length (po_items q) < po_size q" by (auto simp: around_def)
  with assms(2) show ?thesis by simp
qed

lemma lent_bound:
  assumes "pool_wf q" "thread q t = Some (Using i n)"
  shows "n < po_max_uses q"
proof -
  obtain R P U where "pool_wf q = around q (Using i n) R P U" using wf_around [OF assms(2)] by blast
  with assms(1) show ?thesis by (auto simp: around_def)
qed

text \<open>
  C34. The pool is safe under every schedule of its threads, with a factory and sandboxes that may
  fail at any call: no sandbox is in two places (the queue, a thread), so no two threads ever work
  in the same sandbox; giving one back never blocks; none is lent more than \<open>max_uses\<close> times; and
  every sandbox that was made is destroyed, in the queue, or with a thread: none is forgotten.
\<close>

theorem pool_safe:
  assumes "make_pool fails n m k = Inr p" and "reachable p q"
  shows "distinct (in_pool q) \<and> (\<forall>t i uses. thread q t = Some (Putting i uses) \<longrightarrow> step (Put t) q \<noteq> None) \<and>
    (\<forall>t i uses. thread q t = Some (Using i uses) \<longrightarrow> int uses < m) \<and>
    (\<forall>i < po_made q. i \<in> set (po_gone q) \<or> i \<in> set (in_pool q))"
proof -
  note P = make_pool_wf [OF assms(1)] and S = make_pool_start [OF assms(1)]
  from reachable_wf [OF assms(2) P(1,2)] have q: "pool_wf q" "po_max_uses q = nat m"
    by (auto simp: S(1))
  have "int uses < m" if "thread q t = Some (Using i uses)" for t i uses
    using lent_bound [OF q(1) that] q(2) S(3) by simp
  moreover have "distinct (in_pool q) \<and> (\<forall>i < po_made q. i \<in> set (po_gone q) \<or> i \<in> set (in_pool q))"
    using q(1) by (simp add: pool_wf_def)
  ultimately show ?thesis using put_enabled [OF q(1)] by blast
qed

definition two_threads :: pool where
  "two_threads = \<lparr>po_size = 1, po_max_uses = 2, po_items = [(0, 0)], po_closed = False, po_made = 1,
     po_gone = [], po_threads = [Idle, Idle]\<rparr>"

lemma two_threads_made: "make_pool (\<lambda>_. None) 1 2 2 = Inr two_threads"
  by code_simp

lemma reachable_schedule: "reachable p q \<Longrightarrow> reachable p (schedule as q)"
proof (induction as arbitrary: q)
  case (Cons a as)
  have "reachable p (move a q)"
    using Cons.prems by (auto simp: move_def intro: next_step split: option.split)
  with Cons.IH show ?case by (simp add: schedule_def)
qed (simp add: schedule_def)

lemma pool_safe_witness:
  "let q = schedule [Enter 0, Enter 1, Get 0, Get 1] two_threads in
   distinct (in_pool q) \<and> (\<forall>t i uses. thread q t = Some (Putting i uses) \<longrightarrow> step (Put t) q \<noteq> None) \<and>
   (\<forall>t i uses. thread q t = Some (Using i uses) \<longrightarrow> int uses < 2) \<and>
   (\<forall>i < po_made q. i \<in> set (po_gone q) \<or> i \<in> set (in_pool q))"
  unfolding Let_def by (rule pool_safe [OF two_threads_made]) (rule reachable_schedule [OF start])

section \<open>Capacity\<close>


text \<open>As long as the pool is open, every thread that left looked at it while it was open.\<close>

definition full :: "pool \<Rightarrow> bool" where
  "full p \<longleftrightarrow> po_closed p \<or> places p = po_size p \<and>
     (\<forall>x \<in> set (po_threads p). x \<noteq> Draining \<and> (\<forall>i n. x \<noteq> Leaving i n True))"


lemma full_simps [simp]: "full (retire i p) = full p" "po_closed (goto t x p) = po_closed p"
  "po_closed (retire i p) = po_closed p" "po_threads (retire i p) = po_threads p"
  "po_items (retire i p) = po_items p" "po_size (retire i p) = po_size p"
  by (simp_all add: full_def places_def retire_def goto_def)





section \<open>Closing\<close>

text \<open>When no thread holds a sandbox, \<open>close\<close> destroys every one.\<close>

lemma drain_all:
  assumes "thread p t = Some Draining"
  shows "schedule (replicate (length (po_items p)) (Drain t None)) p =
    p\<lparr>po_items := [], po_gone := fold List.insert (map fst (po_items p)) (po_gone p)\<rparr>"
  using assms
proof (induction "po_items p" arbitrary: p)
  case (Cons e items)
  obtain i n where e: "e = (i, n)" by fastforce
  let ?p = "retire i (p\<lparr>po_items := items\<rparr>)"
  have "move (Drain t None) p = ?p"
    using Cons.prems Cons.hyps(2) e by (simp add: move_def destroy_raises_def Let_def flip: Cons.hyps(2))
  moreover have "thread ?p t = Some Draining" using Cons.prems by (simp add: thread_def retire_def split: if_splits)
  ultimately show ?case
    using Cons.hyps(1) [of ?p] e by (simp add: schedule_def retire_def flip: Cons.hyps(2))
qed (simp add: schedule_def)

lemma fold_insert: "set (fold List.insert xs ys) = set xs \<union> set ys"
  by (induction xs arbitrary: ys) auto

text \<open>
  Closing an open pool while no thread holds a sandbox destroys every sandbox that the pool ever
  made, leaves the queue empty, and ends.
\<close>

theorem close_destroys_all:
  assumes "make_pool fails n m k = Inr p" and "reachable p q" and "thread q t = Some Idle" and "\<not> po_closed q"
    and "\<forall>x \<in> set (po_threads q). sandbox_of x = []"
  shows "let r = schedule (Close t # replicate (length (po_items q)) (Drain t None) @ [Drain t None]) q in
    po_items r = [] \<and> thread r t = Some Done \<and> set (po_gone r) \<supseteq> {..<po_made r}"
proof -
  let ?c = "goto t Draining (q\<lparr>po_closed := True\<rparr>)"
  let ?d = "?c\<lparr>po_items := [], po_gone := fold List.insert (map fst (po_items q)) (po_gone q)\<rparr>"
  have "pool_wf q"
    using reachable_wf [OF assms(2)] make_pool_wf [OF assms(1)] by simp
  moreover have "concat (map sandbox_of (po_threads q)) = []" using assms(5) by simp
  ultimately have all: "\<forall>i < po_made q. i \<in> set (po_gone q) \<or> i \<in> set (map fst (po_items q))"
    by (auto simp: pool_wf_def in_pool_def simp del: set_map)
  have t: "t < length (po_threads q)" using assms(3) by (auto simp: thread_def split: if_splits)
  then have c: "thread ?c t = Some Draining" "thread ?d t = Some Draining" by (simp_all add: thread_def goto_def)
  have close: "move (Close t) q = ?c" using assms(3,4) by (simp add: move_def)
  have drain: "schedule (replicate (length (po_items q)) (Drain t None)) ?c = ?d"
    using drain_all [OF c(1)] by (simp add: goto_def)
  have last: "move (Drain t None) ?d = goto t Done ?d" using c(2) by (simp add: move_def)
  have "schedule (Close t # replicate (length (po_items q)) (Drain t None) @ [Drain t None]) q = goto t Done ?d"
    using close drain last by (simp add: schedule_def)
  with all t show ?thesis
    by (auto simp: goto_def thread_def fold_insert simp del: set_map)
qed

lemma close_destroys_all_witness:
  "let r = schedule (Close 1 # replicate (length (po_items two_threads)) (Drain 1 None) @ [Drain 1 None]) two_threads in
    po_items r = [] \<and> thread r 1 = Some Done \<and> set (po_gone r) \<supseteq> {..<po_made r}"
  by (rule close_destroys_all [OF two_threads_made start]) (auto simp: two_threads_def thread_def)

section \<open>Races\<close>

text \<open>
  Closing races with giving back. A thread that looked at \<open>_closed\<close> before \<open>close\<close> set it puts its
  sandbox into the queue after \<open>close\<close> has emptied it: every thread is done, the pool is closed, and a
  sandbox is alive in it that nobody will destroy. And a thread that passed the first look waits
  forever if it has no timeout: nothing will ever be put into the queue.
\<close>

theorem close_races:
  "(let q = schedule [Enter 0, Get 0, Leave 0, Close 1, Drain 1 None, Settle 0 None, Put 0] two_threads in
      po_closed q \<and> po_threads q = [Done, Done] \<and> po_items q = [(0, 1)] \<and> po_gone q = []) \<and>
   (let q = schedule [Enter 0, Close 1, Drain 1 None, Drain 1 None] two_threads in
      po_closed q \<and> po_threads q = [Waiting, Done] \<and> po_items q = [])"
  by code_simp

text \<open>A sandbox whose lifetime ends while it waits in the queue is lent all the same.\<close>

lemma lends_destroyed:
  "let q = schedule [Expire 0, Enter 0, Get 0] two_threads in
     thread q 0 = Some (Using 0 0) \<and> po_gone q = [0]"
  by code_simp

text \<open>When the factory raises on the way back, the pool has one place less from then on.\<close>

lemma factory_failure_shrinks:
  "let q = schedule [Enter 0, Get 0, Expire 0, Leave 0, Settle 0 None, Make 0 (Some (os_failure))] two_threads in
     \<not> po_closed q \<and> places q = 0 \<and> po_size q = 1" for os_failure
  by code_simp

end
