(* ===== verification/Registry.thy ===== *)
theory Registry
  imports Docker "HOL-Library.List_Lexorder" "HOL-Library.Char_ord"
begin

text \<open>
  \<open>src/agentnest/registry.py\<close>: the table of runtime backends by name, with discovery of entry points.
  A factory is a value of type \<open>'f\<close>; what the installed packages declare is the list of entry points,
  each a name and what loading it gives.
\<close>

section \<open>The registry\<close>

record 'f registry =
  reg_factories :: "(str, 'f) dict"
  reg_discovered :: bool

type_synonym ('f, 'a) registry_op = "(exn, 'f registry, 'a) comp"

type_synonym 'f entry_points = "(str \<times> (exn + 'f)) list"

definition new_registry :: "'f registry" where
  "new_registry = \<lparr>reg_factories = [], reg_discovered = False\<rparr>"

text \<open>\<open>name.strip().lower()\<close>.\<close>

definition canonical_name :: "str \<Rightarrow> str" where
  "canonical_name name = lower (strip name)"

definition register :: "str \<Rightarrow> 'f \<Rightarrow> bool \<Rightarrow> ('f, unit) registry_op" where
  "register name f replace =
     (let normalized = canonical_name name in
      next_do (guard_or (normalized \<noteq> []) (value_error ''backend name must not be empty''))
      (bnd (gets (\<lambda>s. normalized \<in> fst ` set (reg_factories s))) (\<lambda>known.
       next_do (guard_or (\<not> (known \<and> \<not> replace))
           (value_error (''backend is already registered: '' @ py_repr normalized)))
         (modify (\<lambda>s. s\<lparr>reg_factories := dict_set normalized f (reg_factories s)\<rparr>)))))"

text \<open>The flag is set before the entry points are loaded.\<close>

definition discover :: "'f entry_points \<Rightarrow> ('f, unit) registry_op" where
  "discover eps = bnd (gets reg_discovered) (\<lambda>seen. if seen then ret ()
     else next_do (modify (\<lambda>s. s\<lparr>reg_discovered := True\<rparr>))
       (for_each eps (\<lambda>(name, loaded). bnd (of_sum loaded) (\<lambda>f. register name f False))))"

definition names :: "'f entry_points \<Rightarrow> ('f, str list) registry_op" where
  "names eps = next_do (discover eps) (gets (\<lambda>s. sort (map fst (reg_factories s))))"

text \<open>\<open>create\<close>, up to the call of the factory.\<close>

definition find_factory :: "'f entry_points \<Rightarrow> str \<Rightarrow> ('f, 'f) registry_op" where
  "find_factory eps name =
     next_do (discover eps)
     (bnd (gets (\<lambda>s. map_of (reg_factories s) (canonical_name name))) (\<lambda>f. case f of
        Some g \<Rightarrow> ret g
      | None \<Rightarrow> bnd (names eps) (\<lambda>ns. raise (value_error (''unknown runtime backend '' @ py_repr name @
          ''; available: '' @ (if join_with '', '' ns = [] then ''none'' else join_with '', '' ns))))))"

section \<open>The built-in backends\<close>

text \<open>A built-in factory is the class it constructs and the runtime name it passes.\<close>

datatype backend_class = DockerBackend "str option" | KubernetesBackend | ExternalBackend str

definition register_builtins :: "(backend_class, unit) registry_op" where
  "register_builtins =
     next_do (register ''docker'' (DockerBackend None) False)
     (next_do (register ''gvisor'' (DockerBackend (Some ''runsc'')) False)
     (next_do (register ''kata'' (DockerBackend (Some ''kata-runtime'')) False)
       (register ''kubernetes'' KubernetesBackend False)))"

definition builtin_registry :: "backend_class registry" where
  "builtin_registry = snd (register_builtins new_registry)"

text \<open>What the factories of the Docker backends make.\<close>

definition docker_backend :: "str option \<Rightarrow> docker_rt" where
  "docker_backend runtime_name = new_docker False runtime_name"

section \<open>A table with canonical keys\<close>

text \<open>What the users of a registry rely on: a name finds what was registered under any name with the
  same canonical form, and nothing else changes.\<close>

locale name_table =
  fixes put :: "str \<Rightarrow> 'f \<Rightarrow> 't \<Rightarrow> 't" and get :: "str \<Rightarrow> 't \<Rightarrow> 'f option" and same :: "str \<Rightarrow> str \<Rightarrow> bool"
  assumes get_put: "same n m \<Longrightarrow> get m (put n f t) = Some f"
    and get_other: "\<not> same n m \<Longrightarrow> get m (put n f t) = get m t"
begin

lemma put_put: "get m (put n g (put n f t)) = get m (put n g t)"
  by (cases "same n m") (simp_all add: get_put get_other)

lemma put_swap: "\<not> (same n k \<and> same n' k) \<Longrightarrow> get k (put n f (put n' g t)) = get k (put n' g (put n f t))"
  by (cases "same n k"; cases "same n' k") (simp_all add: get_put get_other)

end

definition put_name :: "str \<Rightarrow> 'f \<Rightarrow> 'f registry \<Rightarrow> 'f registry" where
  "put_name n f s = s\<lparr>reg_factories := dict_set (canonical_name n) f (reg_factories s)\<rparr>"

definition get_name :: "str \<Rightarrow> 'f registry \<Rightarrow> 'f option" where
  "get_name n s = map_of (reg_factories s) (canonical_name n)"

interpretation names: name_table put_name get_name "\<lambda>n m. canonical_name n = canonical_name m"
  by unfold_locales (simp_all add: put_name_def get_name_def)

section \<open>Outcomes\<close>

lemma register_result:
  "register n f rep s = (if canonical_name n = [] then (Inl (value_error ''backend name must not be empty''), s)
     else if get_name n s \<noteq> None \<and> \<not> rep
     then (Inl (value_error (''backend is already registered: '' @ py_repr (canonical_name n))), s)
     else (Inr (), put_name n f s))"
proof -
  have "(canonical_name n \<in> fst ` set (reg_factories s)) = (get_name n s \<noteq> None)"
    unfolding get_name_def by (metis map_of_eq_None_iff)
  then show ?thesis by (simp add: register_def Let_def comp_defs put_name_def)
qed

lemma discover_again: "reg_discovered s \<Longrightarrow> discover eps s = (Inr (), s)"
  by (simp add: discover_def bnd_def gets_def ret_def)

lemma names_again: "reg_discovered s \<Longrightarrow> names eps s = (Inr (sort (map fst (reg_factories s))), s)"
  by (simp add: names_def next_do_def bnd_def discover_again gets_def)

lemma find_again:
  assumes "reg_discovered s"
  shows "case get_name n s of Some f \<Rightarrow> find_factory eps n s = (Inr f, s)
    | None \<Rightarrow> \<exists>m. find_factory eps n s = (Inl (value_error m), s)"
  using assms
  by (auto simp: find_factory_def next_do_def bnd_def discover_again gets_def ret_def raise_def names_again
      get_name_def split: option.split)

text \<open>
  The registry is a table by canonical name: a name that registers is found, whatever its case
  and the white space around it, by every name with the same canonical form, and by no other; every
  other name finds what it found before; a name that is taken or empty changes nothing. This is once
  discovery is over.
\<close>

theorem registered_is_found:
  assumes "reg_discovered s" and "register n f rep s = (r, s')"
  shows "(if r = Inr () then (canonical_name m = canonical_name n \<longrightarrow> find_factory eps m s' = (Inr f, s')) \<and>
      (canonical_name m \<noteq> canonical_name n \<longrightarrow> get_name m s' = get_name m s)
    else s' = s \<and> (canonical_name n = [] \<or> get_name n s \<noteq> None \<and> \<not> rep))"
proof (cases "r = Inr ()")
  case True
  with assms(2) have s': "s' = put_name n f s" by (auto simp: register_result split: if_splits)
  with assms(1) have "reg_discovered s'" by (simp add: put_name_def)
  from find_again [OF this, where n = m and eps = eps] names.get_put [of n m f s] names.get_other [of n m f s] True s'
  show ?thesis by auto
next
  case False
  with assms(2) show ?thesis by (auto simp: register_result split: if_splits)
qed

lemma registered_is_found_witness:
  "let s = builtin_registry\<lparr>reg_discovered := True\<rparr>; s' = put_name '' Mine '' (ExternalBackend ''x'') s in
   (canonical_name ''mine'' = canonical_name '' Mine '' \<longrightarrow> find_factory [] ''mine'' s' = (Inr (ExternalBackend ''x''), s')) \<and>
   (canonical_name ''mine'' \<noteq> canonical_name '' Mine '' \<longrightarrow> get_name ''mine'' s' = get_name ''mine'' s)"
proof -
  let ?s = "builtin_registry\<lparr>reg_discovered := True\<rparr>"
  have "register '' Mine '' (ExternalBackend ''x'') False ?s = (Inr (), put_name '' Mine '' (ExternalBackend ''x'') ?s)"
    by code_simp
  from registered_is_found [OF _ this, of "''mine''" "[]"] show ?thesis by (simp add: Let_def)
qed

text \<open>The error of an entry point is raised once, and the entry points after it are never loaded.\<close>

lemma discovery_stops_at_error:
  "let eps = [(''docker'', Inr (ExternalBackend ''a'')), (''other'', Inr (ExternalBackend ''b''))];
       (r1, s1) = find_factory eps ''docker'' builtin_registry; (r2, s2) = find_factory eps ''docker'' s1;
       (r3, s3) = find_factory eps ''other'' s2
   in (case r1 of Inl e \<Rightarrow> exn_class e = ValueError | Inr _ \<Rightarrow> False) \<and> r2 = Inr (DockerBackend None) \<and>
      (case r3 of Inl e \<Rightarrow> exn_class e = ValueError | Inr _ \<Rightarrow> False)"
  by code_simp

end
