(* ===== verification/Reaper.thy ===== *)
theory Reaper
  imports Docker Egress_Proxy
begin

text \<open>
  \<open>src/agentnest/reaper.py\<close>: removing the managed containers and networks that are past the deadline in
  their labels. What the daemon lists under the filter is \<open>dk_containers\<close> and \<open>dk_networks\<close> of the
  listing call.
\<close>

section \<open>Reading a number\<close>

text \<open>\<open>float(s)\<close>, exactly: a decimal number, or one of the special values.\<close>

datatype number = Finite rat | Infinite bool | NotANumber

definition digits_or_none :: "str \<Rightarrow> bool" where
  "digits_or_none s = (s = [] \<or> digit_groups s)"

definition exponent_value :: "str \<Rightarrow> int option" where
  "exponent_value s = (case s of
       [] \<Rightarrow> None
     | c # cs \<Rightarrow> if c = CHR ''-'' then (if digit_groups cs then Some (- int (digits_value (filter is_digit cs))) else None)
         else if c = CHR ''+'' then (if digit_groups cs then Some (int (digits_value (filter is_digit cs))) else None)
         else if digit_groups s then Some (int (digits_value (filter is_digit s))) else None)"

definition unsigned_float :: "str \<Rightarrow> number option" where
  "unsigned_float s =
     (if lower s = ''inf'' \<or> lower s = ''infinity'' then Some (Infinite False)
      else if lower s = ''nan'' then Some NotANumber
      else let is_e = (\<lambda>c. c = CHR ''e'' \<or> c = CHR ''E'');
          mantissa = takeWhile (\<lambda>c. \<not> is_e c) s; rest = dropWhile (\<lambda>c. \<not> is_e c) s;
          whole = takeWhile (\<lambda>c. c \<noteq> dot) mantissa; decimals = drop 1 (dropWhile (\<lambda>c. c \<noteq> dot) mantissa);
          ds = filter is_digit decimals;
          scale = (if rest = [] then Some 0 else exponent_value (drop 1 rest))
        in if (whole \<noteq> [] \<or> decimals \<noteq> []) \<and> digits_or_none whole \<and> digits_or_none decimals
           then map_option (\<lambda>e. Finite (of_nat (digits_value (filter is_digit whole @ ds)) *
             pow10 (e - int (length ds)))) scale
           else None)"

definition py_float :: "str \<Rightarrow> number option" where
  "py_float s = (case strip s of
       [] \<Rightarrow> None
     | c # cs \<Rightarrow> if c = CHR ''-'' then map_option (\<lambda>x. case x of
             Finite r \<Rightarrow> Finite (- r) | Infinite b \<Rightarrow> Infinite (\<not> b) | NotANumber \<Rightarrow> NotANumber) (unsigned_float cs)
         else if c = CHR ''+'' then unsigned_float cs else unsigned_float (c # cs))"

section \<open>Deadlines\<close>

definition default_grace :: rat where
  "default_grace = 60"

definition expired :: "(str, str) dict \<Rightarrow> rat \<Rightarrow> rat \<Rightarrow> bool" where
  "expired labels now grace = (case map_of labels ''agentnest.deadline'' of
       None \<Rightarrow> False
     | Some raw \<Rightarrow> (case py_float raw of
         Some (Finite d) \<Rightarrow> now \<ge> d + grace
       | Some (Infinite negative) \<Rightarrow> negative
       | Some NotANumber \<Rightarrow> False
       | None \<Rightarrow> False))"

record prune_report =
  pr_containers :: "str list"
  pr_networks :: "str list"

definition total :: "prune_report \<Rightarrow> nat" where
  "total r = length (pr_containers r) + length (pr_networks r)"

section \<open>Pruning\<close>

definition labels_of :: "listed \<Rightarrow> (str, str) dict" where
  "labels_of l = (case li_labels l of None \<Rightarrow> [] | Some d \<Rightarrow> d)"

definition due :: "bool \<Rightarrow> rat \<Rightarrow> rat \<Rightarrow> listed \<Rightarrow> bool" where
  "due force_all now grace l = (force_all \<or> expired (labels_of l) now grace)"

text \<open>\<open>with suppress(DockerException): \<dots>; report.append(name)\<close>.\<close>

definition reported :: "str \<Rightarrow> unit docker \<Rightarrow> str list docker" where
  "reported name m = try_except (next_do m (ret [name]))
     (\<lambda>e. if exn_isa e DockerException then ret [] else raise e)"

definition remove_network :: "docker_env \<Rightarrow> nat \<Rightarrow> unit docker" where
  "remove_network D n = bnd (sdk D (NetworkReload n)) (\<lambda>k.
     next_do (for_each (dk_attached D k) (\<lambda>c.
         suppressing (\<lambda>e. exn_isa e DockerException) (sdk_do D (NetworkDisconnect n c))))
       (sdk_remove D (NetworkRemove n) (Net n)))"

primrec prune_each :: "(listed \<Rightarrow> unit docker) \<Rightarrow> (listed \<Rightarrow> bool) \<Rightarrow> listed list \<Rightarrow> str list docker" where
  "prune_each remove p [] = ret []"
| "prune_each remove p (l # ls) =
     bnd (if p l then reported (li_name l) (remove l) else ret []) (\<lambda>x.
     bnd (prune_each remove p ls) (\<lambda>xs. ret (x @ xs)))"

definition prune :: "docker_env \<Rightarrow> bool \<Rightarrow> bool \<Rightarrow> rat \<Rightarrow> prune_report docker" where
  "prune D has_client force_all grace =
     next_do (when_do (\<not> has_client) (sdk_do D FromEnv))
     (bnd (draw (dk_time D)) (\<lambda>now.
      bnd (sdk D ContainerList) (\<lambda>n.
      bnd (prune_each (\<lambda>l. sdk_remove D (ContainerRemove (li_id l)) (Box (li_id l)))
          (due force_all now grace) (dk_containers D n)) (\<lambda>cs.
      bnd (sdk D NetworkList) (\<lambda>m.
      bnd (prune_each (\<lambda>l. remove_network D (li_id l)) (due force_all now grace) (dk_networks D m)) (\<lambda>ns.
      ret \<lparr>pr_containers = cs, pr_networks = ns\<rparr>))))))"

section \<open>The deadline of a runtime\<close>

lemma digit_char: "is_digit c \<Longrightarrow> c \<noteq> CHR ''_'' \<and> c \<noteq> CHR ''-'' \<and> c \<noteq> CHR ''+'' \<and> c \<noteq> dot \<and>
    c \<noteq> CHR ''e'' \<and> c \<noteq> CHR ''E'' \<and> \<not> is_space c \<and> lower_char c = c"
  by (auto simp: is_digit_def dot_def is_space_def lower_char_def)

lemma digit_groups_all: "s \<noteq> [] \<Longrightarrow> \<forall>c \<in> set s. is_digit c \<Longrightarrow> digit_groups s"
proof (induction s rule: digit_groups.induct)
  case (3 c d s)
  then have "d \<noteq> CHR ''_''" using digit_char by auto
  with 3 show ?case by simp
qed auto

end
