(* ===== verification/Reaper_Properties.thy ===== *)
theory Reaper_Properties
  imports Reaper Docker_Properties
begin

text \<open>
  What \<open>prune\<close> removes: only what is past its deadline, everything that is when the daemon answers, and
  never a sandbox that is within its lifetime.
\<close>

section \<open>Deadlines\<close>

lemma strip_digits: "\<forall>c \<in> set s. \<not> is_space c \<Longrightarrow> strip s = s"
proof (cases s)
  case (Cons c cs)
  assume all: "\<forall>c \<in> set s. \<not> is_space c"
  with Cons have "dropWhile is_space s = s" by simp
  moreover have "\<not> is_space (last s)" using all Cons last_in_set by blast
  ultimately show ?thesis by (simp add: strip_def lstrip_by_def rstrip_by_id)
qed (simp add: strip_def lstrip_by_def)

lemma unsigned_float_digits:
  assumes "s \<noteq> []" and all: "\<forall>c \<in> set s. is_digit c"
  shows "unsigned_float s = Some (Finite (of_nat (digits_value s)))"
proof -
  have chars: "c \<noteq> dot" "c \<noteq> CHR ''e'' \<and> c \<noteq> CHR ''E''" "lower_char c = c" if "c \<in> set s" for c
    using digit_char [of c] all that by auto
  then have low: "lower s = s" unfolding lower_def by (simp add: map_idI)
  have "hd s \<in> set s" using assms(1) by simp
  then have "is_digit (hd s)" using all by blast
  then have special: "s \<noteq> ''inf'' \<and> s \<noteq> ''infinity'' \<and> s \<noteq> ''nan''" by (auto simp: is_digit_def)
  have m: "takeWhile (\<lambda>c. c \<noteq> CHR ''e'' \<and> c \<noteq> CHR ''E'') s = s"
    "dropWhile (\<lambda>c. c \<noteq> CHR ''e'' \<and> c \<noteq> CHR ''E'') s = []"
    "takeWhile (\<lambda>c. c \<noteq> dot) s = s" "dropWhile (\<lambda>c. c \<noteq> dot) s = []"
    using chars by (auto simp only: takeWhile_eq_all_conv dropWhile_eq_Nil_conv)
  have "filter is_digit s = s" using all by simp
  with low special assms(1) digit_groups_all [OF assms] show ?thesis
    unfolding unsigned_float_def Let_def by (simp add: m digits_or_none_def pow10_def del: One_nat_def)
qed

lemma py_float_digits: "s \<noteq> [] \<Longrightarrow> \<forall>c \<in> set s. is_digit c \<Longrightarrow>
    py_float s = Some (Finite (of_nat (digits_value s))) \<and>
    py_float (CHR ''-'' # s) = Some (Finite (- of_nat (digits_value s)))"
proof -
  assume s: "s \<noteq> []" "\<forall>c \<in> set s. is_digit c"
  have "\<forall>c \<in> set s. \<not> is_space c" using s digit_char by blast
  then have "strip s = s" "strip (CHR ''-'' # s) = CHR ''-'' # s"
    by (auto intro!: strip_digits simp: is_space_def)
  moreover obtain c cs where c: "s = c # cs" using s(1) by (cases s) auto
  moreover have "c \<noteq> CHR ''-''" "c \<noteq> CHR ''+''" using s digit_char [of c] c by auto
  ultimately show ?thesis
    using unsigned_float_digits [OF s] by (simp add: py_float_def)
qed

text \<open>The deadline that was written is the one that is read.\<close>

lemma py_float_fmt: "py_float (fmt_0f x) = Some (Finite (of_int (round_half_even x)))"
proof -
  have d: "py_float (nat_digits n) = Some (Finite (of_nat n))"
    "py_float (CHR ''-'' # nat_digits n) = Some (Finite (- of_nat n))" for n
    using py_float_digits [OF nat_digits_nonempty nat_digits_all] by simp_all
  have "''-0'' = CHR ''-'' # nat_digits 0" by code_simp
  then show ?thesis
    unfolding fmt_0f_def Let_def int_text_def using d [of 0] by (simp add: d of_nat_nat)
qed

text \<open>
  C37. A managed container or network that belongs to a sandbox created at \<open>t\<close> is reaped exactly from its
  deadline plus the grace on, so never before its lifetime and the grace are over (but for the half
  second that the deadline is rounded by), whatever other labels were added.
\<close>

theorem reaped_after_lifetime:
  assumes "map_of labels ''agentnest.deadline'' = map_of (container_labels t cfg) ''agentnest.deadline''"
  shows "expired labels now g = (now \<ge> of_int (round_half_even (t + lifetime cfg)) + g) \<and>
    (expired labels now g \<longrightarrow> now \<ge> t + lifetime cfg + g - 1 / 2) \<and>
    (now \<ge> t + lifetime cfg + g + 1 / 2 \<longrightarrow> expired labels now g)"
proof -
  have *: "expired labels now g = (now \<ge> of_int (round_half_even (t + lifetime cfg)) + g)"
    using assms by (simp add: expired_def container_labels_def py_float_fmt)
  have "of_int (round_half_even (t + lifetime cfg)) \<le> t + lifetime cfg + 1 / 2"
    "t + lifetime cfg - 1 / 2 \<le> of_int (round_half_even (t + lifetime cfg))"
    using round_half_even_near [of "t + lifetime cfg"] by (simp_all only: abs_le_iff) linarith+
  with * show ?thesis by linarith
qed

lemma reaped_after_lifetime_witness:
  "let l = egress_labels (container_labels 1000 demo_config) ''abc'' in
    (expired l 1359 default_grace = (1359 \<ge> of_int (round_half_even (1000 + lifetime demo_config)) + default_grace)) \<and>
    \<not> expired l 1359 default_grace \<and> expired l 1361 default_grace"
proof -
  let ?l = "egress_labels (container_labels 1000 demo_config) ''abc''"
  have l: "map_of ?l ''agentnest.deadline'' = map_of (container_labels 1000 demo_config) ''agentnest.deadline''"
    by (simp add: egress_labels_def)
  have "round_half_even (1300 :: rat) = 1300" using round_half_even_int [of 1300] by simp
  then show ?thesis
    using reaped_after_lifetime [OF l, of 1359 default_grace] reaped_after_lifetime [OF l, of 1361 default_grace]
    by (simp add: Let_def demo_config_def default_grace_def)
qed

section \<open>Removals\<close>

text \<open>What a call may remove, given the calls before it: an object of the daemon's answer that is due.\<close>

definition on_list :: "dcall list \<Rightarrow> dcall \<Rightarrow> (nat \<Rightarrow> listed list) \<Rightarrow> (listed \<Rightarrow> bool) \<Rightarrow> nat \<Rightarrow> bool" where
  "on_list cs listing answer p i =
     (\<exists>n < length cs. cs ! n = listing \<and> (\<exists>l \<in> set (answer n). li_id l = i \<and> p l))"

fun lawful :: "docker_env \<Rightarrow> (listed \<Rightarrow> bool) \<Rightarrow> dcall list \<Rightarrow> dcall \<Rightarrow> bool" where
  "lawful D p cs (ContainerRemove i) = on_list cs ContainerList (dk_containers D) p i"
| "lawful D p cs (NetworkReload i) = on_list cs NetworkList (dk_networks D) p i"
| "lawful D p cs (NetworkDisconnect i _) = on_list cs NetworkList (dk_networks D) p i"
| "lawful D p cs (NetworkRemove i) = on_list cs NetworkList (dk_networks D) p i"
| "lawful D p cs c = (c \<in> {FromEnv, ContainerList, NetworkList})"

definition lawful_since :: "docker_env \<Rightarrow> (listed \<Rightarrow> bool) \<Rightarrow> docker_world \<Rightarrow> docker_world \<Rightarrow> bool" where
  "lawful_since D p w0 w \<longleftrightarrow> (\<exists>cs. dcalls w = dcalls w0 @ cs \<and> (\<forall>c \<in> set cs. lawful D p (dcalls w) c))"

lemma on_list_more: "on_list cs a f p i \<Longrightarrow> on_list (cs @ ds) a f p i"
  unfolding on_list_def by (force simp: nth_append)

lemma lawful_more: "lawful D p cs c \<Longrightarrow> lawful D p (cs @ ds) c"
  by (cases c) (auto intro: on_list_more)

text \<open>Once a listing has been answered it stays on the record.\<close>

abbreviation heard :: "docker_env \<Rightarrow> (listed \<Rightarrow> bool) \<Rightarrow> docker_world \<Rightarrow> (nat \<times> dcall) set \<Rightarrow> docker_world \<Rightarrow> bool" where
  "heard D p w0 L w \<equiv> lawful_since D p w0 w \<and> (\<forall>(n, c) \<in> L. n < length (dcalls w) \<and> dcalls w ! n = c)"

lemma keeps_sdk_lawful:
  assumes "\<And>w. heard D p w0 L w \<Longrightarrow> lawful D p (dcalls w) c"
  shows "keeps (heard D p w0 L) (sdk D c)"
proof (rule keepsI)
  fix w r w' assume w: "heard D p w0 L w" and run: "sdk D c w = (r, w')"
  then have w': "dcalls w' = dcalls w @ [c]" by (auto simp: sdk_def Let_def split: option.splits)
  from w obtain cs where cs: "dcalls w = dcalls w0 @ cs" "\<forall>c \<in> set cs. lawful D p (dcalls w) c"
    by (auto simp: lawful_since_def)
  then have "dcalls w' = dcalls w0 @ (cs @ [c]) \<and> (\<forall>x \<in> set (cs @ [c]). lawful D p (dcalls w') x)"
    using assms [OF w] lawful_more [of D p "dcalls w" _ "[c]"] unfolding w' by simp
  then have "lawful_since D p w0 w'" unfolding lawful_since_def by blast
  with w show "heard D p w0 L w'" by (auto simp: w' nth_append)
qed

lemma keeps_sdk_do_lawful:
  "(\<And>w. heard D p w0 L w \<Longrightarrow> lawful D p (dcalls w) c) \<Longrightarrow> keeps (heard D p w0 L) (sdk_do D c)"
  unfolding sdk_do_def by (intro keeps_bnd keeps_sdk_lawful) auto

lemma keeps_disown: "keeps (heard D p w0 L) (disown r)"
  unfolding disown_def by (auto intro!: keeps_modify simp: lawful_since_def)

lemma keeps_remove_lawful:
  "(\<And>w. heard D p w0 L w \<Longrightarrow> lawful D p (dcalls w) c) \<Longrightarrow> keeps (heard D p w0 L) (sdk_remove D c r)"
  unfolding sdk_remove_def by (intro keeps_next_do keeps_sdk_do_lawful keeps_disown) auto

lemma keeps_reported: "keeps P m \<Longrightarrow> keeps P (reported x m)"
  unfolding reported_def by (intro keeps_try_except keeps_next_do) auto

lemma keeps_prune_each: "(\<And>l. l \<in> set ls \<Longrightarrow> p l \<Longrightarrow> keeps P (f l)) \<Longrightarrow> keeps P (prune_each f p ls)"
  by (induction ls) (auto intro!: keeps_bnd keeps_reported)

lemma listing_heard:
  assumes "c \<in> {ContainerList, NetworkList}"
  shows "triple (heard D p w0 L) (sdk D c) (\<lambda>n. heard D p w0 (insert (n, c) L)) (\<lambda>_. heard D p w0 L)"
  unfolding triple_def
proof (intro allI impI)
  fix w assume w: "heard D p w0 L w"
  have "keeps (heard D p w0 L) (sdk D c)"
    by (rule keeps_sdk_lawful) (use assms in auto)
  from keepsD [OF this w]
  have "heard D p w0 L (snd (sdk D c w))" by (metis prod.collapse)
  then show "case sdk D c w of (Inl e, t) \<Rightarrow> heard D p w0 L t | (Inr n, t) \<Rightarrow> heard D p w0 (insert (n, c) L) t"
    by (auto simp: sdk_def Let_def split: option.splits)
qed

lemma keeps_remove_network:
  assumes "\<And>w. heard D p w0 L w \<Longrightarrow> on_list (dcalls w) NetworkList (dk_networks D) p i"
  shows "keeps (heard D p w0 L) (remove_network D i)"
  unfolding remove_network_def
  by (intro keeps_bnd keeps_next_do keeps_for_each keeps_suppressing keeps_sdk_lawful keeps_sdk_do_lawful
      keeps_remove_lawful; simp add: assms)

lemma prune_lawful:
  "triple (\<lambda>w. w = w0) (prune D hc force g)
    (\<lambda>_. lawful_since D (due force (dk_time D (draws w0)) g) w0)
    (\<lambda>_. lawful_since D (due force (dk_time D (draws w0)) g) w0)"
proof -
  let ?p = "due force (dk_time D (draws w0)) g"
  let ?h = "heard D ?p w0"
  let ?start = "\<lambda>w. ?h {} w \<and> draws w = draws w0"
  have env: "triple (\<lambda>w. w = w0) (when_do (\<not> hc) (sdk_do D FromEnv)) (\<lambda>_. ?start) (\<lambda>_. ?h {})"
    by (auto simp: triple_def when_do_def sdk_do_def sdk_def Let_def comp_defs lawful_since_def split: option.split)
  have time: "triple ?start (draw (dk_time D)) (\<lambda>now w. now = dk_time D (draws w0) \<and> ?h {} w) (\<lambda>_. ?h {})"
    by (auto simp: triple_def draw_def lawful_since_def)
  have boxes: "keeps (?h {(n, ContainerList)})
      (prune_each (\<lambda>l. sdk_remove D (ContainerRemove (li_id l)) (Box (li_id l))) ?p (dk_containers D n))" for n
    by (intro keeps_prune_each keeps_remove_lawful) (auto simp: on_list_def)
  have nets: "keeps (?h {(m, NetworkList), (n, ContainerList)})
      (prune_each (\<lambda>l. remove_network D (li_id l)) ?p (dk_networks D m))" for m n
    by (intro keeps_prune_each keeps_remove_network) (auto simp: on_list_def)
  have drop: "triple P m Q (\<lambda>_. ?h L) \<Longrightarrow> triple P m Q (\<lambda>_. lawful_since D ?p w0)"
    for P L and m :: "'a docker" and Q
    by (erule triple_conseq) auto
  have drop': "keeps (?h L) m \<Longrightarrow> triple (?h L) m (\<lambda>_. ?h L) (\<lambda>_. lawful_since D ?p w0)"
    for L and m :: "str list docker"
    unfolding keeps_def by (rule drop)
  have listing: "c \<in> {ContainerList, NetworkList} \<Longrightarrow>
      triple (?h L) (sdk D c) (\<lambda>n. ?h (insert (n, c) L)) (\<lambda>_. lawful_since D ?p w0)" for c L
    by (erule triple_conseq [OF listing_heard]) auto
  have rest: "triple (?h {}) (bnd (sdk D ContainerList) (\<lambda>n.
      bnd (prune_each (\<lambda>l. sdk_remove D (ContainerRemove (li_id l)) (Box (li_id l))) ?p (dk_containers D n)) (\<lambda>cs.
      bnd (sdk D NetworkList) (\<lambda>m.
      bnd (prune_each (\<lambda>l. remove_network D (li_id l)) ?p (dk_networks D m)) (\<lambda>ns.
      ret \<lparr>pr_containers = cs, pr_networks = ns\<rparr>)))))
      (\<lambda>_. lawful_since D ?p w0) (\<lambda>_. lawful_since D ?p w0)"
    by (rule triple_bnd [OF listing] triple_bnd [OF drop' [OF boxes]] triple_bnd [OF drop' [OF nets]] triple_ret | simp)+
  show ?thesis
    unfolding prune_def next_do_def
    apply (rule triple_bnd [OF drop [OF env]])
    apply (rule triple_bnd [OF drop [OF time]])
    apply (rule triple_pure)
    apply (simp only:)
    apply (rule rest)
    done
qed

text \<open>
  C36. Whatever fails, and whatever else runs on the daemon, pruning removes nothing but containers and
  networks that the daemon listed under the label filter and that were due at the time it started.
\<close>

theorem prune_only_due:
  assumes "prune D hc force g w = (r, w')"
  shows "lawful_since D (due force (dk_time D (draws w)) g) w w'"
  using tripleD [OF prune_lawful refl assms] by (simp split: sum.splits)

definition littered :: docker_env where
  "littered = demo_env\<lparr>dk_time := \<lambda>_. 2000,
     dk_containers := \<lambda>_. [\<lparr>li_id = 70, li_name = ''old'', li_labels = Some (container_labels 1000 demo_config)\<rparr>,
       \<lparr>li_id = 71, li_name = ''young'', li_labels = Some (container_labels 1900 demo_config)\<rparr>,
       \<lparr>li_id = 72, li_name = ''bare'', li_labels = None\<rparr>],
     dk_networks := \<lambda>_. [\<lparr>li_id = 80, li_name = ''net'', li_labels = Some [(''agentnest.deadline'', '' 1.5e3 '')]\<rparr>],
     dk_attached := \<lambda>_. [70]\<rparr>"

lemma prune_only_due_witness:
  "lawful_since littered (due False 2000 default_grace) demo_world (snd (prune littered True False default_grace demo_world))"
  using prune_only_due [OF prod.collapse [symmetric], where D = littered and hc = True and force = False
      and g = default_grace and w = demo_world]
  by (simp add: littered_def)

lemma littered_pruned:
  "fst (prune littered True False default_grace demo_world) =
    Inr \<lparr>pr_containers = [''old''], pr_networks = [''net'']\<rparr>"
  by code_simp

section \<open>A daemon that answers\<close>

abbreviation did :: "dcall set \<Rightarrow> resource set \<Rightarrow> docker_world \<Rightarrow> bool" where
  "did A B w \<equiv> A \<subseteq> set (dcalls w) \<and> set (owned w) \<inter> B = {}"

abbreviation answered :: "docker_env \<Rightarrow> bool" where
  "answered D \<equiv> \<forall>n c. dk_fault D n c = None"

lemma did_sdk: "answered D \<Longrightarrow> triple (did A B) (sdk D c) (\<lambda>_. did (insert c A) B) (\<lambda>_ _. False)"
  by (auto simp: triple_def sdk_def Let_def)

lemma did_sdk_do: "answered D \<Longrightarrow> sure (did A B) (sdk_do D c) (did (insert c A) B)"
  unfolding sdk_do_def by (rule triple_bnd [OF did_sdk]) (auto intro: triple_ret)

lemma did_remove: "answered D \<Longrightarrow> sure (did A B) (sdk_remove D c r) (did (insert c A) (insert r B))"
  unfolding sdk_remove_def
  by (rule sure_next [OF did_sdk_do]) (auto simp: triple_def disown_def modify_def)

lemma did_remove_network:
  assumes D: "answered D"
  shows "sure (did A B) (remove_network D i) (did (insert (NetworkRemove i) A) (insert (Net i) B))"
proof -
  have 1: "sure (did A B) (sdk_do D c) (did A B)" for c A B
    by (rule triple_conseq [OF did_sdk_do [OF D]]) auto
  show ?thesis
    unfolding remove_network_def
    by (rule triple_bnd [OF did_sdk [OF D]], rule sure_next [OF sure_for_each [OF sure_suppressing [OF 1]]])
      (rule triple_conseq [OF did_remove [OF D]], auto)
qed

lemma did_prune_each:
  assumes "\<And>l A B. sure (did A B) (f l) (did (insert (c l) A) (insert (r l) B))"
  shows "triple (did A B) (prune_each f p ls)
    (\<lambda>x w. x = map li_name (filter p ls) \<and> did (A \<union> c ` set (filter p ls)) (B \<union> r ` set (filter p ls)) w) (\<lambda>_ _. False)"
proof (induction ls arbitrary: A B)
  case (Cons l ls)
  let ?A = "if p l then insert (c l) A else A" and ?B = "if p l then insert (r l) B else B"
  have rep: "triple (did A B) (reported (li_name l) (f l))
      (\<lambda>x w. x = [li_name l] \<and> did (insert (c l) A) (insert (r l) B) w) (\<lambda>_ _. False)"
    unfolding reported_def
    by (rule triple_try_except [where E = "\<lambda>_ _. False"], unfold next_do_def, rule triple_bnd [OF assms], rule triple_ret)
      (auto simp: triple_def)
  have one: "triple (did A B) (if p l then reported (li_name l) (f l) else ret [])
      (\<lambda>x w. x = (if p l then [li_name l] else []) \<and> did ?A ?B w) (\<lambda>_ _. False)"
    using rep by (auto intro: triple_ret)
  show ?case
    by (unfold prune_each.simps, rule triple_bnd [OF one], rule triple_pure, rule triple_bnd [OF Cons.IH], rule triple_pure, rule triple_ret)
      (auto split: if_splits)
qed (auto intro: triple_ret)

lemma prune_sure:
  assumes D: "answered D" and p: "p = due force (dk_time D (draws w)) g"
  shows "triple (\<lambda>x. x = w) (prune D hc force g) (\<lambda>r w'. \<exists>n m.
      r = \<lparr>pr_containers = map li_name (filter p (dk_containers D n)), pr_networks = map li_name (filter p (dk_networks D m))\<rparr> \<and>
      did (ContainerRemove ` li_id ` set (filter p (dk_containers D n)) \<union> NetworkRemove ` li_id ` set (filter p (dk_networks D m)))
        (Box ` li_id ` set (filter p (dk_containers D n)) \<union> Net ` li_id ` set (filter p (dk_networks D m))) w') (\<lambda>_ _. False)"
proof -
  have env: "triple (\<lambda>x. x = w) (when_do (\<not> hc) (sdk_do D FromEnv)) (\<lambda>_ x. draws x = draws w) (\<lambda>_ _. False)"
    using D by (auto simp: triple_def when_do_def sdk_do_def sdk_def Let_def comp_defs)
  have time: "triple (\<lambda>x. draws x = draws w) (draw (dk_time D)) (\<lambda>now x. now = dk_time D (draws w) \<and> did {} {} x) (\<lambda>_ _. False)"
    by (auto simp: triple_def draw_def)
  have boxes: "triple (did A B) (prune_each (\<lambda>l. sdk_remove D (ContainerRemove (li_id l)) (Box (li_id l))) p ls)
      (\<lambda>x s. x = map li_name (filter p ls) \<and> did (A \<union> (\<lambda>l. ContainerRemove (li_id l)) ` set (filter p ls))
        (B \<union> (\<lambda>l. Box (li_id l)) ` set (filter p ls)) s) (\<lambda>_ _. False)" for A B ls
    by (rule did_prune_each [OF did_remove [OF D]])
  have nets: "triple (did A B) (prune_each (\<lambda>l. remove_network D (li_id l)) p ls)
      (\<lambda>x s. x = map li_name (filter p ls) \<and> did (A \<union> (\<lambda>l. NetworkRemove (li_id l)) ` set (filter p ls))
        (B \<union> (\<lambda>l. Net (li_id l)) ` set (filter p ls)) s) (\<lambda>_ _. False)" for A B ls
    by (rule did_prune_each [OF did_remove_network [OF D]])
  show ?thesis
    unfolding prune_def next_do_def
    apply (rule triple_bnd [OF env])
    apply (rule triple_bnd [OF time])
    apply (rule triple_pure)
    apply (simp only: p [symmetric])
    apply (rule triple_bnd [OF did_sdk [OF D]])
    apply (rule triple_bnd [OF boxes])
    apply (rule triple_pure)
    apply (rule triple_bnd [OF did_sdk [OF D]])
    apply (rule triple_bnd [OF nets])
    apply (rule triple_pure)
    apply (rule triple_ret)
    apply (elim conjE, simp only: image_image)
    apply ((rule exI conjI refl)+; blast)
    done
qed

text \<open>
  When the daemon answers, pruning reports the names of exactly the listed containers and networks that are due, in the order
  of the listings, has asked for the removal of each of them, and none of them is left.
\<close>

theorem prune_removes_all_due:
  assumes "\<forall>n c. dk_fault D n c = None"
  shows "\<exists>n m w'. let p = due force (dk_time D (draws w)) g; cs = filter p (dk_containers D n); ns = filter p (dk_networks D m) in
    prune D hc force g w = (Inr \<lparr>pr_containers = map li_name cs, pr_networks = map li_name ns\<rparr>, w') \<and>
    ContainerRemove ` li_id ` set cs \<union> NetworkRemove ` li_id ` set ns \<subseteq> set (dcalls w') \<and>
    set (owned w') \<inter> (Box ` li_id ` set cs \<union> Net ` li_id ` set ns) = {}"
proof -
  obtain r w' where run: "prune D hc force g w = (r, w')" by (cases "prune D hc force g w")
  from tripleD [OF prune_sure [OF assms refl] refl run] run
  show ?thesis unfolding Let_def by (auto split: sum.splits)
qed

lemma prune_removes_all_due_witness:
  "\<exists>n m w'. let p = due False 2000 default_grace; cs = filter p (dk_containers littered n); ns = filter p (dk_networks littered m) in
    prune littered True False default_grace demo_world = (Inr \<lparr>pr_containers = map li_name cs, pr_networks = map li_name ns\<rparr>, w') \<and>
    ContainerRemove ` li_id ` set cs \<union> NetworkRemove ` li_id ` set ns \<subseteq> set (dcalls w') \<and>
    set (owned w') \<inter> (Box ` li_id ` set cs \<union> Net ` li_id ` set ns) = {}"
  using prune_removes_all_due [of littered False demo_world default_grace True]
  by (simp add: littered_def demo_env_def)

end
