(* ===== verification/Shell.thy ===== *)
theory Shell
  imports Errors
begin

text \<open>
  Quoting for \<open>sh\<close>: \<open>_shell_quote\<close> of \<open>src/agentnest/runtime/kubernetes.py\<close>, \<open>shlex.quote\<close> of the
  standard library, and how a POSIX shell reads a command line back into words. The reader covers
  blanks, both kinds of quotes and \<open>&&\<close>; it gives \<open>None\<close> for every character that a shell would do
  something else with, so that \<open>Some\<close> words are the words of the command and nothing else happens.
\<close>

section \<open>Quoting\<close>

definition single_quote :: char where
  "single_quote = CHR 0x27"

definition double_quote :: char where
  "double_quote = CHR 0x22"

definition shell_quote :: "str \<Rightarrow> str" where
  "shell_quote v = [single_quote] @ replace_text [single_quote]
     [single_quote, double_quote, single_quote, double_quote, single_quote] v @ [single_quote]"

text \<open>The characters that \<open>shlex\<close> leaves alone.\<close>

definition shlex_safe :: "char \<Rightarrow> bool" where
  "shlex_safe c = (let n = code c in (48 \<le> n \<and> n \<le> 57) \<or> (65 \<le> n \<and> n \<le> 90) \<or> (97 \<le> n \<and> n \<le> 122) \<or>
     c \<in> set ''_@%+=:,./-'')"

definition shlex_quote :: "str \<Rightarrow> str" where
  "shlex_quote v = (if v = [] then [single_quote, single_quote]
     else if list_all shlex_safe v then v else shell_quote v)"

section \<open>Reading a command line\<close>

datatype sh_token = Word str | AndIf

datatype sh_state = Between | InWord str | InSingle str | InDouble str | Ampersand

definition in_double :: "char \<Rightarrow> bool" where
  "in_double c = (c \<notin> {CHR ''$'', CHR 0x60, CHR 0x5C})"

fun sh_word :: "sh_state \<Rightarrow> str" where
  "sh_word (InWord w) = w" | "sh_word (InSingle w) = w" | "sh_word (InDouble w) = w" | "sh_word _ = []"

fun sh_end :: "sh_state \<Rightarrow> sh_token list option" where
  "sh_end Between = Some []"
| "sh_end (InWord w) = Some [Word w]"
| "sh_end _ = None"

text \<open>One character outside quotes: the words it completes, and the next state.\<close>

definition sh_outside :: "sh_state \<Rightarrow> char \<Rightarrow> (sh_token list \<times> sh_state) option" where
  "sh_outside s c = (let done_word = (case s of InWord w \<Rightarrow> [Word w] | _ \<Rightarrow> []) in
     if c = CHR '' '' then Some (done_word, Between)
     else if c = single_quote then Some ([], InSingle (sh_word s))
     else if c = double_quote then Some ([], InDouble (sh_word s))
     else if c = CHR ''&'' then Some (done_word, Ampersand)
     else if shlex_safe c then Some ([], InWord (sh_word s @ [c])) else None)"

fun sh_step :: "sh_state \<Rightarrow> char \<Rightarrow> (sh_token list \<times> sh_state) option" where
  "sh_step (InSingle w) c = Some ([], if c = single_quote then InWord w else InSingle (w @ [c]))"
| "sh_step (InDouble w) c = (if c = double_quote then Some ([], InWord w)
     else if in_double c then Some ([], InDouble (w @ [c])) else None)"
| "sh_step Ampersand c = (if c = CHR ''&'' then Some ([AndIf], Between) else None)"
| "sh_step s c = sh_outside s c"

primrec sh_read :: "str \<Rightarrow> sh_state \<Rightarrow> sh_token list option" where
  "sh_read [] s = sh_end s"
| "sh_read (c # cs) s = (case sh_step s c of None \<Rightarrow> None
     | Some (ts, s') \<Rightarrow> map_option (\<lambda>us. ts @ us) (sh_read cs s'))"

definition sh_words :: "str \<Rightarrow> sh_token list option" where
  "sh_words s = sh_read s Between"

section \<open>Quoted words are read back\<close>

lemma prepend_simps [simp]: "map_option ((@) []) x = x" "map_option ((@) [a]) x = map_option ((#) a) x"
  by (cases x; simp)+

lemma replace_char: "replace_text [c] new s = concat (map (\<lambda>x. if x = c then new else [x]) s)"
proof (induction s)
  case (Cons x s)
  show ?case
  proof (cases "x = c")
    case True
    with Cons replace_text_hit [of "[c]" new s] show ?thesis by simp
  qed (simp add: Cons replace_text_miss)
qed simp

lemma quotes_differ [simp]: "single_quote \<noteq> double_quote" "double_quote \<noteq> single_quote"
  "single_quote \<noteq> CHR '' ''" "double_quote \<noteq> CHR '' ''" "in_double single_quote"
  by (simp_all add: single_quote_def double_quote_def in_double_def)

definition word_state :: "sh_state \<Rightarrow> bool" where
  "word_state s = (s = Between \<or> (\<exists>w. s = InWord w))"

lemma word_stateE:
  assumes "word_state s" obtains "s = Between" | w where "s = InWord w"
  using assms by (auto simp: word_state_def)

lemma word_state_simps [simp]: "word_state Between" "word_state (InWord w)"
  by (simp_all add: word_state_def)

lemma step_outside: "word_state s \<Longrightarrow> sh_step s c = sh_outside s c"
  by (erule word_stateE) simp_all

lemma read_quoted_body:
  "sh_read (replace_text [single_quote]
     [single_quote, double_quote, single_quote, double_quote, single_quote] v @ r) (InSingle w) =
   sh_read r (InSingle (w @ v))"
  by (induction v arbitrary: w) (simp_all add: replace_char sh_outside_def)

lemma read_shell_quote: "word_state s \<Longrightarrow> sh_read (shell_quote v @ r) s = sh_read r (InWord (sh_word s @ v))"
  by (simp add: shell_quote_def step_outside sh_outside_def read_quoted_body)

lemma shlex_safe_chars: "shlex_safe c \<Longrightarrow> c \<noteq> CHR '' '' \<and> c \<noteq> single_quote \<and> c \<noteq> double_quote \<and> c \<noteq> CHR ''&''"
  by (auto simp: shlex_safe_def single_quote_def double_quote_def)

lemma read_safe: "list_all shlex_safe v \<Longrightarrow> sh_read (v @ r) (InWord w) = sh_read r (InWord (w @ v))"
  by (induction v arbitrary: w) (auto simp: sh_outside_def dest!: shlex_safe_chars)

lemma read_safe_word:
  "word_state s \<Longrightarrow> list_all shlex_safe v \<Longrightarrow> v \<noteq> [] \<Longrightarrow> sh_read (v @ r) s = sh_read r (InWord (sh_word s @ v))"
  by (cases v) (auto simp: step_outside sh_outside_def read_safe dest!: shlex_safe_chars)

text \<open>A text is a quotation of \<open>v\<close>: wherever it stands in a command line, it adds \<open>v\<close> to the word.\<close>

definition quotes :: "str \<Rightarrow> str \<Rightarrow> bool" where
  "quotes t v \<longleftrightarrow> (\<forall>s r. word_state s \<longrightarrow> sh_read (t @ r) s = sh_read r (InWord (sh_word s @ v)))"

lemma shell_quote_quotes [simp]: "quotes (shell_quote v) v"
  by (simp add: quotes_def read_shell_quote)

lemma shlex_quote_quotes [simp]: "quotes (shlex_quote v) v"
proof -
  have "quotes [single_quote, single_quote] []"
    by (simp add: quotes_def step_outside sh_outside_def)
  then show ?thesis
    by (auto simp: shlex_quote_def quotes_def read_safe_word read_shell_quote)
qed

lemma safe_quotes: "list_all shlex_safe v \<Longrightarrow> v \<noteq> [] \<Longrightarrow> quotes v v"
  by (simp add: quotes_def read_safe_word)

lemma quotes_append: "quotes t v \<Longrightarrow> quotes u x \<Longrightarrow> quotes (t @ u) (v @ x)"
  by (simp add: quotes_def)

text \<open>Quoted words with blanks between them.\<close>

lemma read_word_then:
  assumes "quotes t v"
  shows "sh_read (t @ CHR '' '' # r) Between = map_option ((#) (Word v)) (sh_read r Between)"
  using assms by (simp add: quotes_def sh_outside_def)

lemma read_last_word: "quotes t v \<Longrightarrow> sh_read t Between = Some [Word v]"
  using quotes_def [of t v] by (metis append.right_neutral append_Nil sh_end.simps(2) sh_read.simps(1) sh_word.simps(4)
      word_state_simps(1))

lemma read_words:
  "list_all2 quotes ts vs \<Longrightarrow> sh_read (join_with '' '' ts) Between = Some (map Word vs)"
proof (induction "'' ''" ts arbitrary: vs rule: join_with.induct)
  case (2 t)
  then show ?case by (auto simp: list_all2_Cons1 read_last_word)
next
  case (3 t u ts)
  then obtain v vs' where v: "vs = v # vs'" "quotes t v" "list_all2 quotes (u # ts) vs'"
    by (auto simp: list_all2_Cons1)
  with 3 show ?case by (simp add: read_word_then)
qed simp

lemma quoted_words: "(\<And>v. quotes (f v) v) \<Longrightarrow> sh_words (join_with '' '' (map f vs)) = Some (map Word vs)"
  unfolding sh_words_def by (rule read_words) (simp add: list_all2_conv_all_nth)

end
