(* ===== verification/Kubernetes.thy ===== *)
theory Kubernetes
  imports Backend Paths Shell Base64 Formatting
begin

text \<open>
  \<open>src/agentnest/runtime/kubernetes.py\<close>: one sandbox in a Pod with a NetworkPolicy. The state is the
  fields of the \<open>KubernetesRuntime\<close> object. The client library and the cluster are oracles: a call
  appends to the trace of calls, and the environment says, by the number of the call and the call,
  whether it raises and what it returns. The monotonic clock never goes back, and a sleep lasts at
  least its duration.
\<close>

section \<open>The cluster\<close>

text \<open>\<open>str(x)\<close> of a resource limit that is a number.\<close>

datatype quantity = QText str | QNumber rat

datatype volume = EmptyDir "str option" str

text \<open>The Pod that \<open>_pod_manifest\<close> describes, and the NetworkPolicy of \<open>_create_network_policy\<close>.\<close>

record pod_manifest =
  pm_name :: str
  pm_labels :: "(str, str) dict"
  pm_restart_policy :: str
  pm_service_account_token :: bool
  pm_runtime_class :: "str option"
  pm_run_as_non_root :: bool
  pm_seccomp :: str
  pm_image :: str
  pm_command :: "str list"
  pm_working_dir :: str
  pm_env :: environment
  pm_limits :: "(str, quantity) dict"
  pm_requests :: "(str, quantity) dict"
  pm_privilege_escalation :: bool
  pm_read_only_root :: bool
  pm_user :: int
  pm_group :: int
  pm_drop :: "str list"
  pm_mounts :: "(str, str) dict"
  pm_volumes :: "(str, volume) dict"

record policy_manifest =
  nm_name :: str
  nm_selector :: "(str, str) dict"
  nm_types :: "str list"
  nm_ingress :: "str list list"
  nm_egress :: "str list list"

datatype kcall =
    LoadInCluster | LoadKubeConfig "str option"
  | CreatePod str pod_manifest | CreatePolicy str policy_manifest | ReadPod str str
  | OpenExec str str "str list" | CloseExec nat | ReadPodLog str str
  | DeletePod str str | DeletePolicy str str

datatype cluster_object = PodObject str | PolicyObject str

text \<open>One round of the loop over an open connection: what \<open>peek\<close> and \<open>read\<close> give on each stream, or
  the exception that the round raises. The connection is closed after its rounds.\<close>

datatype exec_round = Round "str option" "str option" | Dropped exn

record kube_env =
  ke_installed :: bool
  ke_fault :: "nat \<Rightarrow> kcall \<Rightarrow> exn option"
  ke_phase :: "nat \<Rightarrow> str"
  ke_rounds :: "nat \<Rightarrow> exec_round list"
  ke_exit :: "nat \<Rightarrow> int option"
  ke_pod_log :: "nat \<Rightarrow> str"
  ke_lag :: "nat \<Rightarrow> rat"
  ke_uuid :: "nat \<Rightarrow> str"

record kube_world =
  kw_calls :: "kcall list"
  kw_objects :: "cluster_object list"
  kw_clock :: rat
  kw_draws :: nat

type_synonym 'a kube = "(exn, kube_world, 'a) comp"

definition kapi :: "kube_env \<Rightarrow> kcall \<Rightarrow> nat kube" where
  "kapi K c = (\<lambda>w.
     let n = length (kw_calls w); w' = w\<lparr>kw_calls := kw_calls w @ [c]\<rparr> in
     case ke_fault K n c of Some e \<Rightarrow> (Inl e, w') | None \<Rightarrow> (Inr n, w'))"

definition kapi_do :: "kube_env \<Rightarrow> kcall \<Rightarrow> unit kube" where
  "kapi_do K c = bnd (kapi K c) (\<lambda>_. ret ())"

definition kapi_make :: "kube_env \<Rightarrow> kcall \<Rightarrow> cluster_object \<Rightarrow> unit kube" where
  "kapi_make K c x = next_do (kapi_do K c) (modify (\<lambda>w. w\<lparr>kw_objects := x # kw_objects w\<rparr>))"

definition kapi_remove :: "kube_env \<Rightarrow> kcall \<Rightarrow> cluster_object \<Rightarrow> unit kube" where
  "kapi_remove K c x = next_do (kapi_do K c) (modify (\<lambda>w. w\<lparr>kw_objects := removeAll x (kw_objects w)\<rparr>))"

text \<open>\<open>time.monotonic()\<close> and \<open>time.sleep(s)\<close>: time passes between two readings of the clock.\<close>

definition pass_time :: "kube_env \<Rightarrow> rat \<Rightarrow> kube_world \<Rightarrow> kube_world" where
  "pass_time K s w = w\<lparr>kw_clock := kw_clock w + s + max 0 (ke_lag K (kw_draws w)), kw_draws := Suc (kw_draws w)\<rparr>"

definition monotonic_now :: "kube_env \<Rightarrow> rat kube" where
  "monotonic_now K = next_do (modify (pass_time K 0)) (gets kw_clock)"

definition sleep :: "kube_env \<Rightarrow> rat \<Rightarrow> unit kube" where
  "sleep K s = modify (pass_time K s)"

definition fresh_uuid :: "kube_env \<Rightarrow> str kube" where
  "fresh_uuid K = bnd (gets kw_draws) (\<lambda>n.
     next_do (modify (\<lambda>w. w\<lparr>kw_draws := Suc n\<rparr>)) (ret (ke_uuid K n)))"

section \<open>The runtime object\<close>

record kube_rt =
  kb_namespace :: str
  kb_context :: "str option"
  kb_runtime_class :: "str option"
  kb_pod :: "str option"
  kb_core :: bool
  kb_networking :: bool
  kb_config :: "sandbox_config option"
  kb_logs :: "str list"

type_synonym 'a kube_op = "(kube_rt, kube_world, 'a) runtime_op"

definition new_kube :: "str \<Rightarrow> str option \<Rightarrow> str option \<Rightarrow> kube_rt" where
  "new_kube namespace ctxt runtime_class =
     \<lparr>kb_namespace = namespace, kb_context = ctxt, kb_runtime_class = runtime_class, kb_pod = None,
      kb_core = False, kb_networking = False, kb_config = None, kb_logs = []\<rparr>"

definition kb_get :: "(kube_rt \<Rightarrow> 'a) \<Rightarrow> 'a kube_op" where
  "kb_get f = gets (f \<circ> fst)"

definition kb_set :: "(kube_rt \<Rightarrow> kube_rt) \<Rightarrow> unit kube_op" where
  "kb_set f = modify (\<lambda>(b, w). (f b, w))"

abbreviation kube_gone :: exn where
  "kube_gone \<equiv> Exn SandboxDestroyedError ''the Kubernetes sandbox has been destroyed''"

definition kube_id :: "str kube_op" where
  "kube_id = bnd (kb_get kb_pod) (\<lambda>p. case p of None \<Rightarrow> raise kube_gone | Some n \<Rightarrow> ret n)"

definition kube_config :: "sandbox_config kube_op" where
  "kube_config = bnd (kb_get kb_config) (\<lambda>c. case c of None \<Rightarrow> raise kube_gone | Some cfg \<Rightarrow> ret cfg)"

text \<open>A call in the namespace of the runtime.\<close>

definition in_namespace :: "(str \<Rightarrow> 'a kube) \<Rightarrow> 'a kube_op" where
  "in_namespace m = bnd (kb_get kb_namespace) (\<lambda>ns. on_snd (m ns))"

section \<open>Destroying\<close>

definition kube_destroy :: "kube_env \<Rightarrow> unit kube_op" where
  "kube_destroy K = bnd (kb_get id) (\<lambda>b.
     next_do (kb_set (\<lambda>b. b\<lparr>kb_pod := None, kb_config := None\<rparr>))
     (case kb_pod b of
        None \<Rightarrow> ret ()
      | Some pod \<Rightarrow> if \<not> kb_core b then ret ()
          else next_do (suppressing (\<lambda>e. exn_isa e PyException)
              (in_namespace (\<lambda>ns. kapi_remove K (DeletePod ns pod) (PodObject pod))))
            (when_do (kb_networking b) (suppressing (\<lambda>e. exn_isa e PyException)
              (in_namespace (\<lambda>ns. kapi_remove K (DeletePolicy ns pod) (PolicyObject pod)))))))"

section \<open>Creating\<close>

definition memory_quantity :: "memory_limit \<Rightarrow> quantity" where
  "memory_quantity m = (case m of MemText s \<Rightarrow> QText s | MemBytes n \<Rightarrow> QNumber (of_int n))"

definition pod_limits :: "resource_limits \<Rightarrow> (str, quantity) dict" where
  "pod_limits l = [(''memory'', memory_quantity (memory l)), (''cpu'', QNumber (cpus l))] @
     (if gpus l \<noteq> 0 then [(''nvidia.com/gpu'', QNumber (of_int (gpus l)))] else [])"

definition pod_manifest :: "str option \<Rightarrow> sandbox_config \<Rightarrow> str \<Rightarrow> pod_manifest" where
  "pod_manifest runtime_class cfg name =
     \<lparr>pm_name = name, pm_labels = [(''agentnest.managed'', ''true''), (''agentnest.id'', name)],
      pm_restart_policy = ''Never'', pm_service_account_token = False, pm_runtime_class = runtime_class,
      pm_run_as_non_root = True, pm_seccomp = ''RuntimeDefault'', pm_image = image_name cfg,
      pm_command = [''sh'', ''-c'', ''while :; do sleep 3600; done''], pm_working_dir = workdir cfg,
      pm_env = cfg_environment cfg, pm_limits = pod_limits (limits cfg), pm_requests = pod_limits (limits cfg),
      pm_privilege_escalation = False, pm_read_only_root = read_only_root cfg, pm_user = 65532, pm_group = 65532,
      pm_drop = [''ALL''], pm_mounts = [(''workspace'', ''/workspace''), (''tmp'', ''/tmp'')],
      pm_volumes = [(''workspace'', EmptyDir None ''2Gi''), (''tmp'', EmptyDir (Some ''Memory'') ''64Mi'')]\<rparr>"

definition egress_rules :: "network_policy \<Rightarrow> str list list" where
  "egress_rules p = (if np_mode p = ALLOWLIST then [np_cidrs p] else [])"

definition policy_manifest :: "network_policy \<Rightarrow> str \<Rightarrow> policy_manifest" where
  "policy_manifest p name =
     \<lparr>nm_name = name, nm_selector = [(''agentnest.id'', name)], nm_types = [''Ingress'', ''Egress''],
      nm_ingress = [], nm_egress = egress_rules p\<rparr>"

definition create_network_policy :: "kube_env \<Rightarrow> sandbox_config \<Rightarrow> unit kube_op" where
  "create_network_policy K cfg = (let p = sp_network (policy cfg) in
     if np_mode p = ALLOW then ret ()
     else bnd kube_id (\<lambda>name.
       in_namespace (\<lambda>ns. kapi_make K (CreatePolicy ns (policy_manifest p name)) (PolicyObject name))))"

text \<open>The loop of \<open>_wait_until_running\<close>. Each round but the last sleeps a quarter of a second, which
  bounds the number of rounds.\<close>

definition start_timeout :: exn where
  "start_timeout = Exn RuntimeNotAvailableError ''timed out waiting for sandbox pod to start''"

primrec wait_loop :: "kube_env \<Rightarrow> rat \<Rightarrow> nat \<Rightarrow> unit kube_op" where
  "wait_loop K deadline 0 = raise start_timeout"
| "wait_loop K deadline (Suc n) = bnd (on_snd (monotonic_now K)) (\<lambda>t.
     if t < deadline then bnd kube_id (\<lambda>name.
       bnd (in_namespace (\<lambda>ns. kapi K (ReadPod name ns))) (\<lambda>k.
       let phase = ke_phase K k in
       if phase = ''Running'' then ret ()
       else if phase \<in> set [''Failed'', ''Succeeded'']
       then raise (Exn RuntimeNotAvailableError (''sandbox pod entered terminal phase '' @ phase))
       else next_do (on_snd (sleep K (1 / 4))) (wait_loop K deadline n)))
     else raise start_timeout)"

definition wait_rounds :: "rat \<Rightarrow> nat" where
  "wait_rounds timeout = Suc (nat \<lceil>4 * timeout\<rceil>)"

definition wait_until_running :: "kube_env \<Rightarrow> rat \<Rightarrow> unit kube_op" where
  "wait_until_running K timeout = bnd (on_snd (monotonic_now K)) (\<lambda>t.
     wait_loop K (t + timeout) (wait_rounds timeout))"

definition load_config :: "kube_env \<Rightarrow> unit kube_op" where
  "load_config K = try_except (on_snd (kapi_do K LoadInCluster))
     (\<lambda>e. if exn_isa e ConfigException
      then bnd (kb_get kb_context) (\<lambda>c. on_snd (kapi_do K (LoadKubeConfig c))) else raise e)"

definition create_pod :: "kube_env \<Rightarrow> sandbox_config \<Rightarrow> unit kube_op" where
  "create_pod K cfg = bnd kube_id (\<lambda>name. bnd (kb_get kb_runtime_class) (\<lambda>rc.
     in_namespace (\<lambda>ns. kapi_make K (CreatePod ns (pod_manifest rc cfg name)) (PodObject name))))"

definition kube_boot :: "kube_env \<Rightarrow> sandbox_config \<Rightarrow> unit kube_op" where
  "kube_boot K cfg =
     next_do (load_config K)
     (next_do (kb_set (\<lambda>b. b\<lparr>kb_core := True, kb_networking := True, kb_config := Some cfg\<rparr>))
     (bnd (on_snd (fresh_uuid K)) (\<lambda>u.
      next_do (kb_set (\<lambda>b. b\<lparr>kb_pod := Some (''agentnest-'' @ take 12 u)\<rparr>))
      (next_do (create_pod K cfg)
      (next_do (create_network_policy K cfg)
        (wait_until_running K (lifetime cfg)))))))"

definition kube_create :: "kube_env \<Rightarrow> sandbox_config \<Rightarrow> unit kube_op" where
  "kube_create K cfg =
     next_do (guard_or (np_domains (sp_network (policy cfg)) = []) (Exn UnsupportedCapabilityError
       ''Kubernetes NetworkPolicy cannot securely enforce DNS allowlists; use CIDRs''))
     (next_do (guard_or (ke_installed K) (Exn AgentNestError
       (''Kubernetes support requires: pip install '' @ [CHR 0x27] @ ''agentnest[kubernetes]'' @ [CHR 0x27])))
       (try_except (kube_boot K cfg)
         (\<lambda>e. if exn_isa e AgentNestError then next_do (kube_destroy K) (raise e)
          else if exn_isa e PyException then next_do (kube_destroy K)
            (raise (Exn RuntimeNotAvailableError (''could not create Kubernetes sandbox: '' @ exn_msg e)))
          else raise e)))"

section \<open>Executing\<close>

text \<open>With an environment or a working directory, the command is wrapped in a line for \<open>sh -c\<close>.\<close>

definition truthy :: "str option \<Rightarrow> bool" where
  "truthy x = (case x of None \<Rightarrow> False | Some s \<Rightarrow> s \<noteq> [])"

definition export_text :: "environment \<Rightarrow> str" where
  "export_text env = join_with '' '' (map (\<lambda>(key, v). key @ ''='' @ shell_quote v) env)"

definition kube_command :: "sandbox_config \<Rightarrow> exec_request \<Rightarrow> str list" where
  "kube_command cfg q =
     (if xr_environment q \<noteq> [] \<or> truthy (xr_workdir q)
      then let directory = shell_quote (if truthy (xr_workdir q) then the (xr_workdir q) else workdir cfg);
             rendered = join_with '' '' (map shell_quote (xr_command q)) in
           [''sh'', ''-c'', ''cd '' @ directory @ '' && env '' @ export_text (xr_environment q) @ '' '' @ rendered]
      else xr_command q)"

definition kube_timeout :: "sandbox_config \<Rightarrow> exec_request \<Rightarrow> rat" where
  "kube_timeout cfg q = (case xr_timeout q of None \<Rightarrow> lifetime cfg | Some t \<Rightarrow> if t = 0 then lifetime cfg else t)"

definition kube_timeout_error :: "rat \<Rightarrow> exn" where
  "kube_timeout_error t = Exn ExecutionTimeoutError
     (''execution exceeded '' @ fmt_g t @ '' seconds; the sandbox was destroyed'')"

definition read_part :: "str option \<Rightarrow> str list \<Rightarrow> str list" where
  "read_part x parts = (if truthy x then parts @ [the x] else parts)"

primrec exec_loop ::
  "kube_env \<Rightarrow> nat \<Rightarrow> rat \<Rightarrow> rat \<Rightarrow> exec_round list \<Rightarrow> str list \<times> str list \<Rightarrow> (str list \<times> str list) kube_op" where
  "exec_loop K n started timeout [] parts = ret parts"
| "exec_loop K n started timeout (r # rs) parts = (case r of
     Dropped e \<Rightarrow> raise e
   | Round x y \<Rightarrow> let parts' = (read_part x (fst parts), read_part y (snd parts)) in
       bnd (on_snd (monotonic_now K)) (\<lambda>t.
       if t - started > timeout
       then next_do (on_snd (kapi_do K (CloseExec n)))
         (next_do (kube_destroy K) (raise (kube_timeout_error timeout)))
       else exec_loop K n started timeout rs parts'))"

text \<open>\<open>s[:limit]\<close>.\<close>

definition upto_limit :: "int \<Rightarrow> bytes \<Rightarrow> bytes" where
  "upto_limit limit s = take (nat (if limit < 0 then int (length s) + limit else limit)) s"

definition truncation_suffix :: "int \<Rightarrow> str" where
  "truncation_suffix limit =
     [CHR 0x0A] @ ''[output truncated at '' @ int_text limit @ '' bytes]'' @ [CHR 0x0A]"

definition bounded_outputs :: "str \<Rightarrow> str \<Rightarrow> int \<Rightarrow> str \<times> str" where
  "bounded_outputs out err limit =
     (let captured = upto_limit limit out; remaining = max 0 (limit - int (length captured));
          captured_err = upto_limit remaining err;
          truncated = int (length out) + int (length err) > limit in
      (utf8_decode captured, utf8_decode captured_err @ (if truncated then truncation_suffix limit else [])))"

definition run_in_pod ::
  "kube_env \<Rightarrow> str \<Rightarrow> str list \<Rightarrow> rat \<Rightarrow> rat \<Rightarrow> (int \<times> str \<times> str) kube_op" where
  "run_in_pod K pod command started timeout =
     try_except
       (bnd (in_namespace (\<lambda>ns. kapi K (OpenExec pod ns command))) (\<lambda>n.
        bnd (exec_loop K n started timeout (ke_rounds K n) ([], [])) (\<lambda>parts.
        ret (case ke_exit K n of None \<Rightarrow> 0 | Some c \<Rightarrow> c, concat (fst parts), concat (snd parts)))))
       (\<lambda>e. if exn_isa e ExecutionTimeoutError then raise e
        else if exn_isa e PyException then raise (Exn ExecutionError (''Kubernetes execution failed: '' @ exn_msg e))
        else raise e)"

definition log_entry :: "exec_result \<Rightarrow> str" where
  "log_entry r = ''$ '' @ er_command r @ [CHR 0x0A] @ stdout r @ stderr r @
     ''[exit='' @ int_text (exit_code r) @ '']'' @ [CHR 0x0A]"

definition kube_exec :: "kube_env \<Rightarrow> exec_request \<Rightarrow> exec_result kube_op" where
  "kube_exec K q =
     bnd kube_id (\<lambda>pod. bnd kube_config (\<lambda>cfg.
     bnd (on_snd (monotonic_now K)) (\<lambda>started.
     bnd (run_in_pod K pod (kube_command cfg q) started (kube_timeout cfg q)) (\<lambda>(code, out, err).
     bnd (on_snd (monotonic_now K)) (\<lambda>t.
     let (so, se) = bounded_outputs out err (max_output_bytes (policy cfg));
         result = \<lparr>er_command = xr_display q, exit_code = code, stdout = so, stderr = se, duration = t - started\<rparr> in
     next_do (kb_set (\<lambda>b. b\<lparr>kb_logs := kb_logs b @ [log_entry result]\<rparr>)) (ret result))))))"

section \<open>Files and logs\<close>

definition write_program :: str where
  "write_program = ''import base64,pathlib,sys; p=pathlib.Path(sys.argv[1]); p.parent.mkdir(parents=True,exist_ok=True); p.write_bytes(base64.b64decode(sys.argv[2]))''"

definition read_program :: str where
  "read_program = ''import base64,pathlib,sys; print(base64.b64encode(pathlib.Path(sys.argv[1]).read_bytes()).decode())''"

definition plain_request :: "str list \<Rightarrow> str \<Rightarrow> exec_request" where
  "plain_request command display = \<lparr>xr_command = command, xr_display = display, xr_environment = [],
     xr_workdir = None, xr_timeout = None\<rparr>"

definition kube_write_file :: "kube_env \<Rightarrow> str \<Rightarrow> bytes \<Rightarrow> unit kube_op" where
  "kube_write_file K path content =
     bnd (of_sum (normalize_workspace_path path)) (\<lambda>p.
     bnd (kube_exec K (plain_request
       [''python'', ''-c'', write_program, ''/workspace/'' @ p, b64encode content] (''write '' @ p))) (\<lambda>r.
     bnd (of_sum (check_result r)) (\<lambda>_. ret ())))"

definition kube_read_file :: "kube_env \<Rightarrow> str \<Rightarrow> bytes kube_op" where
  "kube_read_file K path =
     bnd (of_sum (normalize_workspace_path path)) (\<lambda>p.
     bnd (kube_exec K (plain_request [''python'', ''-c'', read_program, ''/workspace/'' @ p] (''read '' @ p))) (\<lambda>r.
     bnd (of_sum (check_result r)) (\<lambda>r.
     of_sum (b64decode (strip (stdout r))))))"

definition kube_logs :: "kube_env \<Rightarrow> str kube_op" where
  "kube_logs K =
     bnd (kb_get kb_pod) (\<lambda>pod.
     bnd (case pod of None \<Rightarrow> ret []
        | Some name \<Rightarrow> try_except
            (bnd (in_namespace (\<lambda>ns. kapi K (ReadPodLog name ns))) (\<lambda>n. ret (ke_pod_log K n)))
            (\<lambda>e. if exn_isa e PyException then ret [] else raise e)) (\<lambda>pod_logs.
     bnd (kb_get kb_logs) (\<lambda>logs. ret (pod_logs @ concat logs))))"

section \<open>The operation table\<close>

definition kube_runtime :: "kube_env \<Rightarrow> (kube_rt, kube_world) runtime" where
  "kube_runtime K =
     \<lparr>rt_name = ''KubernetesRuntime'', rt_create = kube_create K, rt_exec = kube_exec K,
      rt_write_file = kube_write_file K, rt_read_file = kube_read_file K, rt_logs = kube_logs K,
      rt_destroy = kube_destroy K, rt_snapshot = None, rt_fork = None, rt_stream = None\<rparr>"

end
