(* ===== verification/Kubernetes_Facts.thy ===== *)
theory Kubernetes_Facts
  imports Kubernetes Sandbox_Lifecycle
begin

text \<open>
  Facts of the Kubernetes runtime: it keeps \<open>runtime_contract\<close>; the bound on the rounds of
  \<open>_wait_until_running\<close> is never met; every Pod it asks for is hardened; what it has in the cluster is
  named by its fields.
\<close>

section \<open>Destruction\<close>

definition kube_live :: "kube_rt \<Rightarrow> bool" where
  "kube_live b \<longleftrightarrow> \<not> (kb_pod b = None \<and> kb_config b = None)"

definition kube_forget :: "kube_rt \<Rightarrow> kube_rt" where
  "kube_forget b = b\<lparr>kb_pod := None, kb_config := None\<rparr>"

abbreviation kfields :: "(kube_rt \<Rightarrow> bool) \<Rightarrow> kube_rt \<times> kube_world \<Rightarrow> bool" where
  "kfields P s \<equiv> P (fst s)"

abbreviation kworld :: "(kube_world \<Rightarrow> bool) \<Rightarrow> kube_rt \<times> kube_world \<Rightarrow> bool" where
  "kworld P s \<equiv> P (snd s)"

lemma kfields_on_snd [method_keeps]: "keeps (kfields P) (on_snd m)"
  by (rule keepsI) (auto simp: on_snd_def split: prod.splits)

lemma kube_get [method_keeps]: "keeps P (kb_get f)"
  by (simp add: kb_get_def)

lemma kube_field [method_keeps]: "keeps P kube_id" "keeps P kube_config"
  unfolding kube_id_def kube_config_def by (intro keeps_steps kube_get)+

lemma kfields_namespace [method_keeps]: "keeps (kfields P) (in_namespace m)"
  unfolding in_namespace_def by (intro keeps_steps method_keeps)

lemma kworld_set [method_keeps]: "keeps (kworld P) (kb_set f)"
  by (rule keepsI) (auto simp: kb_set_def modify_def)

lemma kworld_namespace: "(\<And>ns. keeps P (m ns)) \<Longrightarrow> keeps (kworld P) (in_namespace m)"
  unfolding in_namespace_def by (intro keeps_steps kube_get keeps_on_snd)

lemma kube_destroy_eq: "kube_destroy K (b, w) = (case kb_pod b of None \<Rightarrow> (Inr (), (kube_forget b, w))
    | Some pod \<Rightarrow> if \<not> kb_core b then (Inr (), (kube_forget b, w))
      else next_do (suppressing (\<lambda>e. exn_isa e PyException)
          (in_namespace (\<lambda>ns. kapi_remove K (DeletePod ns pod) (PodObject pod))))
        (when_do (kb_networking b) (suppressing (\<lambda>e. exn_isa e PyException)
          (in_namespace (\<lambda>ns. kapi_remove K (DeletePolicy ns pod) (PolicyObject pod))))) (kube_forget b, w))"
  by (simp add: kube_destroy_def kb_get_def kb_set_def gets_def modify_def bnd_def next_do_def kube_forget_def
      ret_def split: option.split)

lemma kube_destroy_fields: "fst (snd (kube_destroy K (b, w))) = kube_forget b"
proof -
  have "keeps (kfields (\<lambda>x. x = kube_forget b)) (next_do (suppressing (\<lambda>e. exn_isa e PyException)
          (in_namespace (\<lambda>ns. kapi_remove K (DeletePod ns pod) (PodObject pod))))
        (when_do (kb_networking b) (suppressing (\<lambda>e. exn_isa e PyException)
          (in_namespace (\<lambda>ns. kapi_remove K (DeletePolicy ns pod) (PolicyObject pod))))))" for pod
    by (intro keeps_steps keeps_suppressing method_keeps)
  from keepsD [OF this _ prod.collapse [symmetric], of "(kube_forget b, w)"]
  show ?thesis by (auto simp: kube_destroy_eq split: option.splits)
qed

lemma kube_dead: "\<not> kube_live b \<Longrightarrow> kube_forget b = b"
  by (cases b) (simp add: kube_live_def kube_forget_def)

lemma kube_exec_dead: "\<not> kube_live b \<Longrightarrow> kube_exec K q (b, w) = (Inl kube_gone, (b, w))"
  by (simp add: kube_exec_def kube_id_def kb_get_def gets_def raise_def bnd_def kube_live_def)

lemma of_sum_dead:
  "m (b, w) = (Inl e, (b, w)) \<Longrightarrow> \<exists>e. bnd (of_sum r) (\<lambda>x. bnd m (f x)) (b, w) = (Inl e, (b, w))"
  by (cases r) (auto simp: of_sum_def bnd_def)

interpretation kube: runtime_contract "kube_runtime K" kube_live for K
proof unfold_locales
  fix b w r b' w' assume "rt_destroy (kube_runtime K) (b, w) = (r, b', w')"
  then have "b' = kube_forget b" using kube_destroy_fields [of K b w] by (simp add: kube_runtime_def)
  then show "\<not> kube_live b'" by (simp add: kube_live_def kube_forget_def)
next
  fix b w assume b: "\<not> kube_live b"
  then show "rt_destroy (kube_runtime K) (b, w) = (Inr (), b, w)"
    using kube_dead [OF b] by (simp add: kube_runtime_def kube_destroy_eq kube_live_def)
  note gone = kube_exec_dead [OF b]
  show "\<exists>m w'. rt_exec (kube_runtime K) q (b, w) = (Inl (Exn SandboxDestroyedError m), b, w')" for q
    by (simp add: kube_runtime_def gone)
  show "\<exists>e w'. rt_write_file (kube_runtime K) p c (b, w) = (Inl e, b, w')" for p c
    by (cases "normalize_workspace_path p") (auto simp: kube_runtime_def kube_write_file_def of_sum_def bnd_def gone)
  show "\<exists>e w'. rt_read_file (kube_runtime K) p (b, w) = (Inl e, b, w')" for p
    by (cases "normalize_workspace_path p") (auto simp: kube_runtime_def kube_read_file_def of_sum_def bnd_def gone)
next
  have "dead kube_live = kfields (\<lambda>b. \<not> kube_live b)" by (auto simp: dead_def fun_eq_iff)
  then show "keeps (dead kube_live) (rt_logs (kube_runtime K))"
    unfolding kube_runtime_def kube_logs_def runtime.select_convs
    by (simp only:) (intro keeps_steps keeps_try_except method_keeps)
qed (simp_all add: kube_runtime_def)

section \<open>Waiting\<close>

text \<open>A reading of the clock is at least what the clock was; each further round finds it a quarter of a
  second later.\<close>

lemma pass_time_clock: "kw_clock (pass_time K s w) \<ge> kw_clock w + s"
  by (simp add: pass_time_def)

lemma kapi_clock: "kw_clock (snd (kapi K c w)) = kw_clock w"
  by (simp add: kapi_def Let_def split: option.split)

text \<open>Once the rounds cover the time to the deadline, more rounds change nothing.\<close>

lemma wait_loop_enough:
  "deadline - kw_clock (snd s) \<le> of_nat n / 4 \<Longrightarrow> n \<le> m \<Longrightarrow>
   wait_loop K deadline (Suc m) s = wait_loop K deadline (Suc n) s"
proof (induction n arbitrary: m s)
  case 0
  have "\<not> kw_clock (pass_time K 0 (snd s)) < deadline" using 0 pass_time_clock [of "snd s" 0 K] by simp
  then show ?case
    by (cases s) (simp add: on_snd_def monotonic_now_def comp_defs)
next
  case (Suc n)
  then obtain k where m: "m = Suc k" "n \<le> k" by (cases m) auto
  obtain b w where Pair: "s = (b, w)" by (cases s)
  define w1 where "w1 = pass_time K 0 w"
  have w1: "kw_clock w1 \<ge> kw_clock w" using pass_time_clock [of w 0 K] by (simp add: w1_def)
  have step: "wait_loop K deadline (Suc k) (b, pass_time K (1 / 4) v) = wait_loop K deadline (Suc n) (b, pass_time K (1 / 4) v)"
    if "kw_clock v = kw_clock w1" for v
  proof (rule Suc.IH [OF _ m(2)])
    have "kw_clock (pass_time K (1 / 4) v) \<ge> kw_clock w + 1 / 4"
      using pass_time_clock [of v "1 / 4" K] w1 that by simp
    with Suc.prems(1) Pair show "deadline - kw_clock (snd (b, pass_time K (1 / 4) v)) \<le> of_nat n / 4"
      by (simp add: field_simps)
  qed
  have clock: "kw_clock v = kw_clock w1" if "kapi K c w1 = (x, v)" for c x v
    using kapi_clock [of K c w1] that by simp
  show ?case
    unfolding Pair m(1) wait_loop.simps(2) [of K deadline "Suc k"] wait_loop.simps(2) [of K deadline "Suc n"]
    by (auto simp: on_snd_def monotonic_now_def sleep_def kube_id_def in_namespace_def kb_get_def comp_defs
        w1_def [symmetric] Let_def step clock simp del: wait_loop.simps split: prod.split sum.split option.split)
qed

lemma wait_rounds_enough:
  assumes "wait_rounds timeout \<le> m"
  shows "wait_loop K (kw_clock (snd s) + timeout) m s = wait_loop K (kw_clock (snd s) + timeout) (wait_rounds timeout) s"
proof -
  obtain k where m: "m = Suc k" "nat \<lceil>4 * timeout\<rceil> \<le> k" using assms by (cases m) (auto simp: wait_rounds_def)
  have "4 * timeout \<le> of_nat (nat \<lceil>4 * timeout\<rceil>)" by linarith
  then show ?thesis
    unfolding m(1) wait_rounds_def by (intro wait_loop_enough m(2)) simp
qed

section \<open>What is asked of the cluster\<close>

text \<open>A hardened Pod, which fits its configuration; a NetworkPolicy that isolates it.\<close>

definition pod_hardened :: "pod_manifest \<Rightarrow> bool" where
  "pod_hardened m \<longleftrightarrow> \<not> pm_service_account_token m \<and> pm_run_as_non_root m \<and> pm_user m \<noteq> 0 \<and> pm_group m \<noteq> 0 \<and>
     pm_seccomp m = ''RuntimeDefault'' \<and> \<not> pm_privilege_escalation m \<and> pm_drop m = [''ALL''] \<and>
     fst ` set (pm_mounts m) \<subseteq> fst ` set (pm_volumes m)"

definition pod_fits :: "sandbox_config \<Rightarrow> pod_manifest \<Rightarrow> bool" where
  "pod_fits cfg m \<longleftrightarrow> pm_image m = image_name cfg \<and> pm_env m = cfg_environment cfg \<and>
     pm_working_dir m = workdir cfg \<and> pm_read_only_root m = read_only_root cfg \<and>
     pm_limits m = pod_limits (limits cfg) \<and> pm_requests m = pm_limits m"

definition policy_isolates :: "sandbox_config \<Rightarrow> pod_manifest \<Rightarrow> policy_manifest \<Rightarrow> bool" where
  "policy_isolates cfg m p \<longleftrightarrow> (\<forall>(k, v) \<in> set (nm_selector p). map_of (pm_labels m) k = Some v) \<and>
     set [''Ingress'', ''Egress''] \<subseteq> set (nm_types p) \<and> nm_ingress p = [] \<and>
     concat (nm_egress p) = np_cidrs (sp_network (policy cfg)) \<and>
     (np_mode (sp_network (policy cfg)) = DENY \<longrightarrow> nm_egress p = [])"

lemma pod_manifest_ok: "pod_hardened (pod_manifest rc cfg name) \<and> pod_fits cfg (pod_manifest rc cfg name)"
  by (simp add: pod_hardened_def pod_fits_def pod_manifest_def)

lemma policy_manifest_ok:
  assumes "network_wf (sp_network (policy cfg))"
  shows "policy_isolates cfg (pod_manifest rc cfg name) (policy_manifest (sp_network (policy cfg)) name)"
  using assms
  by (auto simp: policy_isolates_def pod_manifest_def policy_manifest_def egress_rules_def network_wf_def
      intro: ccontr)

text \<open>Every call so far satisfies \<open>Q\<close>.\<close>

definition calls_ok :: "(kcall \<Rightarrow> bool) \<Rightarrow> kube_world \<Rightarrow> bool" where
  "calls_ok Q w = (\<forall>c \<in> set (kw_calls w). Q c)"

lemma calls_kapi: "Q c \<Longrightarrow> keeps (calls_ok Q) (kapi K c)" "Q c \<Longrightarrow> keeps (calls_ok Q) (kapi_do K c)"
proof -
  show *: "Q c \<Longrightarrow> keeps (calls_ok Q) (kapi K c)" for c
    by (rule keepsI) (auto simp: kapi_def Let_def calls_ok_def split: option.splits)
  show "Q c \<Longrightarrow> keeps (calls_ok Q) (kapi_do K c)"
    unfolding kapi_do_def by (intro keeps_steps *)
qed

lemma calls_objects: "Q c \<Longrightarrow> keeps (calls_ok Q) (kapi_make K c x)" "Q c \<Longrightarrow> keeps (calls_ok Q) (kapi_remove K c x)"
  unfolding kapi_make_def kapi_remove_def
  by (intro keeps_steps calls_kapi keeps_modify; simp add: calls_ok_def)+

lemma calls_time: "keeps (calls_ok Q) (monotonic_now K)" "keeps (calls_ok Q) (sleep K t)" "keeps (calls_ok Q) (fresh_uuid K)"
  unfolding monotonic_now_def sleep_def fresh_uuid_def
  by (intro keeps_steps keeps_modify; simp add: pass_time_def calls_ok_def)+

definition sound_call :: "sandbox_config \<Rightarrow> kcall \<Rightarrow> bool" where
  "sound_call cfg c = (case c of CreatePod ns m \<Rightarrow> pod_hardened m \<and> pod_fits cfg m | _ \<Rightarrow> True)"

lemma sound_wait: "keeps (kworld (calls_ok (sound_call cfg))) (wait_loop K d n)"
  by (induction n) (auto intro!: keeps_steps method_keeps keeps_on_snd kworld_namespace calls_time calls_kapi
      simp: Let_def sound_call_def)

lemma sound_destroy: "keeps (kworld (calls_ok (sound_call cfg))) (kube_destroy K)"
  unfolding kube_destroy_def
  by (intro keeps_steps keeps_suppressing method_keeps keeps_on_snd kworld_namespace calls_objects)
    (simp_all add: sound_call_def)

lemma sound_boot: "keeps (kworld (calls_ok (sound_call cfg))) (kube_boot K cfg)"
  unfolding kube_boot_def load_config_def create_pod_def create_network_policy_def wait_until_running_def Let_def
  by (intro keeps_steps keeps_try_except method_keeps keeps_on_snd kworld_namespace calls_objects calls_time
      calls_kapi sound_wait) (simp_all add: sound_call_def pod_manifest_ok)

lemma sound_create: "keeps (kworld (calls_ok (sound_call cfg))) (kube_create K cfg)"
  unfolding kube_create_def by (intro keeps_steps keeps_try_except sound_boot sound_destroy)

end
