(* ===== verification/Kubernetes_Properties.thy ===== *)
theory Kubernetes_Properties
  imports Kubernetes_Facts
begin

text \<open>
  What the Kubernetes runtime promises: hardened, isolated Pods; commands that reach the Pod word by
  word; nothing left in the cluster; an end to waiting; bounded output.
\<close>

section \<open>An example\<close>

definition kube_demo_env :: kube_env where
  "kube_demo_env = \<lparr>ke_installed = True, ke_fault = (\<lambda>_ _. None), ke_phase = (\<lambda>_. ''Running''),
     ke_rounds = (\<lambda>_. [Round (Some ''YWJj'') None, Round None None]), ke_exit = (\<lambda>_. Some 0), ke_pod_log = (\<lambda>_. []),
     ke_lag = (\<lambda>_. 1), ke_uuid = (\<lambda>_. ''0123456789abcdef'')\<rparr>"

definition kube_demo_world :: kube_world where
  "kube_demo_world = \<lparr>kw_calls = [], kw_objects = [], kw_clock = 0, kw_draws = 0\<rparr>"

definition kube_demo_config :: sandbox_config where
  "kube_demo_config = \<lparr>image_name = ''python:3.12-slim'', lifetime = 300, cfg_environment = [(''A'', ''b'')],
     workdir = ''/workspace'', network_enabled = False, limits = default_limits, read_only_root = True,
     policy = default_policy\<rparr>"

definition kube_demo_running :: "kube_rt \<times> kube_world" where
  "kube_demo_running = snd (kube_create kube_demo_env kube_demo_config (new_kube ''default'' None None, kube_demo_world))"

lemma kube_demo_created:
  "kube_create kube_demo_env kube_demo_config (new_kube ''default'' None None, kube_demo_world) = (Inr (), kube_demo_running)"
proof -
  have "fst (kube_create kube_demo_env kube_demo_config (new_kube ''default'' None None, kube_demo_world)) = Inr ()"
    by code_simp
  then show ?thesis by (simp add: kube_demo_running_def prod_eq_iff)
qed

section \<open>Isolation\<close>

lemma keeps_conj: "keeps P m \<Longrightarrow> keeps Q m \<Longrightarrow> keeps (\<lambda>s. P s \<and> Q s) m"
  by (rule keepsI) (auto dest: keepsD)

text \<open>The fields that name the Pod, and calls that have been made.\<close>

abbreviation asked :: "str \<Rightarrow> str \<Rightarrow> str option \<Rightarrow> kcall set \<Rightarrow> kube_rt \<times> kube_world \<Rightarrow> bool" where
  "asked name ns rc C s \<equiv> (kb_pod (fst s) = Some name \<and> kb_namespace (fst s) = ns \<and> kb_runtime_class (fst s) = rc) \<and>
     C \<subseteq> set (kw_calls (snd s))"

lemma more_calls: "keeps (\<lambda>w. C \<subseteq> set (kw_calls w)) (kapi K c)" "keeps (\<lambda>w. C \<subseteq> set (kw_calls w)) (monotonic_now K)"
  "keeps (\<lambda>w. C \<subseteq> set (kw_calls w)) (sleep K t)"
  by (auto intro!: keepsI simp: kapi_def Let_def monotonic_now_def sleep_def pass_time_def comp_defs split: option.splits)

lemma asked_wait: "keeps (asked name ns rc C) (wait_loop K d n)"
proof (rule keeps_conj)
  show "keeps (\<lambda>s. kb_pod (fst s) = Some name \<and> kb_namespace (fst s) = ns \<and> kb_runtime_class (fst s) = rc) (wait_loop K d n)"
    by (induction n) (auto intro!: keeps_steps kube_field kfields_on_snd kfields_namespace simp: Let_def)
  show "keeps (\<lambda>s. C \<subseteq> set (kw_calls (snd s))) (wait_loop K d n)"
    by (induction n) (auto intro!: keeps_steps kube_field keeps_on_snd kworld_namespace more_calls simp: Let_def)
qed

lemma asked_make:
  "triple (asked name ns rc C) (in_namespace (\<lambda>ns. kapi_make K (c ns) x)) (\<lambda>_. asked name ns rc (insert (c ns) C)) (\<lambda>_ _. True)"
  by (auto simp: triple_def in_namespace_def kb_get_def on_snd_def kapi_make_def kapi_do_def kapi_def Let_def comp_defs
      split: prod.splits sum.splits option.splits)

lemma asked_id: "triple (asked name ns rc C) kube_id (\<lambda>n s. n = name \<and> asked name ns rc C s) (\<lambda>_ _. True)"
  by (auto simp: triple_def kube_id_def kb_get_def comp_defs)

lemma asked_pod: "triple (asked name ns rc C) (create_pod K cfg)
    (\<lambda>_. asked name ns rc (insert (CreatePod ns (pod_manifest rc cfg name)) C)) (\<lambda>_ _. True)"
proof -
  have rc: "triple (asked name ns rc C) (kb_get kb_runtime_class) (\<lambda>x s. x = rc \<and> asked name ns rc C s) (\<lambda>_ _. True)"
    by (auto simp: triple_def kb_get_def gets_def)
  show ?thesis
    unfolding create_pod_def
    by (rule triple_bnd [OF asked_id], rule triple_pure, rule triple_bnd [OF rc], rule triple_pure)
      (simp only:, rule asked_make [where c = "\<lambda>ns. CreatePod ns (pod_manifest rc cfg name)"])
qed

lemma asked_policy: "triple (asked name ns rc C) (create_network_policy K cfg)
    (\<lambda>_. asked name ns rc ((if np_mode (sp_network (policy cfg)) = ALLOW then {}
      else {CreatePolicy ns (policy_manifest (sp_network (policy cfg)) name)}) \<union> C)) (\<lambda>_ _. True)"
proof (cases "np_mode (sp_network (policy cfg)) = ALLOW")
  case False
  have "triple (asked name ns rc C) (bnd kube_id (\<lambda>name.
      in_namespace (\<lambda>ns. kapi_make K (CreatePolicy ns (policy_manifest (sp_network (policy cfg)) name)) (PolicyObject name))))
    (\<lambda>_. asked name ns rc (insert (CreatePolicy ns (policy_manifest (sp_network (policy cfg)) name)) C)) (\<lambda>_ _. True)"
    by (rule triple_bnd [OF asked_id], rule triple_pure)
      (simp only:, rule asked_make [where c = "\<lambda>ns. CreatePolicy ns (policy_manifest (sp_network (policy cfg)) name)"])
  with False show ?thesis by (simp add: create_network_policy_def Let_def)
qed (auto simp: create_network_policy_def intro: triple_ret)

lemma asked_boot: "triple (\<lambda>_. True) (kube_boot K cfg) (\<lambda>_ s. \<exists>name ns rc. asked name ns rc
    ((if np_mode (sp_network (policy cfg)) = ALLOW then {} else {CreatePolicy ns (policy_manifest (sp_network (policy cfg)) name)}) \<union>
     {CreatePod ns (pod_manifest rc cfg name)}) s) (\<lambda>_ _. True)"
proof -
  have pod: "triple (\<lambda>_. True) (kb_set (\<lambda>b. b\<lparr>kb_pod := Some p\<rparr>)) (\<lambda>_ s. \<exists>name ns rc. asked name ns rc {} s) (\<lambda>_ _. True)" for p
    by (auto simp: triple_def kb_set_def modify_def)
  have wait: "triple (asked name ns rc C) (wait_until_running K t) (\<lambda>_. asked name ns rc C) (\<lambda>_ _. True)" for name ns rc C t
  proof -
    have "keeps (asked name ns rc C) (on_snd (monotonic_now K))"
      by (intro keeps_conj kfields_on_snd keeps_on_snd more_calls)
    then have "keeps (asked name ns rc C) (wait_until_running K t)"
      unfolding wait_until_running_def by (intro keeps_bnd asked_wait)
    then show ?thesis by (rule keeps_triple)
  qed
  show ?thesis
    unfolding kube_boot_def next_do_def
    by (rule triple_bnd [OF triple_any], rule triple_bnd [OF triple_any], rule triple_bnd [OF triple_any],
        rule triple_bnd [OF pod], intro triple_ex, rule triple_bnd [OF asked_pod], rule triple_bnd [OF asked_policy],
        rule triple_conseq [OF wait]) (assumption | blast)+
qed

text \<open>
  C21. Every Pod that is asked for is hardened and fits its configuration: it runs as an unprivileged
  user without service account token, capabilities or a way to gain them, on volumes that are its own.
  And a create that returns has asked for the Pod it names and, unless the policy allows the network, for a
  NetworkPolicy that selects that Pod, admits no ingress, and no egress but to the CIDRs of the policy.
\<close>

theorem kube_isolated:
  assumes "network_wf (sp_network (policy cfg))" and "calls_ok (sound_call cfg) w"
    and "kube_create K cfg (b, w) = (r, (b', w'))"
  shows "calls_ok (sound_call cfg) w' \<and> (r = Inr () \<longrightarrow> (\<exists>ns m. CreatePod ns m \<in> set (kw_calls w') \<and>
    kb_pod b' = Some (pm_name m) \<and> (np_mode (sp_network (policy cfg)) \<noteq> ALLOW \<longrightarrow>
      (\<exists>p. CreatePolicy ns p \<in> set (kw_calls w') \<and> policy_isolates cfg m p))))"
proof
  show "calls_ok (sound_call cfg) w'" using keepsD [OF sound_create _ assms(3)] assms(2) by simp
  show "r = Inr () \<longrightarrow> (\<exists>ns m. CreatePod ns m \<in> set (kw_calls w') \<and>
    kb_pod b' = Some (pm_name m) \<and> (np_mode (sp_network (policy cfg)) \<noteq> ALLOW \<longrightarrow>
      (\<exists>p. CreatePolicy ns p \<in> set (kw_calls w') \<and> policy_isolates cfg m p)))"
  proof
    assume ok: "r = Inr ()"
    have run: "kube_boot K cfg (b, w) = (r, (b', w'))"
    proof -
      from assms(3) ok have "try_except (kube_boot K cfg)
         (\<lambda>e. if exn_isa e AgentNestError then next_do (kube_destroy K) (raise e)
          else if exn_isa e PyException then next_do (kube_destroy K)
            (raise (Exn RuntimeNotAvailableError (''could not create Kubernetes sandbox: '' @ exn_msg e)))
          else raise e) (b, w) = (Inr (), (b', w'))"
        by (auto simp: kube_create_def guard_or_def next_do_def bnd_def ret_def raise_def split: if_splits)
      then show ?thesis
        using ok by (auto simp: try_except_def next_do_def bnd_def raise_def split: prod.splits sum.splits if_splits)
    qed
    from tripleD [OF asked_boot TrueI run] ok obtain name ns rc where a: "asked name ns rc
      ((if np_mode (sp_network (policy cfg)) = ALLOW then {} else {CreatePolicy ns (policy_manifest (sp_network (policy cfg)) name)}) \<union>
       {CreatePod ns (pod_manifest rc cfg name)}) (b', w')" by auto
    let ?m = "pod_manifest rc cfg name"
    from a have "CreatePod ns ?m \<in> set (kw_calls w') \<and> kb_pod b' = Some (pm_name ?m)" by (simp add: pod_manifest_def)
    moreover from a policy_manifest_ok [OF assms(1), of rc name]
    have "np_mode (sp_network (policy cfg)) \<noteq> ALLOW \<longrightarrow> (\<exists>p. CreatePolicy ns p \<in> set (kw_calls w') \<and> policy_isolates cfg ?m p)"
      by auto
    ultimately show "\<exists>ns m. CreatePod ns m \<in> set (kw_calls w') \<and> kb_pod b' = Some (pm_name m) \<and>
      (np_mode (sp_network (policy cfg)) \<noteq> ALLOW \<longrightarrow> (\<exists>p. CreatePolicy ns p \<in> set (kw_calls w') \<and> policy_isolates cfg m p))"
      by blast
  qed
qed

lemma kube_isolated_witness:
  "calls_ok (sound_call kube_demo_config) (snd kube_demo_running) \<and>
   (\<exists>ns m p. CreatePod ns m \<in> set (kw_calls (snd kube_demo_running)) \<and>
     CreatePolicy ns p \<in> set (kw_calls (snd kube_demo_running)) \<and> policy_isolates kube_demo_config m p)"
proof -
  have "calls_ok (sound_call kube_demo_config) kube_demo_world" by (simp add: calls_ok_def kube_demo_world_def)
  moreover have "np_mode (sp_network (policy kube_demo_config)) = DENY" "network_wf (sp_network (policy kube_demo_config))"
    by (simp_all add: kube_demo_config_def default_policy_def denied_def network_wf_def)
  ultimately show ?thesis
    using kube_isolated [of kube_demo_config kube_demo_world kube_demo_env "new_kube ''default'' None None"
        "Inr ()" "fst kube_demo_running" "snd kube_demo_running"] kube_demo_created by fastforce
qed

section \<open>What is left in the cluster\<close>

fun deletes :: "kcall \<Rightarrow> bool" where
  "deletes (DeletePod _ _) = True" | "deletes (DeletePolicy _ _) = True" | "deletes _ = False"

text \<open>The API answers the calls that delete, and what the client library raises is an \<open>Exception\<close>.\<close>

definition deletes_answered :: "kube_env \<Rightarrow> bool" where
  "deletes_answered K \<longleftrightarrow> (\<forall>n c. deletes c \<longrightarrow> ke_fault K n c = None) \<and>
     (\<forall>n c e. ke_fault K n c = Some e \<longrightarrow> exn_isa e PyException) \<and>
     (\<forall>n e. Dropped e \<in> set (ke_rounds K n) \<longrightarrow> exn_isa e PyException)"

definition kube_held :: "kube_rt \<Rightarrow> cluster_object set" where
  "kube_held b = (case kb_pod b of None \<Rightarrow> {} | Some n \<Rightarrow> {PodObject n, PolicyObject n})"

definition kube_account :: "cluster_object set \<Rightarrow> kube_rt \<times> kube_world \<Rightarrow> bool" where
  "kube_account base s \<longleftrightarrow> set (kw_objects (snd s)) \<subseteq> base \<union> kube_held (fst s) \<and>
     (kb_pod (fst s) \<noteq> None \<longrightarrow> kb_core (fst s) \<and> kb_networking (fst s))"

lemma kapi_remove_answered:
  assumes "deletes_answered K" "deletes c"
  shows "fst (kapi_remove K c x w) = Inr () \<and> kw_objects (snd (kapi_remove K c x w)) = removeAll x (kw_objects w)"
  using assms by (simp add: deletes_answered_def kapi_remove_def kapi_do_def kapi_def Let_def comp_defs)

lemma kube_destroy_clean:
  assumes K: "deletes_answered K" and a: "kube_account base (b, w)"
  shows "\<exists>w'. kube_destroy K (b, w) = (Inr (), (kube_forget b, w')) \<and> set (kw_objects w') \<subseteq> base"
proof (cases "kb_pod b")
  case None
  with a show ?thesis by (simp add: kube_destroy_eq kube_account_def kube_held_def)
next
  case (Some pod)
  let ?b = "kube_forget b"
  have one: "suppressing (\<lambda>e. exn_isa e PyException) (in_namespace (\<lambda>ns. kapi_remove K (c ns) x)) (?b, v) =
      (Inr (), (?b, snd (kapi_remove K (c (kb_namespace ?b)) x v)))" if "\<And>ns. deletes (c ns)" for c x v
  proof -
    obtain r v' where run: "kapi_remove K (c (kb_namespace ?b)) x v = (r, v')" by (cases "kapi_remove K (c (kb_namespace ?b)) x v")
    with kapi_remove_answered [OF K that [of "kb_namespace ?b"], of x v] show ?thesis
      by (simp add: in_namespace_def kb_get_def on_snd_def comp_defs)
  qed
  define w1 where "w1 = snd (kapi_remove K (DeletePod (kb_namespace ?b) pod) (PodObject pod) w)"
  define w2 where "w2 = snd (kapi_remove K (DeletePolicy (kb_namespace ?b) pod) (PolicyObject pod) w1)"
  have "kw_objects w2 = removeAll (PolicyObject pod) (removeAll (PodObject pod) (kw_objects w))"
    using kapi_remove_answered [OF K] by (simp add: w1_def w2_def)
  moreover have "kube_destroy K (b, w) = (Inr (), (?b, w2))"
    using Some a one [of "\<lambda>ns. DeletePod ns pod"] one [of "\<lambda>ns. DeletePolicy ns pod"]
    by (simp add: kube_destroy_eq kube_account_def next_do_def bnd_def w1_def w2_def when_do_def)
  ultimately show ?thesis using a Some by (auto simp: kube_account_def kube_held_def)
qed

text \<open>Calls that create nothing leave the account as it is; what is raised is an \<open>Exception\<close>.\<close>

definition ordinary :: "(exn, 's, 'a) comp \<Rightarrow> bool" where
  "ordinary m \<longleftrightarrow> triple (\<lambda>_. True) m (\<lambda>_ _. True) (\<lambda>e _. exn_isa e PyException)"

lemma ordinary_simps [intro]: "ordinary (ret x)" "ordinary (gets f)" "ordinary (modify g)"
  "exn_isa e PyException \<Longrightarrow> ordinary (raise e)"
  by (auto simp: ordinary_def triple_def comp_defs)

lemma ordinary_bnd [intro]: "ordinary m \<Longrightarrow> (\<And>x. ordinary (f x)) \<Longrightarrow> ordinary (bnd m f)"
  unfolding ordinary_def by (rule triple_bnd)

lemma ordinary_next [intro]: "ordinary m \<Longrightarrow> ordinary n \<Longrightarrow> ordinary (next_do m n)"
  unfolding next_do_def by (rule ordinary_bnd)

lemma ordinary_on_snd [intro]: "ordinary m \<Longrightarrow> ordinary (on_snd m)"
  by (fastforce simp: ordinary_def triple_def on_snd_def split: prod.splits sum.splits)

lemma ordinary_try [intro]: "ordinary m \<Longrightarrow> (\<And>e. exn_isa e PyException \<Longrightarrow> ordinary (h e)) \<Longrightarrow> ordinary (try_except m h)"
  unfolding ordinary_def
  by (rule triple_try_except [where E = "\<lambda>e _. exn_isa e PyException"]) (assumption, rule triple_const, simp)

lemma ordinary_api [intro]:
  assumes "deletes_answered K"
  shows "ordinary (kapi K c)" "ordinary (kapi_do K c)" "ordinary (kapi_make K c x)"
proof -
  show *: "ordinary (kapi K c)" for c
    using assms by (auto simp: ordinary_def triple_def kapi_def Let_def deletes_answered_def split: option.split)
  show "ordinary (kapi_do K c)" "ordinary (kapi_make K c x)"
    unfolding kapi_do_def kapi_make_def by (intro ordinary_bnd ordinary_next ordinary_simps *)+
qed

lemma ordinary_fields [intro]: "ordinary kube_id" "ordinary (kb_set f)" "ordinary (kb_get g)"
  "(\<And>ns. ordinary (m ns)) \<Longrightarrow> ordinary (in_namespace m)" "ordinary (monotonic_now K)" "ordinary (sleep K t)"
  "ordinary (fresh_uuid K)"
proof -
  show g: "ordinary (kb_get g)" for g :: "kube_rt \<Rightarrow> 'x" by (auto simp: kb_get_def)
  show "ordinary kube_id"
    unfolding kube_id_def by (intro ordinary_bnd g) (auto simp: isa_simps split: option.split)
  show "ordinary (kb_set f)" by (auto simp: kb_set_def)
  show "ordinary (in_namespace m)" if "\<And>ns. ordinary (m ns)"
    unfolding in_namespace_def by (intro ordinary_bnd ordinary_on_snd g that)
  show "ordinary (monotonic_now K)" "ordinary (sleep K t)" "ordinary (fresh_uuid K)"
    unfolding monotonic_now_def sleep_def fresh_uuid_def by auto
qed

lemma ordinary_if: "ordinary m \<Longrightarrow> ordinary n \<Longrightarrow> ordinary (if b then m else n)"
  by simp

lemmas ordinary_rules = ordinary_simps ordinary_bnd ordinary_next ordinary_on_snd ordinary_try ordinary_fields
  ordinary_api ordinary_if

lemma ordinary_wait:
  assumes "deletes_answered K"
  shows "ordinary (wait_loop K d n)"
proof (induction n)
  case 0
  show ?case by (auto simp: start_timeout_def isa_simps)
next
  case (Suc n)
  then show ?case
    unfolding wait_loop.simps Let_def
    by (intro ordinary_rules assms) (simp_all add: start_timeout_def isa_simps)
qed

lemma ordinary_boot:
  assumes "deletes_answered K"
  shows "ordinary (kube_boot K cfg)"
  unfolding kube_boot_def load_config_def create_pod_def create_network_policy_def wait_until_running_def Let_def
  by (intro ordinary_rules ordinary_wait assms)

lemma objects_kept: "keeps (\<lambda>w. P (kw_objects w)) (kapi K c)" "keeps (\<lambda>w. P (kw_objects w)) (kapi_do K c)"
  "keeps (\<lambda>w. P (kw_objects w)) (monotonic_now K)" "keeps (\<lambda>w. P (kw_objects w)) (sleep K t)"
  "keeps (\<lambda>w. P (kw_objects w)) (fresh_uuid K)"
  by (auto intro!: keepsI simp: kapi_def kapi_do_def Let_def monotonic_now_def sleep_def fresh_uuid_def pass_time_def
      comp_defs split: option.splits)

text \<open>With the fields fixed, the account is a bound on the objects.\<close>

lemma account_bound: "kube_account base s \<longleftrightarrow> (kb_pod (fst s) \<noteq> None \<longrightarrow> kb_core (fst s) \<and> kb_networking (fst s)) \<and>
    set (kw_objects (snd s)) \<subseteq> base \<union> kube_held (fst s)"
  by (auto simp: kube_account_def)

abbreviation held_as :: "cluster_object set \<Rightarrow> kube_rt \<Rightarrow> kube_rt \<times> kube_world \<Rightarrow> bool" where
  "held_as base b s \<equiv> fst s = b \<and> set (kw_objects (snd s)) \<subseteq> base \<union> kube_held b"

lemma held_wait: "keeps (held_as base b) (wait_loop K d n)"
proof (rule keeps_conj)
  show "keeps (\<lambda>s. fst s = b) (wait_loop K d n)"
    by (induction n) (auto intro!: keeps_steps kube_field kfields_on_snd kfields_namespace simp: Let_def)
  show "keeps (\<lambda>s. set (kw_objects (snd s)) \<subseteq> base \<union> kube_held b) (wait_loop K d n)"
    by (induction n) (auto intro!: keeps_steps kube_field keeps_on_snd kworld_namespace objects_kept simp: Let_def)
qed

lemma held_make:
  assumes "x \<in> kube_held b"
  shows "keeps (held_as base b) (in_namespace (\<lambda>ns. kapi_make K (c ns) x))"
proof (rule keepsI)
  fix s r t assume "held_as base b s" "in_namespace (\<lambda>ns. kapi_make K (c ns) x) s = (r, t)"
  with assms show "held_as base b t"
    by (auto simp: in_namespace_def kb_get_def on_snd_def kapi_make_def kapi_do_def kapi_def Let_def comp_defs
        split: prod.splits sum.splits option.splits)
qed

lemma held_id: "kb_pod b = Some name \<Longrightarrow> triple (held_as base b) kube_id (\<lambda>n s. n = name \<and> held_as base b s) (\<lambda>_. held_as base b)"
  by (auto simp: triple_def kube_id_def kb_get_def comp_defs)

lemma held_objects:
  assumes pod: "kb_pod b = Some name"
  shows "keeps (held_as base b) (create_pod K cfg)" "keeps (held_as base b) (create_network_policy K cfg)"
    "keeps (held_as base b) (wait_until_running K t)"
proof -
  have x: "PodObject name \<in> kube_held b" "PolicyObject name \<in> kube_held b" using pod by (simp_all add: kube_held_def)
  have get: "keeps (held_as base b) (kb_get f)" for f :: "kube_rt \<Rightarrow> 'x" by (rule kube_get)
  show "keeps (held_as base b) (create_pod K cfg)"
    unfolding create_pod_def keeps_def
    by (rule triple_bnd [OF held_id [OF pod]], rule triple_pure, simp only:, fold keeps_def)
      (intro keeps_bnd get held_make x)
  have "keeps (held_as base b) (bnd kube_id (\<lambda>name. in_namespace (\<lambda>ns.
      kapi_make K (CreatePolicy ns (policy_manifest (sp_network (policy cfg)) name)) (PolicyObject name))))"
    unfolding keeps_def
    by (rule triple_bnd [OF held_id [OF pod]], rule triple_pure, simp only:, fold keeps_def) (rule held_make [OF x(2)])
  then show "keeps (held_as base b) (create_network_policy K cfg)"
    by (auto simp: create_network_policy_def Let_def)
  show "keeps (held_as base b) (wait_until_running K t)"
    unfolding wait_until_running_def
    by (intro keeps_bnd held_wait keeps_conj kfields_on_snd keeps_on_snd objects_kept)
qed

lemma kube_boot_account:
  assumes "kb_pod b = None" "set (kw_objects w) \<subseteq> base" "kube_boot K cfg (b, w) = (r, s)"
  shows "kube_account base s"
proof -
  let ?none = "\<lambda>s. kb_pod (fst s) = None \<and> set (kw_objects (snd s)) \<subseteq> base"
  have load: "keeps ?none (load_config K)"
    unfolding load_config_def
    by (intro keeps_conj keeps_steps keeps_try_except kube_get kfields_on_snd keeps_on_snd objects_kept)
  have core: "triple ?none (kb_set (\<lambda>b. b\<lparr>kb_core := True, kb_networking := True, kb_config := Some cfg\<rparr>))
      (\<lambda>_ s. ?none s \<and> kb_core (fst s) \<and> kb_networking (fst s)) (\<lambda>_. kube_account base)"
    by (auto simp: triple_def kb_set_def modify_def)
  have uuid: "triple (\<lambda>s. ?none s \<and> kb_core (fst s) \<and> kb_networking (fst s)) (on_snd (fresh_uuid K))
      (\<lambda>_ s. ?none s \<and> kb_core (fst s) \<and> kb_networking (fst s)) (\<lambda>_. kube_account base)"
    by (auto simp: triple_def on_snd_def fresh_uuid_def comp_defs)
  let ?held = "\<lambda>b. kb_pod b \<noteq> None \<and> kb_core b \<and> kb_networking b"
  have pod: "triple (\<lambda>s. ?none s \<and> kb_core (fst s) \<and> kb_networking (fst s)) (kb_set (\<lambda>b. b\<lparr>kb_pod := Some p\<rparr>))
      (\<lambda>_ s. \<exists>b. ?held b \<and> held_as base b s) (\<lambda>_. kube_account base)" for p
    by (auto simp: triple_def kb_set_def modify_def kube_held_def)
  have weak: "triple (held_as base b) m (\<lambda>_. held_as base b) (\<lambda>_. kube_account base)"
    if "?held b" "keeps (held_as base b) m" for b and m :: "unit kube_op"
    using that unfolding keeps_def by (auto elim!: triple_conseq simp: account_bound)
  have final: "triple (held_as base b) m (\<lambda>_. kube_account base) (\<lambda>_. kube_account base)"
    if "?held b" "keeps (held_as base b) m" for b and m :: "unit kube_op"
    using that unfolding keeps_def by (auto elim!: triple_conseq simp: account_bound)
  have load': "triple ?none (load_config K) (\<lambda>_. ?none) (\<lambda>_. kube_account base)"
    using load unfolding keeps_def by (rule triple_conseq) (auto simp: account_bound)
  have rest: "triple (held_as base b) (next_do (create_pod K cfg) (next_do (create_network_policy K cfg)
      (wait_until_running K (lifetime cfg)))) (\<lambda>_. kube_account base) (\<lambda>_. kube_account base)" if b: "?held b" for b
  proof -
    obtain name where name: "kb_pod b = Some name" using b by (cases "kb_pod b") simp_all
    note h = held_objects [OF name, of base K]
    show ?thesis
      unfolding next_do_def
      by (rule triple_bnd [OF weak [OF b h(1)]], rule triple_bnd [OF weak [OF b h(2)]], rule final [OF b h(3)])
  qed
  have "triple ?none (kube_boot K cfg) (\<lambda>_. kube_account base) (\<lambda>_. kube_account base)"
    unfolding kube_boot_def
    by (subst next_do_def, rule triple_bnd [OF load'], subst next_do_def, rule triple_bnd [OF core], rule triple_bnd [OF uuid],
        subst next_do_def, rule triple_bnd [OF pod], intro triple_ex triple_pure rest)
  from tripleD [OF this _ assms(3)] assms(1,2) show ?thesis by (cases r) auto
qed

text \<open>
  C23. Nothing is left in the cluster: when the API answers the calls that delete, a create that fails
  leaves no Pod and no NetworkPolicy behind, and after one that succeeded \<open>destroy\<close> returns and leaves what
  there was before.
\<close>

theorem kube_nothing_leaks:
  assumes "deletes_answered K" and "kb_pod b = None"
  shows "case kube_create K cfg (b, w) of
      (Inl e, (b', w')) \<Rightarrow> set (kw_objects w') \<subseteq> set (kw_objects w)
    | (Inr _, s) \<Rightarrow> (case kube_destroy K s of
        (r, (b', w')) \<Rightarrow> r = Inr () \<and> \<not> kube_live b' \<and> set (kw_objects w') \<subseteq> set (kw_objects w))"
proof -
  let ?base = "set (kw_objects w)"
  obtain r b1 w1 where boot: "kube_boot K cfg (b, w) = (r, (b1, w1))"
    by (cases "kube_boot K cfg (b, w)") auto
  have acc: "kube_account ?base (b1, w1)" by (rule kube_boot_account [OF assms(2) subset_refl boot])
  from kube_destroy_clean [OF assms(1) this] obtain w2 where
    d: "kube_destroy K (b1, w1) = (Inr (), (kube_forget b1, w2))" "set (kw_objects w2) \<subseteq> ?base" by blast
  have ord: "exn_isa e PyException" if "r = Inl e" for e
    using tripleD [OF ordinary_boot [OF assms(1), unfolded ordinary_def] TrueI boot] that by simp
  show ?thesis
    using boot d ord
    by (cases r) (auto simp: kube_create_def guard_or_def next_do_def bnd_def ret_def raise_def try_except_def
        kube_live_def kube_forget_def)
qed

lemma kube_nothing_leaks_witness:
  "case kube_destroy kube_demo_env kube_demo_running of
    (r, (b', w')) \<Rightarrow> r = Inr () \<and> \<not> kube_live b' \<and> set (kw_objects w') \<subseteq> {}"
proof -
  have "deletes_answered kube_demo_env" by (simp add: deletes_answered_def kube_demo_env_def)
  moreover have "kb_pod (new_kube ''default'' None None) = None" by (simp add: new_kube_def)
  ultimately show ?thesis
    using kube_nothing_leaks [of kube_demo_env "new_kube ''default'' None None" kube_demo_world kube_demo_config]
    by (simp add: kube_demo_created) (simp add: kube_demo_world_def)
qed

end
