(* ===== verification/Kubernetes_Exec.thy ===== *)
theory Kubernetes_Exec
  imports Kubernetes_Properties
begin

text \<open>
  Execution in a Pod: the command line that the shell reads, what an execution leaves of the fields, how
  much output is kept, and how files travel through it.
\<close>

section \<open>The command line\<close>







definition nasty_request :: exec_request where
  "nasty_request = \<lparr>xr_command = [''echo'', [CHR 0x27] @ '' && rm -rf /'', ''$(id)''], xr_display = ''echo'',
     xr_environment = [(''A'', ''x; y'')], xr_workdir = None, xr_timeout = None\<rparr>"


text \<open>The names of the variables are not quoted: one can carry a second command.\<close>

lemma kube_variable_injects:
  "let q = nasty_request\<lparr>xr_environment := [(''A=b sh && reboot'', ''x'')]\<rparr> in
   map_option (filter (\<lambda>t. t = AndIf)) (sh_words (kube_command kube_demo_config q ! 2)) = Some [AndIf, AndIf]"
  by code_simp

section \<open>Outcomes\<close>

text \<open>The fields after a part of an execution: as they were, or, when it raised, those of a destroyed runtime.\<close>

abbreviation settles :: "kube_rt \<Rightarrow> (exn, kube_rt \<times> kube_world, 'a) comp \<Rightarrow> bool" where
  "settles b m \<equiv> triple (\<lambda>s. fst s = b) m (\<lambda>_ s. fst s = b) (\<lambda>_ s. fst s = b \<or> fst s = kube_forget b)"

lemma settles_keeps: "keeps (kfields (\<lambda>x. x = b)) m \<Longrightarrow> settles b m"
  unfolding keeps_def by (erule triple_conseq) auto

lemma settles_loop: "settles b (exec_loop K n started t rs parts)"
proof (induction rs arbitrary: parts)
  case (Cons r rs)
  show ?case
  proof (cases r)
    case (Round x y)
    have "settles b (next_do (on_snd (kapi_do K (CloseExec n))) (next_do (kube_destroy K) (raise e)))" for e
    proof -
      have "triple (\<lambda>s. fst s = b) (next_do (kube_destroy K) (raise e)) (\<lambda>_ s. fst s = b) (\<lambda>_ s. fst s = kube_forget b)"
        unfolding next_do_def
        by (rule triple_bnd [where R = "\<lambda>_ s. fst s = kube_forget b"])
          (use kube_destroy_fields [of K b] in \<open>auto simp: triple_def raise_def split: prod.split sum.split, metis fst_conv snd_conv\<close>)
      then show ?thesis
        unfolding next_do_def [of "on_snd _"]
        by (intro triple_bnd [OF settles_keeps [OF kfields_on_snd]]) (erule triple_conseq; simp)
    qed
    with Cons Round show ?thesis
      by (auto simp: Let_def intro!: triple_bnd [OF settles_keeps [OF kfields_on_snd]])
  qed (auto intro: triple_raise)
qed (auto intro: triple_ret)

lemma settles_run: "settles b (run_in_pod K pod c started t)"
  unfolding run_in_pod_def
  by (rule triple_try_except, rule triple_bnd [OF settles_keeps [OF kfields_namespace]],
      rule triple_bnd [OF settles_loop]) (auto intro!: triple_ret triple_raise)

lemma upto_limit_length: "0 \<le> limit \<Longrightarrow> int (length (upto_limit limit s)) \<le> limit"
  by (simp add: upto_limit_def)

lemma bounded_outputs_length:
  assumes "0 \<le> limit" "bounded_outputs out err limit = (x, y)"
  shows "int (length x + length y) \<le> 3 * limit + int (length (truncation_suffix limit))"
proof -
  let ?o = "upto_limit limit out" and ?e = "upto_limit (max 0 (limit - int (length (upto_limit limit out)))) err"
  have "length (utf8_decode ?o) \<le> 3 * length ?o" "length (utf8_decode ?e) \<le> 3 * length ?e"
    by (rule utf8_decode_length)+
  moreover have "int (length ?o) + int (length ?e) \<le> limit"
    using upto_limit_length [of "max 0 (limit - int (length ?o))" err] upto_limit_length [OF assms(1), of out] by simp
  ultimately show ?thesis using assms(2) by (auto simp: bounded_outputs_def Let_def)
qed

text \<open>
  An execution in a Pod that returns has appended its entry to the logs and changed nothing else of
  the runtime, and the output it returns is bounded by the limit of the policy; one that raises left the
  runtime as it was or destroyed it.
\<close>

theorem kube_exec_outcome:
  assumes "kb_config b = Some cfg" and "0 \<le> max_output_bytes (policy cfg)"
    and "kube_exec K q (b, w) = (r, (b', w'))"
  shows "case r of
      Inl e \<Rightarrow> b' = b \<or> b' = kube_forget b
    | Inr x \<Rightarrow> b' = b\<lparr>kb_logs := kb_logs b @ [log_entry x]\<rparr> \<and> er_command x = xr_display q \<and>
        int (length (stdout x) + length (stderr x)) \<le>
          3 * max_output_bytes (policy cfg) + int (length (truncation_suffix (max_output_bytes (policy cfg))))"
proof -
  let ?b = "\<lambda>s. fst s = b"
  let ?Q = "\<lambda>x s. fst s = b\<lparr>kb_logs := kb_logs b @ [log_entry x]\<rparr> \<and> er_command x = xr_display q \<and>
      int (length (stdout x) + length (stderr x)) \<le>
        3 * max_output_bytes (policy cfg) + int (length (truncation_suffix (max_output_bytes (policy cfg))))"
  let ?E = "\<lambda>_ s. fst s = b \<or> fst s = kube_forget b"
  have cfg: "triple ?b kube_config (\<lambda>c s. c = cfg \<and> ?b s) ?E"
    using assms(1) by (auto simp: triple_def kube_config_def kb_get_def comp_defs)
  have last: "triple ?b (let (so, se) = bounded_outputs out err (max_output_bytes (policy cfg));
         result = \<lparr>er_command = xr_display q, exit_code = c, stdout = so, stderr = se, duration = d\<rparr> in
     next_do (kb_set (\<lambda>b. b\<lparr>kb_logs := kb_logs b @ [log_entry result]\<rparr>)) (ret result)) ?Q ?E" for out err c d
    using bounded_outputs_length [OF assms(2)]
    by (auto simp: triple_def Let_def kb_set_def comp_defs split: prod.split)
  have "triple ?b (kube_exec K q) ?Q ?E"
    unfolding kube_exec_def case_prod_unfold
    by (rule triple_bnd [OF settles_keeps [OF kube_field(1)]], rule triple_bnd [OF cfg], rule triple_pure, hypsubst,
        rule triple_bnd [OF settles_keeps [OF kfields_on_snd]], rule triple_bnd [OF settles_run],
        rule triple_bnd [OF settles_keeps [OF kfields_on_snd]]) (rule last [unfolded case_prod_unfold])
  from tripleD [OF this _ assms(3)] show ?thesis by (simp split: sum.splits)
qed

lemma kube_demo_fields: "kb_config (fst kube_demo_running) = Some kube_demo_config"
  by code_simp

lemma kube_exec_outcome_witness:
  "case kube_exec kube_demo_env nasty_request kube_demo_running of (r, (b', w')) \<Rightarrow> (case r of
      Inl e \<Rightarrow> b' = fst kube_demo_running \<or> b' = kube_forget (fst kube_demo_running)
    | Inr x \<Rightarrow> b' = (fst kube_demo_running)\<lparr>kb_logs := kb_logs (fst kube_demo_running) @ [log_entry x]\<rparr> \<and>
        er_command x = ''echo'' \<and>
        int (length (stdout x) + length (stderr x)) \<le> 3 * max_output_bytes default_policy +
          int (length (truncation_suffix (max_output_bytes default_policy))))"
proof -
  obtain r b' w' where run: "kube_exec kube_demo_env nasty_request (fst kube_demo_running, snd kube_demo_running) = (r, (b', w'))"
    by (cases "kube_exec kube_demo_env nasty_request (fst kube_demo_running, snd kube_demo_running)") auto
  have "policy kube_demo_config = default_policy" by (simp add: kube_demo_config_def)
  moreover have "0 \<le> max_output_bytes default_policy" by (simp add: default_policy_def)
  ultimately show ?thesis
    using kube_exec_outcome [OF kube_demo_fields _ run] run by (simp add: nasty_request_def split: sum.splits)
qed

section \<open>Waiting\<close>

text \<open>
  Waiting for the Pod ends: because every round but the last sleeps for a quarter of a second, the loop
  stops by itself within four rounds per second of the timeout and one more; a larger bound on the rounds
  never changes the outcome, whatever the phases and failures.
\<close>

theorem kube_wait_ends:
  "wait_loop K (kw_clock (snd s) + timeout) (wait_rounds timeout + k) s =
   wait_loop K (kw_clock (snd s) + timeout) (wait_rounds timeout) s"
  by (rule wait_rounds_enough) simp

section \<open>Files\<close>

definition newline :: char where
  "newline = CHR 0x0A"

lemma b64_plain:
  assumes "c \<in> set (b64encode s)"
  shows "code c < 128 \<and> \<not> is_space c"
proof -
  have "\<forall>c \<in> insert pad (set b64_alphabet). code c < 128 \<and> \<not> is_space c"
    by (simp add: b64_alphabet_def pad_def is_space_def)
  with b64encode_chars [OF assms] show ?thesis by blast
qed

lemma b64_line: "strip (b64encode s @ [newline]) = b64encode s" "is_ascii (b64encode s @ [newline])"
proof -
  have n: "is_space newline" "code newline = 10" by (simp_all add: is_space_def newline_def)
  have plain: "\<forall>c \<in> set (b64encode s). \<not> is_space c" using b64_plain by blast
  have left: "dropWhile is_space (b64encode s @ [newline]) = (if b64encode s = [] then [] else b64encode s @ [newline])"
    using plain n by (cases "b64encode s") auto
  have "rev (dropWhile is_space (rev (b64encode s @ [newline]))) = b64encode s"
  proof (cases "rev (b64encode s)")
    case (Cons c cs)
    then have "c \<in> set (b64encode s)" by (metis list.set_intros(1) set_rev)
    with plain n Cons show ?thesis by (simp add: rev_swap)
  qed (use n in simp)
  with left show "strip (b64encode s @ [newline]) = b64encode s"
    by (auto simp: strip_def lstrip_by_def rstrip_by_def)
  show "is_ascii (b64encode s @ [newline])" using b64_plain n by (auto simp: is_ascii_def)
qed

lemma bounded_within:
  assumes "is_ascii out" "int (length out) \<le> limit"
  shows "fst (bounded_outputs out err limit) = out"
  using assms utf8_decode_id [OF ascii_valid [OF assms(1)]]
  by (simp add: bounded_outputs_def Let_def upto_limit_def)

text \<open>
  What the program in the Pod prints is what \<open>read_file\<close> gives: when it prints the Base64 of a content on a
  line and ends with status 0, and the line is within the output limit, the content is returned.
\<close>

theorem kube_read_back:
  assumes "normalize_workspace_path path = Inr p" and "kb_pod b = Some pod" and cfg: "kb_config b = Some cfg"
    and run: "run_in_pod K pod [''python'', ''-c'', read_program, ''/workspace/'' @ p] (kw_clock (pass_time K 0 w)) (lifetime cfg)
      (b, pass_time K 0 w) = (Inr (0, b64encode c @ [CHR 0x0A], err), s)"
    and limit: "int (length (b64encode c)) < max_output_bytes (policy cfg)"
  shows "fst (kube_read_file K path (b, w)) = Inr c"
proof -
  define cmd where "cmd = [''python'', ''-c'', read_program, ''/workspace/'' @ p]"
  define q where "q = plain_request cmd (''read '' @ p)"
  have q: "kube_command cfg q = cmd" "kube_timeout cfg q = lifetime cfg"
    by (simp_all add: q_def plain_request_def kube_command_def truthy_def kube_timeout_def)
  note run' = run [folded cmd_def]
  have out: "fst (bounded_outputs (b64encode c @ [newline]) err (max_output_bytes (policy cfg))) = b64encode c @ [newline]"
    by (rule bounded_within [OF b64_line(2)]) (use limit in simp)
  then obtain se where out: "bounded_outputs (b64encode c @ [newline]) err (max_output_bytes (policy cfg)) =
      (b64encode c @ [newline], se)" by (metis prod.collapse)
  have "\<exists>r. fst (kube_exec K q (b, w)) = Inr r \<and> exit_code r = 0 \<and> stdout r = b64encode c @ [newline]"
    using assms(2) cfg run' out
    by (cases s) (simp add: kube_exec_def kube_id_def kube_config_def kb_get_def kb_set_def on_snd_def monotonic_now_def comp_defs
        q Let_def newline_def split: prod.split)
  then obtain r t where "kube_exec K q (b, w) = (Inr r, t)" "exit_code r = 0" "stdout r = b64encode c @ [newline]"
    by (cases "kube_exec K q (b, w)") auto
  then show ?thesis
    using assms(1)
    by (simp add: kube_read_file_def of_sum_def bnd_def check_result_def result_ok_def b64_line(1) q_def cmd_def)
qed

lemma kube_read_back_witness: "fst (kube_read_file
    (kube_demo_env\<lparr>ke_rounds := \<lambda>_. [Round (Some ''YWJj'') None, Round (Some [CHR 0x0A]) None]\<rparr>) ''f'' kube_demo_running) = Inr ''abc''"
proof -
  let ?K = "kube_demo_env\<lparr>ke_rounds := \<lambda>_. [Round (Some ''YWJj'') None, Round (Some [CHR 0x0A]) None]\<rparr>"
  let ?pod = "''agentnest-0123456789ab''"
  let ?run = "run_in_pod ?K ?pod [''python'', ''-c'', read_program, ''/workspace/'' @ ''f'']
      (kw_clock (pass_time ?K 0 (snd kube_demo_running))) (lifetime kube_demo_config)
      (fst kube_demo_running, pass_time ?K 0 (snd kube_demo_running))"
  have "fst ?run = Inr (0, b64encode ''abc'' @ [CHR 0x0A], [])" by code_simp
  then have run: "?run = (Inr (0, b64encode ''abc'' @ [CHR 0x0A], []), snd ?run)" by (simp add: prod_eq_iff)
  have pod: "kb_pod (fst kube_demo_running) = Some ?pod" by code_simp
  have "normalize_workspace_path ''f'' = Inr ''f''" by code_simp
  from kube_read_back [OF this pod kube_demo_fields run]
  show ?thesis by (simp add: kube_demo_config_def default_policy_def)
qed

text \<open>Past the limit the text is cut, and when the cut falls between two groups of four characters, a part of the
  file is returned as if it were the whole file.\<close>

lemma kube_read_truncates:
  "let K = kube_demo_env\<lparr>ke_rounds := \<lambda>_. [Round (Some ''YWJjZGVm'') None]\<rparr>;
     b = (fst kube_demo_running)\<lparr>kb_config := Some (kube_demo_config\<lparr>policy := default_policy\<lparr>max_output_bytes := 4\<rparr>\<rparr>)\<rparr> in
   b64encode ''abcdef'' = ''YWJjZGVm'' \<and> fst (kube_read_file K ''f'' (b, snd kube_demo_running)) = Inr ''abc''"
  by code_simp

text \<open>The image policy is not looked at.\<close>

lemma kube_ignores_image_policy:
  "let cfg = kube_demo_config\<lparr>policy := default_policy\<lparr>allowed_images := [''trusted'']\<rparr>\<rparr> in
   validate_image (policy cfg) (image_name cfg) \<noteq> Inr () \<and>
   fst (kube_create kube_demo_env cfg (new_kube ''default'' None None, kube_demo_world)) = Inr ()"
  by code_simp

end
