(* ===== verification/Bounded_Call.thy ===== *)
theory Bounded_Call
  imports Errors Formatting
begin

text \<open>
  \<open>src/agentnest/execution.py\<close>: a blocking call on a thread of its own, with a limit on the time its caller
  waits. The call goes on after the wait is over; its later effects are not seen here. Whether an exception is
  \<open>concurrent.futures.TimeoutError\<close> depends on the Python version (from 3.11 on it is every \<open>TimeoutError\<close>),
  so it is a parameter.
\<close>

text \<open>How far the call is when the caller stops waiting: over, or still running in the state it has reached.\<close>

datatype 's progress = Over | Still 's

definition run_with_timeout ::
  "(exn \<Rightarrow> bool) \<Rightarrow> ('s \<Rightarrow> 's progress) \<Rightarrow> (exn, 's, 'a) comp \<Rightarrow> rat \<Rightarrow> (exn, 's, unit) comp \<Rightarrow> (exn, 's, 'a) comp" where
  "run_with_timeout is_timeout at_limit operation timeout on_timeout = (\<lambda>s.
     let expired = next_do on_timeout (raise (Exn ExecutionTimeoutError
           (''execution exceeded '' @ fmt_g timeout @ '' seconds; the sandbox was destroyed''))) in
     case at_limit s of
       Still t \<Rightarrow> expired t
     | Over \<Rightarrow> try_except operation (\<lambda>e. if is_timeout e then expired else raise e) s)"

text \<open>A call that is over in time and does not raise a timeout of its own is not touched.\<close>

lemma run_in_time:
  assumes "at_limit s = Over" "operation s = (r, t)" "\<And>e. r = Inl e \<Longrightarrow> \<not> is_timeout e"
  shows "run_with_timeout is_timeout at_limit operation timeout on_timeout s = (r, t)"
  using assms by (cases r) (auto simp: run_with_timeout_def Let_def comp_defs)

text \<open>A call that is not over ends in \<open>on_timeout\<close> and a timeout, or in what \<open>on_timeout\<close> raises.\<close>

lemma run_too_long:
  assumes "at_limit s = Still t" "on_timeout t = (Inr (), u)"
  shows "\<exists>m. run_with_timeout is_timeout at_limit operation timeout on_timeout s = (Inl (Exn ExecutionTimeoutError m), u)"
  using assms by (auto simp: run_with_timeout_def Let_def comp_defs)

text \<open>A timeout that the call itself raises, in time, is taken for the end of the wait.\<close>

lemma own_timeout_destroys:
  assumes "at_limit s = Over" "operation s = (Inl e, t)" "is_timeout e" "on_timeout t = (Inr (), u)"
  shows "\<exists>m. run_with_timeout is_timeout at_limit operation timeout on_timeout s = (Inl (Exn ExecutionTimeoutError m), u)"
  using assms by (auto simp: run_with_timeout_def Let_def comp_defs)

end
