(* ===== verification/Json_Text.thy ===== *)
theory Json_Text
  imports Json
begin

text \<open>
  The text form of JSON, as far as the source uses \<open>json.dumps\<close> and \<open>json.loads\<close>: quoting a string (for the
  lines of a Dockerfile, the pattern of \<open>artifacts\<close> and the replies of a session) and parsing a document. A
  \<open>str\<close> is its UTF-8 encoding, so quoting works on its code points. The text of a float is a parameter; the
  constants \<open>NaN\<close> and \<open>Infinity\<close> and a lone surrogate, which Python accepts, are errors here, for they have no
  representation.
\<close>

section \<open>Code points\<close>

fun point_of :: "str \<Rightarrow> nat" where
  "point_of [a, b] = (code a - 192) * 64 + (code b - 128)"
| "point_of [a, b, c] = (code a - 224) * 4096 + (code b - 128) * 64 + (code c - 128)"
| "point_of [a, b, c, d] = (code a - 240) * 262144 + (code b - 128) * 4096 + (code c - 128) * 64 + (code d - 128)"
| "point_of (a # _) = code a"
| "point_of [] = 0"

function points :: "str \<Rightarrow> nat list" where
  "points [] = []"
| "points (b # bs) = point_of (b # take (seq_len b - 1) bs) # points (drop (seq_len b - 1) bs)"
  by pat_completeness auto
termination
  by (relation "measure length") auto

definition encode_point :: "nat \<Rightarrow> str" where
  "encode_point n =
     (if n < 128 then [char_of n]
      else if n < 2048 then [char_of (192 + n div 64), char_of (128 + n mod 64)]
      else if n < 65536 then [char_of (224 + n div 4096), char_of (128 + n div 64 mod 64), char_of (128 + n mod 64)]
      else [char_of (240 + n div 262144), char_of (128 + n div 4096 mod 64), char_of (128 + n div 64 mod 64),
        char_of (128 + n mod 64)])"

section \<open>Strings\<close>

definition quote_char :: char where
  "quote_char = CHR 0x22"

definition backslash :: char where
  "backslash = CHR 0x5C"

definition hex_digit :: "nat \<Rightarrow> char" where
  "hex_digit n = ''0123456789abcdef'' ! n"

definition hex4 :: "nat \<Rightarrow> str" where
  "hex4 n = [hex_digit (n div 4096 mod 16), hex_digit (n div 256 mod 16), hex_digit (n div 16 mod 16), hex_digit (n mod 16)]"

definition unicode_escape :: "nat \<Rightarrow> str" where
  "unicode_escape n = backslash # CHR ''u'' # hex4 n"

definition escape_point :: "nat \<Rightarrow> str" where
  "escape_point n =
     (if n = 34 then [backslash, quote_char]
      else if n = 92 then [backslash, backslash]
      else if n = 10 then [backslash, CHR ''n'']
      else if n = 13 then [backslash, CHR ''r'']
      else if n = 9 then [backslash, CHR ''t'']
      else if n = 12 then [backslash, CHR ''f'']
      else if n = 8 then [backslash, CHR ''b'']
      else if 32 \<le> n \<and> n \<le> 126 then [char_of n]
      else if n < 65536 then unicode_escape n
      else unicode_escape (55296 + (n - 65536) div 1024) @ unicode_escape (56320 + (n - 65536) mod 1024))"

definition json_quote :: "str \<Rightarrow> str" where
  "json_quote s = quote_char # concat (map escape_point (points s)) @ [quote_char]"

definition hex_value :: "char \<Rightarrow> nat option" where
  "hex_value c = (let n = code c in
     if 48 \<le> n \<and> n \<le> 57 then Some (n - 48) else if 97 \<le> n \<and> n \<le> 102 then Some (n - 87)
     else if 65 \<le> n \<and> n \<le> 70 then Some (n - 55) else None)"

fun read_hex4 :: "str \<Rightarrow> (nat \<times> str) option" where
  "read_hex4 (a # b # c # d # r) = (case (hex_value a, hex_value b, hex_value c, hex_value d) of
     (Some w, Some x, Some y, Some z) \<Rightarrow> Some (4096 * w + 256 * x + 16 * y + z, r) | _ \<Rightarrow> None)"
| "read_hex4 _ = None"

text \<open>The digits after \<open>\u\<close>: one unit, or a surrogate pair.\<close>

definition read_unicode :: "str \<Rightarrow> (nat \<times> str) option" where
  "read_unicode s = (case read_hex4 s of None \<Rightarrow> None | Some (n, r) \<Rightarrow>
     if 55296 \<le> n \<and> n \<le> 56319 then
       (if take 2 r = [backslash, CHR ''u''] then
          (case read_hex4 (drop 2 r) of None \<Rightarrow> None | Some (m, q) \<Rightarrow>
             if 56320 \<le> m \<and> m \<le> 57343 then Some (65536 + (n - 55296) * 1024 + (m - 56320), q) else None)
        else None)
     else if 56320 \<le> n \<and> n \<le> 57343 then None else Some (n, r))"

definition simple_escape :: "char \<Rightarrow> char option" where
  "simple_escape e =
     (if e = quote_char \<or> e = backslash \<or> e = CHR ''/'' then Some e
      else if e = CHR ''n'' then Some (CHR 10) else if e = CHR ''r'' then Some (CHR 13)
      else if e = CHR ''t'' then Some (CHR 9) else if e = CHR ''f'' then Some (CHR 12)
      else if e = CHR ''b'' then Some (CHR 8) else None)"

lemma read_hex4_length: "read_hex4 s = Some (n, r) \<Longrightarrow> length r < length s"
  by (cases s rule: read_hex4.cases) (auto split: option.splits)

lemma read_unicode_length: "read_unicode s = Some (n, r) \<Longrightarrow> length r < length s"
  by (auto simp: read_unicode_def split: option.splits if_splits dest!: read_hex4_length)

text \<open>The rest of a string, after its opening quote.\<close>

function (sequential) read_string :: "str \<Rightarrow> (str \<times> str) option" where
  "read_string [] = None"
| "read_string (c # cs) =
     (if c = quote_char then Some ([], cs)
      else if c = backslash then
        (case cs of [] \<Rightarrow> None
         | e # es \<Rightarrow> if e = CHR ''u''
             then (case read_unicode es of None \<Rightarrow> None | Some (n, r) \<Rightarrow>
                 map_option (\<lambda>(t, q). (encode_point n @ t, q)) (read_string r))
             else (case simple_escape e of None \<Rightarrow> None | Some x \<Rightarrow>
                 map_option (\<lambda>(t, q). (x # t, q)) (read_string es)))
      else if code c < 32 then None
      else map_option (\<lambda>(t, q). (c # t, q)) (read_string cs))"
  by pat_completeness auto
termination
  by (relation "measure length") (auto dest: read_unicode_length)

lemma read_string_length: "read_string s = Some (t, r) \<Longrightarrow> length r < length s"
  by (induction s arbitrary: t r rule: read_string.induct)
    (fastforce split: if_splits list.splits option.splits dest: read_unicode_length)+

section \<open>Quoting is undone by reading\<close>

lemma hex_value_digit: "n < 16 \<Longrightarrow> hex_value (hex_digit n) = Some n"
proof -
  have "\<forall>n \<in> set [0..<16]. hex_value (hex_digit n) = Some n" by code_simp
  then show "n < 16 \<Longrightarrow> hex_value (hex_digit n) = Some n" by simp
qed

lemma read_hex4_hex4: "n < 65536 \<Longrightarrow> read_hex4 (hex4 n @ r) = Some (n, r)"
proof -
  assume n: "n < 65536"
  have "n mod (16 * 16) = 16 * (n div 16 mod 16) + n mod 16" "n mod (256 * 16) = 256 * (n div 256 mod 16) + n mod 256"
    "n mod (4096 * 16) = 4096 * (n div 4096 mod 16) + n mod 4096" by (rule mod_mult2_eq)+
  with n have "4096 * (n div 4096 mod 16) + 256 * (n div 256 mod 16) + 16 * (n div 16 mod 16) + n mod 16 = n" by simp
  from n this show ?thesis by (simp add: hex4_def hex_value_digit)
qed

lemma length_hex4 [simp]: "length (hex4 n) = 4"
  by (simp add: hex4_def)

definition scalar :: "nat \<Rightarrow> bool" where
  "scalar n \<longleftrightarrow> n < 55296 \<or> 57343 < n \<and> n < 1114112"

lemma read_unicode_escape:
  assumes "scalar n"
  shows "n < 65536 \<Longrightarrow> read_unicode (hex4 n @ r) = Some (n, r)"
    "65536 \<le> n \<Longrightarrow> read_unicode (hex4 (55296 + (n - 65536) div 1024) @
       unicode_escape (56320 + (n - 65536) mod 1024) @ r) = Some (n, r)"
proof -
  show "n < 65536 \<Longrightarrow> read_unicode (hex4 n @ r) = Some (n, r)"
    using assms by (auto simp: read_unicode_def read_hex4_hex4 scalar_def)
  assume n: "65536 \<le> n"
  define hi lo where "hi = 55296 + (n - 65536) div 1024" and "lo = 56320 + (n - 65536) mod 1024"
  have "n < 1114112" using assms n by (simp add: scalar_def)
  then have "(n - 65536) div 1024 < 1024" by (simp add: less_mult_imp_div_less)
  moreover have "(n - 65536) mod 1024 < 1024" by simp
  ultimately have b: "55296 \<le> hi" "hi \<le> 56319" "56320 \<le> lo" "lo \<le> 57343" by (simp_all add: hi_def lo_def)
  have "65536 + (hi - 55296) * 1024 + (lo - 56320) = n" using n by (simp add: hi_def lo_def)
  with b show "read_unicode (hex4 hi @ unicode_escape lo @ r) = Some (n, r)"
    using read_hex4_hex4 [of hi "unicode_escape lo @ r"] read_hex4_hex4 [of lo r]
    by (simp add: read_unicode_def unicode_escape_def)
qed

lemma read_escape:
  assumes "scalar n"
  shows "read_string (escape_point n @ s) = map_option (\<lambda>(t, q). (encode_point n @ t, q)) (read_string s)"
proof -
  have u: "read_string (backslash # CHR ''u'' # es) = (case read_unicode es of None \<Rightarrow> None | Some (n, r) \<Rightarrow>
      map_option (\<lambda>(t, q). (encode_point n @ t, q)) (read_string r))" for es
    by (simp add: backslash_def quote_char_def)
  have e: "read_string (backslash # e # es) = map_option (\<lambda>(t, q). (x # t, q)) (read_string es)"
    if "e \<noteq> CHR ''u''" "simple_escape e = Some x" for e es x
    using that by (simp add: backslash_def quote_char_def)
  consider (big) "65536 \<le> n" | (escape) "n < 65536" "n < 32 \<or> 126 < n" "n \<notin> {8, 9, 10, 12, 13}"
    | (simple) "n \<in> {8, 9, 10, 12, 13, 34, 92}" | (plain) "32 \<le> n" "n \<le> 126" "n \<noteq> 34" "n \<noteq> 92" by fastforce
  then show ?thesis
  proof cases
    case big
    then show ?thesis using read_unicode_escape(2) [OF assms big, of s]
      by (simp add: escape_point_def unicode_escape_def [of "55296 + x" for x] u del: read_string.simps)
  next
    case escape
    then have "escape_point n = backslash # CHR ''u'' # hex4 n" by (auto simp: escape_point_def unicode_escape_def)
    then show ?thesis using read_unicode_escape(1) [OF assms escape(1), of s] by (simp add: u del: read_string.simps)
  next
    case simple
    have "\<forall>n \<in> {8, 9, 10, 12, 13, 34, 92}. \<exists>d x. escape_point n = [backslash, d] \<and> d \<noteq> CHR ''u'' \<and>
        simple_escape d = Some x \<and> encode_point n = [x]"
      by (simp add: escape_point_def encode_point_def simple_escape_def backslash_def quote_char_def, code_simp)
    with simple obtain d x where "escape_point n = [backslash, d]" "d \<noteq> CHR ''u''" "simple_escape d = Some x" "encode_point n = [x]"
      by blast
    then show ?thesis by (simp add: e del: read_string.simps)
  next
    case plain
    then have "char_of n \<noteq> quote_char" "char_of n \<noteq> backslash"
      by (auto simp: quote_char_def backslash_def dest: arg_cong [where f = code])
    with plain show ?thesis by (simp add: escape_point_def encode_point_def)
  qed
qed

lemma read_escapes: "list_all scalar ns \<Longrightarrow>
    read_string (concat (map escape_point ns) @ quote_char # r) = Some (concat (map encode_point ns), r)"
proof (induction ns)
  case (Cons n ns)
  then show ?case by (simp add: read_escape del: read_string.simps)
qed simp

text \<open>The code points of a \<open>str\<close> are scalar values, and encode to it.\<close>

lemma cont_value: "128 \<le> code c \<Longrightarrow> code c \<le> 191 \<Longrightarrow> \<exists>y < 64. code c = 128 + y \<and> c = char_of (128 + y)"
  by (rule exI [of _ "code c - 128"]) (auto simp: char_of_eq_iff)

lemma lead_value: "m \<le> code c \<Longrightarrow> k \<le> m \<Longrightarrow> \<exists>x. code c = k + x \<and> c = char_of (k + x)"
  by (rule exI [of _ "code c - k"]) simp

lemma base_64: "z < 64 \<Longrightarrow> (k * 64 + z) div 64 = k \<and> (k * 64 + z) mod 64 = z" for k z :: nat
  by simp

lemma div_64: "m div 4096 = m div 64 div 64" "m div 262144 = m div 64 div 64 div 64" for m :: nat
  by (simp_all flip: div_mult2_eq)

lemma encode_three:
  assumes "good_tail b bs = seq_len b - 1" and three: "224 \<le> code b" "code b \<le> 239"
  shows "scalar (point_of (b # take (seq_len b - 1) bs)) \<and>
    encode_point (point_of (b # take (seq_len b - 1) bs)) = b # take (seq_len b - 1) bs"
proof -
  have n: "seq_len b = 3" using three by (simp add: seq_len_def)
  with assms(1) obtain c d cs where bs: "bs = c # d # cs" "second_ok b c" "is_cont d"
    by (cases bs; cases "tl bs") (auto split: if_splits)
  with three obtain y z where y: "y < 64" "code c = 128 + y" "c = char_of (128 + y)"
      and z: "z < 64" "code d = 128 + z" "d = char_of (128 + z)"
    using cont_value [of c] cont_value [of d] by (auto simp: second_ok_def is_cont_def Let_def split: if_splits)
  obtain x where x: "code b = 224 + x" "b = char_of (224 + x)" using lead_value [of 224 b 224, simplified] three by blast
  have low: "x < 16" "x = 0 \<longrightarrow> 32 \<le> y" "x = 13 \<longrightarrow> y < 32"
    using three x bs(2) y by (auto simp: second_ok_def Let_def split: if_splits)
  define m where "m = (x * 64 + y) * 64 + z"
  have pt: "x * 4096 + y * 64 + z = m" by (simp add: m_def)
  have m: "m div 4096 = x" "m div 64 mod 64 = y" "m mod 64 = z" 
    using base_64 [OF z(1), of "x * 64 + y", folded m_def] base_64 [OF y(1), of x] by (simp_all only: div_64)
  have m0: "2048 \<le> m" using low(2) pt by (cases "x = 0") linarith+
  have m1: "m < 65536" using low(1) y(1) z(1) pt by linarith
  consider "x \<le> 12" | "x = 13" | "14 \<le> x" by linarith
  then have "m < 55296 \<or> 57343 < m" using low(3) y(1) z(1) pt by cases linarith+
  with m1 have "scalar m" by (auto simp: scalar_def)
  note m0 m1 this
  then show ?thesis using n bs x y z m by (simp add: encode_point_def pt)
qed

lemma encode_four:
  assumes "good_tail b bs = seq_len b - 1" and four: "240 \<le> code b" "code b \<le> 244"
  shows "scalar (point_of (b # take (seq_len b - 1) bs)) \<and>
    encode_point (point_of (b # take (seq_len b - 1) bs)) = b # take (seq_len b - 1) bs"
proof -
  have n: "seq_len b = 4" using four by (simp add: seq_len_def)
  with assms(1) obtain c d e cs where bs: "bs = c # d # e # cs" "second_ok b c" "is_cont d" "is_cont e"
    by (cases bs; cases "tl bs"; cases "tl (tl bs)") (auto split: if_splits)
  with four obtain y z w where y: "y < 64" "code c = 128 + y" "c = char_of (128 + y)"
      and z: "z < 64" "code d = 128 + z" "d = char_of (128 + z)" and w: "w < 64" "code e = 128 + w" "e = char_of (128 + w)"
    using cont_value [of c] cont_value [of d] cont_value [of e]
    by (auto simp: second_ok_def is_cont_def Let_def split: if_splits)
  obtain x where x: "code b = 240 + x" "b = char_of (240 + x)" using lead_value [of 240 b 240, simplified] four by blast
  have low: "x \<le> 4" "x = 0 \<longrightarrow> 16 \<le> y" "x = 4 \<longrightarrow> y < 16"
    using four x bs(2) y by (auto simp: second_ok_def Let_def split: if_splits)
  define m where "m = ((x * 64 + y) * 64 + z) * 64 + w"
  have pt: "x * 262144 + y * 4096 + z * 64 + w = m" by (simp add: m_def)
  have m: "m div 262144 = x" "m div 4096 mod 64 = y" "m div 64 mod 64 = z" "m mod 64 = w"
    using base_64 [OF w(1), of "(x * 64 + y) * 64 + z", folded m_def] base_64 [OF z(1), of "x * 64 + y"]
      base_64 [OF y(1), of x] by (simp_all only: div_64)
  have m0: "65536 \<le> m" using low(2) pt by (cases "x = 0") linarith+
  have "m < 1114112" using low(1,3) y(1) z(1) w(1) pt by (cases "x = 4") linarith+
  with m0 have "scalar m" by (auto simp: scalar_def)
  note m0 this
  then show ?thesis using n bs x y z w m by (simp add: encode_point_def pt)
qed

lemma encode_sequence:
  assumes "seq_len b \<noteq> 0" "good_tail b bs = seq_len b - 1"
  shows "scalar (point_of (b # take (seq_len b - 1) bs)) \<and>
    encode_point (point_of (b # take (seq_len b - 1) bs)) = b # take (seq_len b - 1) bs"
proof -
  consider (one) "code b < 128" | (two) "194 \<le> code b" "code b \<le> 223" | (three) "224 \<le> code b" "code b \<le> 239"
    | (four) "240 \<le> code b" "code b \<le> 244" using assms(1) by (auto simp: seq_len_def Let_def split: if_splits)
  then show ?thesis
  proof cases
    case one
    then have "seq_len b = 1" by (simp add: seq_len_def)
    with one show ?thesis by (simp add: scalar_def encode_point_def)
  next
    case two
    then have n: "seq_len b = 2" by (simp add: seq_len_def)
    with assms obtain c cs where bs: "bs = c # cs" "second_ok b c" by (cases bs) (auto split: if_splits)
    with two obtain y where y: "y < 64" "code c = 128 + y" "c = char_of (128 + y)"
      using cont_value [of c] by (auto simp: second_ok_def Let_def)
    obtain x where x: "code b = 192 + x" "b = char_of (192 + x)" using lead_value [of 194 b 192, simplified] two by blast
    then have "2 \<le> x" "x < 32" using two by simp_all
    with n bs x y show ?thesis by (simp add: scalar_def encode_point_def)
  next
    case three
    then show ?thesis using encode_three [OF assms(2)] by blast
  next
    case four
    then show ?thesis using encode_four [OF assms(2)] by blast
  qed
qed

lemma points_valid: "utf8_valid s \<Longrightarrow> list_all scalar (points s) \<and> concat (map encode_point (points s)) = s"
proof (induction s rule: utf8_valid.induct)
  case (2 b bs)
  with encode_sequence [of b bs] show ?case by simp
qed simp

lemma read_quote:
  assumes "utf8_valid s"
  shows "read_string (tl (json_quote s) @ r) = Some (s, r)"
  using points_valid [OF assms] read_escapes [of "points s" r] by (simp add: json_quote_def)

end
