(* ===== verification/Json_Parse.thy ===== *)
theory Json_Parse
  imports Json_Text
begin

text \<open>
  \<open>json.dumps\<close> and \<open>json.loads\<close> on documents. The parser recurses on what is left of the text; its fuel is
  twice the length of the text and more, and \<open>fuel_enough\<close> shows that more changes nothing. The main fact is
  that a document without floats is read back as it was.
\<close>

section \<open>Writing\<close>

text \<open>\<open>fr\<close> is the text of a float, \<open>float.__repr__\<close>.\<close>

primrec json_dumps :: "(rat \<Rightarrow> str) \<Rightarrow> json \<Rightarrow> str" where
  "json_dumps fr JNull = ''null''"
| "json_dumps fr (JBool b) = (if b then ''true'' else ''false'')"
| "json_dumps fr (JInt n) = int_text n"
| "json_dumps fr (JFloat q) = fr q"
| "json_dumps fr (JStr s) = json_quote s"
| "json_dumps fr (JList vs) = CHR ''['' # join_with '', '' (map (json_dumps fr) vs) @ '']''"
| "json_dumps fr (JObj d) = CHR ''{'' # join_with '', '' (map (\<lambda>(k, t). json_quote k @ '': '' @ t) (map (map_prod id (json_dumps fr)) d)) @ ''}''"

section \<open>Reading\<close>

definition json_space :: "char \<Rightarrow> bool" where
  "json_space c \<longleftrightarrow> c \<in> {CHR '' '', CHR 9, CHR 10, CHR 13}"

definition skip_ws :: "str \<Rightarrow> str" where
  "skip_ws s = dropWhile json_space s"

text \<open>A number: \<open>-?(0|[1-9][0-9]*)(\.[0-9]+)?([eE][-+]?[0-9]+)?\<close>.\<close>

definition read_int_part :: "str \<Rightarrow> (str \<times> str) option" where
  "read_int_part s = (case s of [] \<Rightarrow> None
     | c # r \<Rightarrow> if c = CHR ''0'' then Some ([c], r)
         else if is_digit c then Some (takeWhile is_digit s, dropWhile is_digit s) else None)"

definition read_fraction :: "str \<Rightarrow> (str \<times> str) option" where
  "read_fraction s = (case s of [] \<Rightarrow> None
     | c # r \<Rightarrow> if c = CHR ''.'' \<and> takeWhile is_digit r \<noteq> [] then Some (takeWhile is_digit r, dropWhile is_digit r) else None)"

definition read_exponent :: "str \<Rightarrow> (int \<times> str) option" where
  "read_exponent s = (case s of [] \<Rightarrow> None
     | c # r \<Rightarrow>
         let t = (case r of [] \<Rightarrow> r | x # xs \<Rightarrow> if x = CHR ''+'' \<or> x = CHR ''-'' then xs else r);
             n = int (digits_value (takeWhile is_digit t))
         in if (c = CHR ''e'' \<or> c = CHR ''E'') \<and> takeWhile is_digit t \<noteq> []
            then Some (if r \<noteq> [] \<and> hd r = CHR ''-'' then - n else n, dropWhile is_digit t) else None)"

definition power_of_ten :: "int \<Rightarrow> rat" where
  "power_of_ten e = (if 0 \<le> e then 10 ^ nat e else 1 / 10 ^ nat (- e))"

definition read_number :: "str \<Rightarrow> (json \<times> str) option" where
  "read_number s =
     (let neg = (s \<noteq> [] \<and> hd s = CHR ''-'') in
      case read_int_part (if neg then tl s else s) of None \<Rightarrow> None | Some (digits, r) \<Rightarrow>
        let n = (if neg then - int (digits_value digits) else int (digits_value digits));
            (frac, r1) = (case read_fraction r of None \<Rightarrow> ([], r) | Some x \<Rightarrow> x);
            (e, r2) = (case read_exponent r1 of None \<Rightarrow> (None, r1) | Some (x, q) \<Rightarrow> (Some x, q))
        in if frac = [] \<and> e = None then Some (JInt n, r)
           else let f = rat_of_nat (digits_value frac) / 10 ^ length frac;
                    q = of_int (int (digits_value digits)) + f
                in Some (JFloat ((if neg then - q else q) * power_of_ten (case e of None \<Rightarrow> 0 | Some x \<Rightarrow> x)), r2))"

definition read_atom :: "str \<Rightarrow> (json \<times> str) option" where
  "read_atom s =
     (if prefix ''null'' s then Some (JNull, drop 4 s)
      else if prefix ''true'' s then Some (JBool True, drop 4 s)
      else if prefix ''false'' s then Some (JBool False, drop 5 s)
      else read_number s)"

text \<open>A value; the elements of an array from the first on; the members of an object from the quote of the first
  key on. A later member replaces an earlier one of the same key.\<close>

fun json_value :: "nat \<Rightarrow> str \<Rightarrow> (json \<times> str) option"
  and json_elements :: "nat \<Rightarrow> str \<Rightarrow> (json list \<times> str) option"
  and json_members :: "nat \<Rightarrow> str \<Rightarrow> ((str \<times> json) list \<times> str) option" where
  "json_value 0 s = None"
| "json_value (Suc n) s =
     (if s = [] then None
      else if hd s = quote_char then map_option (\<lambda>(t, r). (JStr t, r)) (read_string (tl s))
      else if hd s = CHR ''['' then
        (let t = skip_ws (tl s) in
         if t \<noteq> [] \<and> hd t = CHR '']'' then Some (JList [], tl t)
         else map_option (\<lambda>(vs, r). (JList vs, r)) (json_elements n t))
      else if hd s = CHR ''{'' then
        (let t = skip_ws (tl s) in
         if t \<noteq> [] \<and> hd t = CHR ''}'' then Some (JObj [], tl t)
         else map_option (\<lambda>(d, r). (JObj (dict_merge [] d), r)) (json_members n t))
      else read_atom s)"
| "json_elements 0 s = None"
| "json_elements (Suc n) s = (case json_value n s of None \<Rightarrow> None | Some (v, r) \<Rightarrow>
     (let t = skip_ws r in
      if t \<noteq> [] \<and> hd t = CHR '']'' then Some ([v], tl t)
      else if t \<noteq> [] \<and> hd t = CHR '','' then map_option (\<lambda>(vs, q). (v # vs, q)) (json_elements n (skip_ws (tl t)))
      else None))"
| "json_members 0 s = None"
| "json_members (Suc n) s =
     (if s = [] \<or> hd s \<noteq> quote_char then None
      else case read_string (tl s) of None \<Rightarrow> None | Some (k, r) \<Rightarrow>
        (let t = skip_ws r in
         if t = [] \<or> hd t \<noteq> CHR '':'' then None
         else case json_value n (skip_ws (tl t)) of None \<Rightarrow> None | Some (v, r') \<Rightarrow>
           (let u = skip_ws r' in
            if u \<noteq> [] \<and> hd u = CHR ''}'' then Some ([(k, v)], tl u)
            else if u \<noteq> [] \<and> hd u = CHR '','' then map_option (\<lambda>(d, q). ((k, v) # d, q)) (json_members n (skip_ws (tl u)))
            else None)))"

text \<open>\<open>json.loads(text)\<close>; the exception is a \<open>JSONDecodeError\<close>, a \<open>ValueError\<close>.\<close>

definition json_loads :: "str \<Rightarrow> exn + json" where
  "json_loads s = (case json_value (2 * length s + 1) (skip_ws s) of
     None \<Rightarrow> Inl (value_error ''Expecting value'')
   | Some (v, r) \<Rightarrow> if skip_ws r = [] then Inr v else Inl (value_error ''Extra data''))"

section \<open>The fuel is enough\<close>

lemma skip_ws_length: "length (skip_ws s) \<le> length s"
  by (simp add: skip_ws_def length_dropWhile_le)

lemma skip_tl_length: "length (skip_ws (tl s)) \<le> length s - 1"
  using skip_ws_length [of "tl s"] by simp

lemma takeWhile_rest: "takeWhile P s \<noteq> [] \<Longrightarrow> length (dropWhile P s) < length s"
  by (cases s) (auto simp: le_imp_less_Suc length_dropWhile_le split: if_splits)

lemma read_int_part_length: "read_int_part s = Some (d, r) \<Longrightarrow> length r < length s"
  by (auto simp: read_int_part_def le_imp_less_Suc length_dropWhile_le split: list.splits if_splits)

lemma read_fraction_length: "read_fraction s = Some (d, r) \<Longrightarrow> length r \<le> length s"
  by (auto simp: read_fraction_def le_SucI length_dropWhile_le split: list.splits if_splits)

lemma read_exponent_length: "read_exponent s = Some (d, r) \<Longrightarrow> length r \<le> length s"
  by (auto simp: read_exponent_def Let_def le_SucI length_dropWhile_le split: list.splits if_splits)

lemma read_number_length: "read_number s = Some (v, r) \<Longrightarrow> length r < length s"
  unfolding read_number_def Let_def
  by (auto split: option.splits prod.splits if_splits
      dest!: read_int_part_length read_fraction_length read_exponent_length)

lemma read_atom_length: "read_atom s = Some (v, r) \<Longrightarrow> length r < length s"
  by (auto simp: read_atom_def prefix_def split: if_splits dest: read_number_length)

lemma json_rest_shorter:
  "json_value n s = Some (v, r) \<Longrightarrow> length r < length s"
  "json_elements n s = Some (vs, r) \<Longrightarrow> length r < length s"
  "json_members n s = Some (d, r) \<Longrightarrow> length r < length s"
proof (induction n s and n s and n s arbitrary: v r and vs r and d r rule: json_value_json_elements_json_members.induct)
  case (2 n s)
  have tail: "s \<noteq> [] \<Longrightarrow> length (skip_ws (tl s)) < length s" using skip_ws_length [of "tl s"] by (cases s) auto
  have sub: "length (tl (skip_ws (tl s))) < length s" if "s \<noteq> []" using tail [OF that] by (cases "skip_ws (tl s)") auto
  have str: "length r < length s" if "s \<noteq> []" "read_string (tl s) = Some (t, r)" for t r
    using read_string_length [OF that(2)] that(1) by (cases s) auto
  from 2(3) show ?case
    using tail sub str 2(1,2) by (fastforce simp: Let_def split: if_splits dest: read_atom_length)
next
  case (4 n s)
  then obtain w q where w: "json_value n s = Some (w, q)" by (auto split: option.splits)
  then have q: "length q < length s" by (rule 4(1))
  then have t: "length (skip_ws q) < length s" using skip_ws_length [of q] by simp
  have "length (tl (skip_ws q)) \<le> length (skip_ws q)" "length (skip_ws (tl (skip_ws q))) \<le> length (tl (skip_ws q))"
    by (simp, rule skip_ws_length)
  with 4(2) [OF w refl refl] 4(3) w t show ?case by (fastforce simp: Let_def split: if_splits)
next
  case (6 n s)
  then obtain k q where k: "s \<noteq> []" "hd s = quote_char" "read_string (tl s) = Some (k, q)"
    by (auto split: if_splits option.splits)
  then have q: "length (skip_ws q) < length s"
    using read_string_length [OF k(3)] skip_ws_length [of q] by (cases s) auto
  obtain w p where t: "skip_ws q \<noteq> []" "hd (skip_ws q) = CHR '':''" and w: "json_value n (skip_ws (tl (skip_ws q))) = Some (w, p)"
    using 6(3) k by (auto simp: Let_def split: if_splits option.splits)
  have "length (skip_ws (tl (skip_ws q))) \<le> length (skip_ws q)" using skip_ws_length [of "tl (skip_ws q)"] by simp
  moreover have "length p < length (skip_ws (tl (skip_ws q)))" using 6(1) [OF _ k(3) refl refl] k t w by auto
  ultimately have p: "length (skip_ws p) < length s" using q skip_ws_length [of p] by simp
  have "length (tl (skip_ws p)) \<le> length (skip_ws p)" "length (skip_ws (tl (skip_ws p))) \<le> length (tl (skip_ws p))"
    by (simp, rule skip_ws_length)
  with 6(2) [OF _ k(3) refl refl _ w refl refl] 6(3) k t w p show ?case by (fastforce simp: Let_def split: if_splits)
qed simp_all

lemma fuel_enough:
  "2 * length s + 1 \<le> n \<Longrightarrow> 2 * length s + 1 \<le> m \<Longrightarrow> json_value m s = json_value n s"
  "2 * length s + 2 \<le> n \<Longrightarrow> 2 * length s + 2 \<le> m \<Longrightarrow> json_elements m s = json_elements n s"
  "2 * length s + 2 \<le> n \<Longrightarrow> 2 * length s + 2 \<le> m \<Longrightarrow> json_members m s = json_members n s"
proof (induction n arbitrary: s m)
  case (Suc n)
  {
    case 1
    then obtain k where m: "m = Suc k" by (cases m) auto
    have "json_elements k (skip_ws (tl s)) = json_elements n (skip_ws (tl s))"
      "json_members k (skip_ws (tl s)) = json_members n (skip_ws (tl s))" if "s \<noteq> []"
    proof -
      have "2 * length (skip_ws (tl s)) + 2 \<le> n" "2 * length (skip_ws (tl s)) + 2 \<le> k"
        using skip_tl_length [of s] 1 that m by (cases s; simp)+
      then show "json_elements k (skip_ws (tl s)) = json_elements n (skip_ws (tl s))"
        "json_members k (skip_ws (tl s)) = json_members n (skip_ws (tl s))" by (simp_all add: Suc.IH(2,3) [of "skip_ws (tl s)" k])
    qed
    then show ?case by (cases "s = []") (simp_all only: m json_value.simps Let_def if_True not_False_eq_True refl)
  next
    case 2
    then obtain k where m: "m = Suc k" by (cases m) auto
    have v: "json_value k s = json_value n s" by (rule Suc.IH(1)) (use 2 m in simp_all)
    have "json_elements k (skip_ws (tl (skip_ws r))) = json_elements n (skip_ws (tl (skip_ws r)))"
      if "json_value n s = Some (w, r)" for w r
    proof (rule Suc.IH(2))
      have "length (skip_ws (tl (skip_ws r))) < length s"
        using json_rest_shorter(1) [OF that(1)] skip_tl_length [of "skip_ws r"] skip_ws_length [of r] by simp
      then show "2 * length (skip_ws (tl (skip_ws r))) + 2 \<le> n" "2 * length (skip_ws (tl (skip_ws r))) + 2 \<le> k"
        using 2 m by simp_all
    qed
    then show ?case by (simp add: m v Let_def split: option.split)
  next
    case 3
    then obtain k where m: "m = Suc k" by (cases m) auto
    have shorter: "length (skip_ws (tl (skip_ws r))) < length s" if "s \<noteq> []" "read_string (tl s) = Some (x, r)" for x r
      using read_string_length [OF that(2)] skip_tl_length [of "skip_ws r"] skip_ws_length [of r] that(1) by (cases s) auto
    have v: "json_value k (skip_ws (tl (skip_ws r))) = json_value n (skip_ws (tl (skip_ws r)))"
      if "s \<noteq> []" "read_string (tl s) = Some (x, r)" for x r
      by (rule Suc.IH(1)) (use shorter [OF that] 3 m in simp_all)
    have d: "json_members k (skip_ws (tl (skip_ws q))) = json_members n (skip_ws (tl (skip_ws q)))"
      if "s \<noteq> []" "read_string (tl s) = Some (x, r)" "json_value n (skip_ws (tl (skip_ws r))) = Some (w, q)" for x r w q
    proof (rule Suc.IH(3))
      have "length (skip_ws (tl (skip_ws q))) < length s"
        using json_rest_shorter(1) [OF that(3)] shorter [OF that(1,2)] skip_tl_length [of "skip_ws q"] skip_ws_length [of q] by simp
      then show "2 * length (skip_ws (tl (skip_ws q))) + 2 \<le> n" "2 * length (skip_ws (tl (skip_ws q))) + 2 \<le> k"
        using 3 m by simp_all
    qed
    show ?case by (simp add: m Let_def v d split: option.split)
  }
qed simp_all

section \<open>What was written is read back\<close>

text \<open>Documents without floats, whose texts are well-formed and whose keys differ.\<close>

primrec json_wf :: "json \<Rightarrow> bool" where
  "json_wf JNull = True" | "json_wf (JBool b) = True" | "json_wf (JInt n) = True" | "json_wf (JFloat q) = False"
| "json_wf (JStr s) = utf8_valid s"
| "json_wf (JList vs) = list_all id (map json_wf vs)"
| "json_wf (JObj d) = (distinct (map fst d) \<and> list_all (\<lambda>(k, w). utf8_valid k \<and> w) (map (map_prod id json_wf) d))"

text \<open>What may follow a number.\<close>

definition number_ends :: "str \<Rightarrow> bool" where
  "number_ends r \<longleftrightarrow> r = [] \<or> hd r \<in> {CHR '','', CHR '']'', CHR ''}''}"

lemma nat_digits_head: "0 < n \<Longrightarrow> hd (nat_digits n) \<noteq> CHR ''0''"
proof (induction n rule: nat_digits.induct)
  case (1 n)
  show ?case
  proof (cases "n < 10")
    case True
    have "char_of (48 + n) \<noteq> CHR ''0''" using 1(2) True by (auto dest: arg_cong [where f = code])
    with True show ?thesis by (subst nat_digits.simps) simp
  next
    case False
    with 1(1) show ?thesis by (subst nat_digits.simps) simp
  qed
qed

lemma takeWhile_digits: "list_all is_digit ds \<Longrightarrow> number_ends r \<Longrightarrow>
    takeWhile is_digit (ds @ r) = ds \<and> dropWhile is_digit (ds @ r) = r"
  by (induction ds) (cases r; auto simp: number_ends_def is_digit_def)+

lemma read_digits:
  assumes "number_ends r"
  shows "read_int_part (nat_digits n @ r) = Some (nat_digits n, r)"
proof (cases "n = 0")
  case True
  have "nat_digits 0 = ''0''" by code_simp
  then show ?thesis by (simp add: True read_int_part_def)
next
  case False
  then obtain c ds where n: "nat_digits n = c # ds" "c \<noteq> CHR ''0''" "is_digit c"
    using nat_digits_head [of n] nat_digits_all [of n] nat_digits_nonempty [of n] by (cases "nat_digits n") auto
  have "list_all is_digit (nat_digits n)" using nat_digits_all [of n] by (simp add: list_all_iff)
  from takeWhile_digits [OF this assms] n show ?thesis by (simp add: read_int_part_def)
qed

lemma no_fraction: "number_ends r \<Longrightarrow> read_fraction r = None \<and> read_exponent r = None"
  by (cases r) (auto simp: number_ends_def read_fraction_def read_exponent_def Let_def)

lemma read_int:
  assumes "number_ends r"
  shows "read_number (int_text n @ r) = Some (JInt n, r)"
proof (cases "n < 0")
  case True
  then show ?thesis using read_digits [OF assms, of "nat (- n)"] no_fraction [OF assms]
    by (simp add: read_number_def int_text_def Let_def)
next
  case False
  obtain c ds where d: "nat_digits (nat n) = c # ds" "is_digit c"
    using nat_digits_all [of "nat n"] nat_digits_nonempty [of "nat n"] by (cases "nat_digits (nat n)") auto
  then have "c \<noteq> CHR ''-''" by (auto simp: is_digit_def)
  with False d show ?thesis using read_digits [OF assms, of "nat n"] no_fraction [OF assms] nat_digits_value [of "nat n"]
    by (simp add: read_number_def int_text_def Let_def)
qed

lemma int_text_head: "\<exists>c s. int_text n = c # s \<and> (is_digit c \<or> c = CHR ''-'')"
  using nat_digits_all [of "nat n"] nat_digits_nonempty [of "nat n"] by (cases "nat_digits (nat n)") (auto simp: int_text_def)

text \<open>A written value starts with none of the characters that end or separate values.\<close>

lemma dumps_head: "json_wf v \<Longrightarrow> \<exists>c s. json_dumps fr v = c # s \<and> \<not> json_space c \<and> c \<notin> {CHR '']'', CHR ''}'', CHR '',''}"
  using int_text_head
  by (cases v) (auto simp: json_quote_def quote_char_def json_space_def is_digit_def, fastforce simp: is_digit_def)

lemma skip_dumps [simp]: "json_wf v \<Longrightarrow> skip_ws (json_dumps fr v @ r) = json_dumps fr v @ r"
  using dumps_head [of v fr] by (auto simp: skip_ws_def)

lemma skip_ws_char [simp]: "\<not> json_space c \<Longrightarrow> skip_ws (c # s) = c # s" "json_space c \<Longrightarrow> skip_ws (c # s) = skip_ws s"
  by (simp_all add: skip_ws_def)

lemma json_space_chars [simp]: "json_space CHR '' ''" "\<not> json_space CHR '']''" "\<not> json_space CHR ''}''"
  "\<not> json_space CHR '',''" "\<not> json_space CHR '':''" "\<not> json_space quote_char"
  by (simp_all add: json_space_def quote_char_def)

text \<open>\<open>reads v\<close>: with fuel for its text, the value is read back before whatever may follow.\<close>

definition reads :: "(rat \<Rightarrow> str) \<Rightarrow> json \<Rightarrow> bool" where
  "reads fr v \<longleftrightarrow> (\<forall>n r. number_ends r \<longrightarrow> 2 * length (json_dumps fr v) + 1 \<le> n \<longrightarrow>
     json_value n (json_dumps fr v @ r) = Some (v, r))"

lemma reads_atom: "\<not> json_space c \<Longrightarrow> json_dumps fr v = c # s \<Longrightarrow> c \<notin> {quote_char, CHR ''['', CHR ''{''} \<Longrightarrow>
    (\<And>r. number_ends r \<Longrightarrow> read_atom (json_dumps fr v @ r) = Some (v, r)) \<Longrightarrow> reads fr v"
  unfolding reads_def by (metis (no_types, lifting) Suc_eq_plus1 Suc_le_D append_Cons insert_iff json_value.simps(2) list.discI list.sel(1))

lemma reads_JStr: "utf8_valid s \<Longrightarrow> reads fr (JStr s)"
proof -
  assume s: "utf8_valid s"
  have "json_value n (json_quote s @ r) = Some (JStr s, r)" if "1 \<le> n" for n r
    using that read_quote [OF s, of r] by (cases n) (simp_all add: json_quote_def)
  then show "reads fr (JStr s)" by (simp add: reads_def)
qed

lemma number_ends_simps [simp]: "number_ends []" "number_ends (CHR '','' # r)" "number_ends (CHR '']'' # r)" "number_ends (CHR ''}'' # r)"
  by (simp_all add: number_ends_def)

lemma readsD: "reads fr v \<Longrightarrow> number_ends r \<Longrightarrow> 2 * length (json_dumps fr v) + 1 \<le> n \<Longrightarrow>
    json_value n (json_dumps fr v @ r) = Some (v, r)"
  by (simp add: reads_def)

lemma join_more: "join_with sep (x # y # xs) = x @ sep @ join_with sep (y # xs)"
  by simp

lemma join_dumps_skip: "json_wf v \<Longrightarrow> skip_ws (CHR '' '' # join_with '', '' (map (json_dumps fr) (v # vs)) @ r) =
    join_with '', '' (map (json_dumps fr) (v # vs)) @ r"
  by (cases vs) simp_all

lemma read_elements:
  assumes "vs \<noteq> []" "\<forall>v \<in> set vs. json_wf v \<and> reads fr v"
    and "2 * length (join_with '', '' (map (json_dumps fr) vs)) + 2 \<le> n"
  shows "json_elements n (join_with '', '' (map (json_dumps fr) vs) @ CHR '']'' # r) = Some (vs, r)"
  using assms
proof (induction vs arbitrary: n)
  case (Cons v vs)
  obtain k where n: "n = Suc k" using Cons.prems(3) by (cases n) auto
  have v: "json_wf v" "reads fr v" using Cons.prems(2) by auto
  show ?case
  proof (cases vs)
    case Nil
    then have "json_value k (json_dumps fr v @ CHR '']'' # r) = Some (v, CHR '']'' # r)"
      using Cons.prems(3) n by (intro readsD v) auto
    with Nil show ?thesis by (simp add: n Let_def)
  next
    case (Cons w ws)
    define T where "T = join_with '', '' (map (json_dumps fr) vs) @ CHR '']'' # r"
    have shape: "join_with '', '' (map (json_dumps fr) (v # vs)) @ CHR '']'' # r = json_dumps fr v @ CHR '','' # CHR '' '' # T"
      by (simp add: Cons T_def)
    have len: "length (join_with '', '' (map (json_dumps fr) (v # vs))) =
        length (json_dumps fr v) + 2 + length (join_with '', '' (map (json_dumps fr) vs))" by (simp add: Cons)
    have "json_value k (json_dumps fr v @ CHR '','' # CHR '' '' # T) = Some (v, CHR '','' # CHR '' '' # T)"
      using Cons.prems(3) n len by (intro readsD v) auto
    moreover have "skip_ws T = T" unfolding T_def Cons using Cons.prems(2) Cons
      by (cases ws) (simp_all add: join_more)
    moreover have "json_elements k T = Some (vs, r)"
      unfolding T_def using Cons.prems(2,3) n len Cons by (intro Cons.IH) auto
    ultimately show ?thesis unfolding shape by (simp add: n Let_def)
  qed
qed simp

definition member_text :: "(rat \<Rightarrow> str) \<Rightarrow> str \<times> json \<Rightarrow> str" where
  "member_text fr m = json_quote (fst m) @ '': '' @ json_dumps fr (snd m)"

lemma dumps_members: "json_dumps fr (JObj d) = CHR ''{'' # join_with '', '' (map (member_text fr) d) @ ''}''"
  by (auto simp: member_text_def intro!: arg_cong [where f = "join_with '', ''"])

lemma read_members:
  assumes "d \<noteq> []" "\<forall>(k, v) \<in> set d. utf8_valid k \<and> json_wf v \<and> reads fr v"
    and "2 * length (join_with '', '' (map (member_text fr) d)) + 2 \<le> n"
  shows "json_members n (join_with '', '' (map (member_text fr) d) @ CHR ''}'' # r) = Some (d, r)"
  using assms
proof (induction d arbitrary: n)
  case (Cons m d)
  obtain k v where m: "m = (k, v)" by (cases m)
  obtain n' where n: "n = Suc n'" using Cons.prems(3) by (cases n) auto
  have v: "utf8_valid k" "json_wf v" "reads fr v" using Cons.prems(2) m by auto
  have key: "read_string (tl (json_quote k) @ x) = Some (k, x)" for x by (rule read_quote [OF v(1)])
  have quote: "json_quote k @ x = quote_char # tl (json_quote k) @ x" for x by (simp add: json_quote_def)
  show ?case
  proof (cases d)
    case Nil
    then have "json_value n' (json_dumps fr v @ CHR ''}'' # r) = Some (v, CHR ''}'' # r)"
      using Cons.prems(3) n m by (intro readsD v) (auto simp: member_text_def)
    with Nil key v(2) show ?thesis by (simp add: n m member_text_def quote Let_def)
  next
    case (Cons w ws)
    define T where "T = join_with '', '' (map (member_text fr) d) @ CHR ''}'' # r"
    have shape: "join_with '', '' (map (member_text fr) (m # d)) @ CHR ''}'' # r =
        quote_char # tl (json_quote k) @ '': '' @ json_dumps fr v @ CHR '','' # CHR '' '' # T"
      by (simp add: Cons T_def m member_text_def quote)
    have len: "length (join_with '', '' (map (member_text fr) (m # d))) =
        length (member_text fr m) + 2 + length (join_with '', '' (map (member_text fr) d))" by (simp add: Cons)
    have "2 * length (json_dumps fr v) + 1 \<le> n'" using Cons.prems(3) [unfolded len n] m by (simp add: member_text_def)
    then have "json_value n' (json_dumps fr v @ CHR '','' # CHR '' '' # T) = Some (v, CHR '','' # CHR '' '' # T)"
      by (intro readsD v) auto
    moreover have "skip_ws T = T" unfolding T_def Cons
      by (cases ws) (simp_all add: join_more member_text_def json_quote_def)
    moreover have "json_members n' T = Some (d, r)"
      unfolding T_def using Cons.prems(2,3) n len Cons by (intro Cons.IH) auto
    ultimately show ?thesis using key v(2) unfolding shape by (simp add: n m Let_def)
  qed
qed simp

lemma dict_merge_id: "distinct (map fst d) \<Longrightarrow> dict_merge [] d = d"
proof (induction d rule: rev_induct)
  case (snoc p d)
  then show ?case by (cases p) (simp add: dict_merge_def dict_set_new)
qed (simp add: dict_merge_def)

lemma reads_JInt: "reads fr (JInt n)"
proof -
  obtain c s where n: "int_text n = c # s" "is_digit c \<or> c = CHR ''-''" using int_text_head by blast
  then have c: "\<not> json_space c" "c \<notin> {quote_char, CHR ''['', CHR ''{''}" "c \<notin> {CHR ''n'', CHR ''t'', CHR ''f''}"
    by (auto simp: json_space_def quote_char_def is_digit_def)
  show ?thesis
  proof (rule reads_atom [OF c(1) _ c(2)])
    show "json_dumps fr (JInt n) = c # s" using n by simp
    show "read_atom (json_dumps fr (JInt n) @ r) = Some (JInt n, r)" if "number_ends r" for r
    proof -
      have "read_atom (int_text n @ r) = read_number (int_text n @ r)" using n(1) c(3) by (auto simp: read_atom_def)
      then show ?thesis using read_int [OF that] by simp
    qed
  qed
qed

lemma reads_JList:
  assumes all: "\<forall>v \<in> set vs. json_wf v \<and> reads fr v"
  shows "reads fr (JList vs)"
proof -
  have "json_value n (json_dumps fr (JList vs) @ r) = Some (JList vs, r)"
    if n: "2 * length (json_dumps fr (JList vs)) + 1 \<le> n" for n r
  proof -
    obtain k where k: "n = Suc k" using n by (cases n) auto
    show ?thesis
    proof (cases vs)
      case Nil
      then show ?thesis by (simp add: k quote_char_def)
    next
      case (Cons w ws)
      define T where "T = join_with '', '' (map (json_dumps fr) vs) @ CHR '']'' # r"
      have T: "skip_ws T = T" "T \<noteq> []" "hd T \<noteq> CHR '']''"
        unfolding T_def Cons using all Cons dumps_head [of w fr] by (cases ws; auto simp: join_more)+
      have "json_elements k T = Some (vs, r)" unfolding T_def
        using n k Cons by (intro read_elements all) auto
      with T show ?thesis by (simp add: k quote_char_def Let_def T_def [symmetric])
    qed
  qed
  then show ?thesis by (simp add: reads_def)
qed

lemma reads_JObj:
  assumes d: "distinct (map fst d)" and all: "\<forall>(k, v) \<in> set d. utf8_valid k \<and> json_wf v \<and> reads fr v"
  shows "reads fr (JObj d)"
proof -
  have "json_value n (json_dumps fr (JObj d) @ r) = Some (JObj d, r)"
    if n: "2 * length (json_dumps fr (JObj d)) + 1 \<le> n" for n r
  proof -
    obtain k where k: "n = Suc k" using n by (cases n) auto
    show ?thesis
    proof (cases d)
      case Nil
      then show ?thesis by (simp add: k quote_char_def)
    next
      case (Cons w ws)
      define T where "T = join_with '', '' (map (member_text fr) d) @ CHR ''}'' # r"
      have T: "skip_ws T = T" "T \<noteq> []" "hd T \<noteq> CHR ''}''"
        unfolding T_def Cons by (cases ws; simp add: join_more member_text_def json_quote_def; simp add: quote_char_def)+
      have "json_members k T = Some (d, r)" unfolding T_def
        using n k Cons unfolding dumps_members by (intro read_members all) auto
      with T show ?thesis unfolding dumps_members
        by (simp add: k quote_char_def Let_def T_def [symmetric] dict_merge_id [OF d])
    qed
  qed
  then show ?thesis by (simp add: reads_def)
qed

lemma reads_wf: "json_wf v \<Longrightarrow> reads fr v"
proof (induction v)
  case JNull
  show ?case by (rule reads_atom [of "CHR ''n''" _ _ "''ull''"]) (auto simp: json_space_def quote_char_def read_atom_def)
next
  case (JBool b)
  show ?case by (cases b; rule reads_atom) (auto simp: json_space_def quote_char_def read_atom_def)
next
  case (JInt n)
  show ?case by (rule reads_JInt)
next
  case (JStr s)
  then show ?case by (simp add: reads_JStr)
next
  case (JList vs)
  then show ?case by (intro reads_JList) (auto simp: list_all_iff)
next
  case (JObj d)
  from JObj.prems have "distinct (map fst d)" by simp
  moreover have "\<forall>(k, v) \<in> set d. utf8_valid k \<and> json_wf v \<and> reads fr v"
    using JObj by (force simp: list_all_iff)
  ultimately show ?case by (rule reads_JObj)
qed simp

lemma json_loads_dumps:
  assumes "json_wf v"
  shows "json_loads (json_dumps fr v) = Inr v"
proof -
  have "json_value (2 * length (json_dumps fr v) + 1) (json_dumps fr v @ []) = Some (v, [])"
    by (rule readsD [OF reads_wf [OF assms]]) simp_all
  moreover have "skip_ws (json_dumps fr v) = json_dumps fr v" using skip_dumps [OF assms, of fr "[]"] by simp
  ultimately show ?thesis by (simp add: json_loads_def skip_ws_def)
qed

text \<open>A quoted string is one line of printable ASCII.\<close>

lemma escape_printable: "scalar n \<Longrightarrow> c \<in> set (escape_point n) \<Longrightarrow> 32 \<le> code c \<and> code c \<le> 126"
proof -
  have hex: "32 \<le> code (hex_digit k) \<and> code (hex_digit k) \<le> 126" if "k < 16" for k
  proof -
    have "\<forall>k \<in> set [0..<16]. 32 \<le> code (hex_digit k) \<and> code (hex_digit k) \<le> (126 :: nat)" by code_simp
    with that show ?thesis by simp
  qed
  have four: "\<forall>c \<in> set (unicode_escape m). 32 \<le> code c \<and> code c \<le> 126" for m
    by (auto simp: unicode_escape_def hex4_def backslash_def hex)
  show "c \<in> set (escape_point n) \<Longrightarrow> 32 \<le> code c \<and> code c \<le> 126"
    using four by (auto simp: escape_point_def backslash_def quote_char_def split: if_splits)
qed

lemma quote_printable:
  assumes "utf8_valid s" "c \<in> set (json_quote s)"
  shows "32 \<le> code c \<and> code c \<le> 126"
proof -
  have "c = quote_char \<or> (\<exists>n \<in> set (points s). c \<in> set (escape_point n))" using assms(2) by (auto simp: json_quote_def)
  then show ?thesis
    using points_valid [OF assms(1)] escape_printable by (auto simp: quote_char_def list_all_iff)
qed

end
