(* ===== verification/Templates.thy ===== *)
theory Templates
  imports Json_Parse "HOL-Library.Char_ord" "HOL-Library.List_Lexorder"
begin

text \<open>
  \<open>src/agentnest/templates.py\<close>: the description of a sandbox image, the Dockerfile it stands for and the
  build. SHA-256 and the Docker client are parameters; the build context is the list of the files in the tar
  archive.
\<close>

section \<open>Templates\<close>

record template =
  base_image :: str
  packages :: "str list"
  system_packages :: "str list"
  tp_environment :: environment
  commands :: "str list"

definition new_template :: template where
  "new_template = \<lparr>base_image = ''python:3.12-slim'', packages = [], system_packages = [], tp_environment = [], commands = []\<rparr>"

definition pip_install :: "str list \<Rightarrow> template \<Rightarrow> template" where
  "pip_install ps t = t\<lparr>packages := packages t @ ps\<rparr>"

definition apt_install :: "str list \<Rightarrow> template \<Rightarrow> template" where
  "apt_install ps t = t\<lparr>system_packages := system_packages t @ ps\<rparr>"

definition run_commands :: "str list \<Rightarrow> template \<Rightarrow> template" where
  "run_commands cs t = t\<lparr>commands := commands t @ cs\<rparr>"

definition with_environment :: "environment \<Rightarrow> template \<Rightarrow> template" where
  "with_environment env t = t\<lparr>tp_environment := dict_merge (tp_environment t) env\<rparr>"

section \<open>The Dockerfile\<close>

text \<open>\<open>re.fullmatch(r"[A-Za-z_][A-Za-z0-9_]*", key)\<close>.\<close>

definition name_start :: "char \<Rightarrow> bool" where
  "name_start c = (let n = code c in 65 \<le> n \<and> n \<le> 90 \<or> 97 \<le> n \<and> n \<le> 122 \<or> n = 95)"

definition variable_name :: "str \<Rightarrow> bool" where
  "variable_name key = (case key of [] \<Rightarrow> False | c # cs \<Rightarrow> name_start c \<and> list_all (\<lambda>c. name_start c \<or> is_digit c) cs)"

definition env_line :: "str \<times> str \<Rightarrow> str" where
  "env_line kv = ''ENV '' @ fst kv @ ''='' @ json_quote (snd kv)"

definition env_lines :: "environment \<Rightarrow> exn + str list" where
  "env_lines env = sum_all (\<lambda>kv. if variable_name (fst kv) then Inr (env_line kv)
     else Inl (value_error (''invalid environment variable name: '' @ py_repr (fst kv)))) (sort_key fst env)"

definition apt_line :: "str list \<Rightarrow> str" where
  "apt_line ps = ''RUN apt-get update && apt-get install -y --no-install-recommends '' @ join_with '' '' ps @
     '' && rm -rf /var/lib/apt/lists/*''"

definition pip_line :: "str list \<Rightarrow> str" where
  "pip_line ps = ''RUN pip install --no-cache-dir '' @ join_with '' '' ps"

definition docker_lines :: "template \<Rightarrow> exn + str list" where
  "docker_lines t = sum_bind (env_lines (tp_environment t)) (\<lambda>env. Inr (
     [''FROM '' @ base_image t] @
     (if system_packages t = [] then [] else [apt_line (system_packages t)]) @
     (if packages t = [] then [] else [pip_line (packages t)]) @
     env @ map (\<lambda>c. ''RUN '' @ c) (commands t)))"

definition dockerfile :: "template \<Rightarrow> exn + str" where
  "dockerfile t = sum_bind (docker_lines t) (\<lambda>ls. Inr (join_with [CHR 10] ls @ [CHR 10]))"

section \<open>Building\<close>

record 'w builder =
  bu_sha256 :: "bytes \<Rightarrow> str"
  bu_connect :: "(exn, 'w, unit) comp"
  bu_build :: "(str \<times> bytes) list \<Rightarrow> str \<Rightarrow> (exn, 'w, unit) comp"

definition template_tag :: "'w builder \<Rightarrow> str option \<Rightarrow> bytes \<Rightarrow> str" where
  "template_tag B tag content = or_else (case tag of None \<Rightarrow> [] | Some t \<Rightarrow> t)
     (''agentnest-template:'' @ take 16 (bu_sha256 B content))"

definition build :: "'w builder \<Rightarrow> template \<Rightarrow> str option \<Rightarrow> bool \<Rightarrow> (exn, 'w, str) comp" where
  "build B t tag has_client =
     bnd (of_sum (dockerfile t)) (\<lambda>content.
     let image_tag = template_tag B tag content in
     next_do (try_except
         (next_do (when_do (\<not> has_client) (bu_connect B)) (bu_build B [(''Dockerfile'', content)] image_tag))
         (\<lambda>e. raise (if exn_isa e DockerException
            then Exn RuntimeNotAvailableError (''could not build template: '' @ exn_msg e) else e)))
       (ret image_tag))"

section \<open>Facts\<close>

lemma sum_all_cond: "sum_all (\<lambda>x. if P x then Inr (f x) else Inl (g x)) xs = Inr ys \<longleftrightarrow> list_all P xs \<and> ys = map f xs"
  by (induction xs arbitrary: ys) (auto simp: sum_bind_Inr)

lemma env_lines_ok: "env_lines env = Inr ls \<longleftrightarrow> (\<forall>(k, v) \<in> set env. variable_name k) \<and> ls = map env_line (sort_key fst env)"
  by (auto simp: env_lines_def sum_all_cond list_all_iff)

lemma variable_name_chars: "variable_name k \<Longrightarrow> c \<in> set k \<Longrightarrow> 48 \<le> code c \<and> code c \<le> 122 \<and> c \<noteq> CHR ''=''"
  by (auto simp: variable_name_def name_start_def is_digit_def list_all_iff Let_def split: list.splits)

text \<open>A variable is one line, whatever its value.\<close>

lemma env_line_single: "variable_name (fst kv) \<Longrightarrow> utf8_valid (snd kv) \<Longrightarrow> CHR 10 \<notin> set (env_line kv)"
  using variable_name_chars [of "fst kv" "CHR 10"] quote_printable [of "snd kv" "CHR 10"] by (auto simp: env_line_def)

text \<open>Sorting forgets the order in which the variables were set.\<close>

lemma sort_key_distinct:
  assumes "distinct (map fst xs)" "distinct (map fst ys)" "set xs = set ys"
  shows "sort_key fst xs = sort_key fst ys"
proof (rule map_sorted_distinct_set_unique [where f = fst])
  show "inj_on fst (set (sort_key fst xs) \<union> set (sort_key fst ys))"
    using assms by (simp add: distinct_map)
qed (use assms in \<open>simp_all add: distinct_map\<close>)

end
