(* ===== verification/Git.thy ===== *)
theory Git
  imports Sandbox Shell
begin

text \<open>
  \<open>src/agentnest/git.py\<close>: a repository inside a sandbox. Every operation is a shell script in the sandbox.
\<close>

definition git_directory :: str where
  "git_directory = ''/workspace/repo''"

definition check_do :: "('b, 'w, exec_result) sandbox_method \<Rightarrow> ('b, 'w, exec_result) sandbox_method" where
  "check_do m = bnd m (\<lambda>r. of_sum (check_result r))"

definition clone_command :: "str \<Rightarrow> str \<Rightarrow> str option \<Rightarrow> int \<Rightarrow> str list" where
  "clone_command directory url ref depth =
     [''git'', ''clone'', ''--depth'', int_text depth] @
     (case ref of None \<Rightarrow> [] | Some r \<Rightarrow> if r = [] then [] else [''--branch'', r]) @ [url, directory]"

definition clone_script :: "str \<Rightarrow> str \<Rightarrow> str option \<Rightarrow> int \<Rightarrow> str" where
  "clone_script directory url ref depth = join_with '' '' (map shlex_quote (clone_command directory url ref depth))"

definition git_clone :: "('b, 'w) ambient \<Rightarrow> str \<Rightarrow> str \<Rightarrow> str option \<Rightarrow> int \<Rightarrow> ('b, 'w, exec_result) sandbox_method" where
  "git_clone A directory url ref depth =
     next_do (guard_or (0 < depth) (value_error ''depth must be positive''))
       (exec_shell A (clone_script directory url ref depth) None [] None)"

definition git_diff :: "('b, 'w) ambient \<Rightarrow> str \<Rightarrow> bool \<Rightarrow> ('b, 'w, str) sandbox_method" where
  "git_diff A directory staged =
     bnd (check_do (exec_shell A (''git diff'' @ (if staged then '' --cached'' else []) @ '' --no-ext-diff --'')
       None [] (Some directory))) (\<lambda>r. ret (stdout r))"

definition git_status :: "('b, 'w) ambient \<Rightarrow> str \<Rightarrow> ('b, 'w, str) sandbox_method" where
  "git_status A directory =
     bnd (check_do (exec_shell A ''git status --short'' None [] (Some directory))) (\<lambda>r. ret (stdout r))"

definition apply_script :: str where
  "apply_script = ''git apply --whitespace=nowarn .agentnest.patch && rm .agentnest.patch''"

definition apply_patch :: "('b, 'w) ambient \<Rightarrow> str \<Rightarrow> str \<Rightarrow> ('b, 'w, exec_result) sandbox_method" where
  "apply_patch A directory patch =
     next_do (write_file A ''repo/.agentnest.patch'' (TextContent patch))
       (exec_shell A apply_script None [] (Some directory))"

section \<open>Facts\<close>

lemma clone_words: "sh_words (clone_script directory url ref depth) = Some (map Word (clone_command directory url ref depth))"
  unfolding clone_script_def by (rule quoted_words) simp

text \<open>The patch is always written under \<open>repo\<close>, wherever the repository is.\<close>

lemma patch_place: "normalize_workspace_path ''repo/.agentnest.patch'' = Inr ''repo/.agentnest.patch''"
  by code_simp

end
