(* ===== verification/Profiles.thy ===== *)
theory Profiles
  imports Server
begin

text \<open>
  \<open>src/agentnest/profiles.py\<close> and \<open>src/agentnest/presets.py\<close>: named options for the constructor of a sandbox,
  from a document that the YAML package (a parameter) has read, and the constructors for browser and GPU
  workloads. A document is a JSON value, as YAML with texts for keys is.
\<close>

section \<open>Profiles\<close>

record profile =
  pr_name :: str
  pr_options :: "(str, json) dict"
  pr_policy :: "security_policy option"

text \<open>\<open>options["security_policy"] = SecurityPolicy(network=policy)\<close> takes the place of the option of that name.\<close>

definition load_profile :: "(exn + json) \<Rightarrow> str \<Rightarrow> exn + profile" where
  "load_profile document name =
     sum_bind document (\<lambda>doc.
     case (case doc of JObj d \<Rightarrow> map_of d name | _ \<Rightarrow> None) of
       None \<Rightarrow> Inl (value_error (''profile does not exist: '' @ py_repr name))
     | Some (JObj raw) \<Rightarrow>
         (let options = dict_pop ''network'' raw in
          case map_of raw ''network'' of
            None \<Rightarrow> Inr \<lparr>pr_name = name, pr_options = options, pr_policy = None\<rparr>
          | Some JNull \<Rightarrow> Inr \<lparr>pr_name = name, pr_options = options, pr_policy = None\<rparr>
          | Some (JObj n) \<Rightarrow> sum_bind (network_of_json (JObj n)) (\<lambda>net.
              sum_bind (make_security_policy (default_policy\<lparr>sp_network := net\<rparr>)) (\<lambda>p.
              Inr \<lparr>pr_name = name, pr_options = dict_pop ''security_policy'' options, pr_policy = Some p\<rparr>))
          | Some _ \<Rightarrow> Inl (value_error ''network profile must be a mapping''))
     | Some _ \<Rightarrow> Inl (value_error ''profile contents must be a mapping''))"

text \<open>\<open>import_module("yaml")\<close>, then the file: reading and parsing are one parameter.\<close>

definition profile_load :: "bool \<Rightarrow> (str \<Rightarrow> exn + json) \<Rightarrow> str \<Rightarrow> str \<Rightarrow> exn + profile" where
  "profile_load importable safe_load path name =
     (if importable then load_profile (safe_load path) name
      else Inl (Exn AgentNestError (''YAML profiles require: pip install '' @ py_repr ''agentnest[profiles]'')))"

section \<open>Presets\<close>

text \<open>The other keyword arguments are those of \<open>kw\<close>; memory and process limit are taken out of them.\<close>

definition browser_args :: "sandbox_args \<Rightarrow> str \<Rightarrow> rat \<Rightarrow> security_policy option \<Rightarrow> memory_limit option \<Rightarrow> int option \<Rightarrow> sandbox_args" where
  "browser_args kw img timeout pol mem p =
     kw\<lparr>sa_image := img, sa_timeout := timeout,
       sa_policy := Some (case pol of Some q \<Rightarrow> q | None \<Rightarrow> default_policy),
       sa_limits := (sa_limits kw)\<lparr>memory := (case mem of Some m \<Rightarrow> m | None \<Rightarrow> MemText ''2g''),
         pids := (case p of Some n \<Rightarrow> n | None \<Rightarrow> 512)\<rparr>\<rparr>"

definition browser_image :: str where
  "browser_image = ''mcr.microsoft.com/playwright/python:v1.52.0-noble''"

definition gpu_args :: "sandbox_args \<Rightarrow> str \<Rightarrow> int \<Rightarrow> rat \<Rightarrow> exn + sandbox_args" where
  "gpu_args kw img n timeout =
     (if n \<le> 0 then Inl (value_error ''gpus must be positive'')
      else Inr (kw\<lparr>sa_image := img, sa_timeout := timeout, sa_limits := (sa_limits kw)\<lparr>gpus := n\<rparr>\<rparr>))"

definition browser_sandbox ::
  "('b, 'w) ambient \<Rightarrow> 'b \<Rightarrow> sandbox_args \<Rightarrow> str \<Rightarrow> rat \<Rightarrow> security_policy option \<Rightarrow> memory_limit option \<Rightarrow> int option
     \<Rightarrow> (exn, 'w outside, 'b sandbox) comp" where
  "browser_sandbox A b kw img timeout pol mem p = init A b (browser_args kw img timeout pol mem p)"

definition gpu_sandbox ::
  "('b, 'w) ambient \<Rightarrow> 'b \<Rightarrow> sandbox_args \<Rightarrow> str \<Rightarrow> int \<Rightarrow> rat \<Rightarrow> (exn, 'w outside, 'b sandbox) comp" where
  "gpu_sandbox A b kw img n timeout = bnd (of_sum (gpu_args kw img n timeout)) (\<lambda>a. init A b a)"

section \<open>Facts\<close>

text \<open>A profile's policy is well formed, and has the profile's network.\<close>

lemma network_of_json_wf: "network_of_json v = Inr p \<Longrightarrow> network_wf p"
  by (auto simp: network_of_json_def sum_bind_def make_network_policy_wf split: sum.splits)

lemma load_profile_wf:
  assumes "load_profile document name = Inr pr" "pr_policy pr = Some p"
  shows "security_wf p"
  using assms
  by (auto simp: load_profile_def sum_bind_def Let_def make_security_policy_ok security_wf_def
      dest!: network_of_json_wf split: sum.splits option.splits json.splits if_splits)

text \<open>Without a policy a browser sandbox has no network, even if it was asked for.\<close>

lemma browser_denied: "init_config (browser_args kw img timeout None mem p) = Inr c \<Longrightarrow>
    sp_network (policy c) = denied \<and> \<not> network_enabled c"
  by (auto simp: init_config_def browser_args_def Let_def make_limits_ok make_config_ok default_policy_def denied_def
      split: sum.splits)

end
