(* ===== verification/Tools_Properties.thy ===== *)
theory Tools_Properties
  imports Templates Git Profiles
begin

text \<open>
  The properties of JSON texts, templates and the Git helper.
\<close>

section \<open>JSON texts\<close>

text \<open>
  \<open>json.loads\<close> undoes \<open>json.dumps\<close>: a document without floats, whose texts are well-formed and whose keys
  differ, is read back as it was, through all escapes and surrogate pairs.
\<close>

theorem json_roundtrip:
  assumes "json_wf v"
  shows "json_loads (json_dumps fr v) = Inr v"
  by (rule json_loads_dumps [OF assms])

definition demo_document :: json where
  "demo_document = JObj [(''stdout'', JStr ([CHR 0x22, CHR 0x5C, CHR 10, CHR 0xC3, CHR 0xA9] @ ''x'')),
     (''items'', JList [JInt (-12), JNull, JBool True, JStr [CHR 0xF0, CHR 0x9F, CHR 0x98, CHR 0x80]]), (''none'', JObj [])]"

lemma json_roundtrip_witness: "json_loads (json_dumps (\<lambda>_. []) demo_document) = Inr demo_document"
  by (rule json_roundtrip) code_simp

section \<open>Templates\<close>

lemma join_snoc: "ps \<noteq> [] \<Longrightarrow> join_with sep (ps @ [p]) = join_with sep ps @ sep @ p"
  by (induction sep ps rule: join_with.induct) auto

lemma dockerfile_ok: "dockerfile t = Inr text' \<longleftrightarrow>
    (\<exists>ls. docker_lines t = Inr ls \<and> text' = join_with [CHR 10] ls @ [CHR 10])"
  by (auto simp: dockerfile_def sum_bind_Inr)

text \<open>
  C40. An environment value cannot add an instruction to the Dockerfile: when the image, the packages and the
  commands have no line break, the lines of the file are exactly the expected instructions, in which each
  variable has one line, its name as given and its value quoted so that JSON reads it back, whatever characters
  the value has.
\<close>

theorem environment_cannot_inject:
  assumes "dockerfile t = Inr content"
    and "\<forall>x \<in> set (base_image t # packages t @ system_packages t @ commands t). CHR 10 \<notin> set x"
    and "\<forall>(k, v) \<in> set (tp_environment t). utf8_valid v"
  shows "\<exists>ls. docker_lines t = Inr ls \<and> split_on (CHR 10) content = ls @ [[]] \<and>
    (\<forall>(k, v) \<in> set (tp_environment t). variable_name k \<and> (\<exists>q. ''ENV '' @ k @ ''='' @ q \<in> set ls \<and> json_loads q = Inr (JStr v)))"
proof -
  obtain ls where ls: "docker_lines t = Inr ls" and content: "content = join_with [CHR 10] ls @ [CHR 10]"
    using assms(1) by (auto simp: dockerfile_ok)
  obtain env where env: "env_lines (tp_environment t) = Inr env"
    and parts: "ls = [''FROM '' @ base_image t] @ (if system_packages t = [] then [] else [apt_line (system_packages t)]) @
      (if packages t = [] then [] else [pip_line (packages t)]) @ env @ map (\<lambda>c. ''RUN '' @ c) (commands t)"
    using ls by (auto simp: docker_lines_def sum_bind_Inr)
  from env have names: "\<forall>(k, v) \<in> set (tp_environment t). variable_name k" and
    lines: "env = map env_line (sort_key fst (tp_environment t))" by (auto simp: env_lines_ok)
  have joined: "CHR 10 \<notin> set (join_with '' '' xs)" if "\<forall>x \<in> set xs. CHR 10 \<notin> set x" for xs
    using that by (induction "'' ''" xs rule: join_with.induct) auto
  have single: "\<forall>l \<in> set env. CHR 10 \<notin> set l"
    using names assms(3) env_line_single unfolding lines by fastforce
  have "\<forall>l \<in> set ls. CHR 10 \<notin> set l"
    using single assms(2) joined [of "packages t"] joined [of "system_packages t"]
    by (auto simp: parts apt_line_def pip_line_def)
  then have "split_on (CHR 10) (join_with [CHR 10] (ls @ [[]])) = ls @ [[]]" by (intro split_join) auto
  moreover have "join_with [CHR 10] (ls @ [[]]) = content"
    unfolding content by (subst join_snoc) (simp_all add: parts)
  moreover have "\<exists>q. ''ENV '' @ k @ ''='' @ q \<in> set ls \<and> json_loads q = Inr (JStr v)" if "(k, v) \<in> set (tp_environment t)" for k v
  proof -
    have "utf8_valid v" using assms(3) that by auto
    then have "json_loads (json_quote v) = Inr (JStr v)"
      using json_loads_dumps [of "JStr v" "\<lambda>_. []"] by simp
    moreover have "env_line (k, v) \<in> set ls" using that by (auto simp: parts lines)
    ultimately show ?thesis by (auto simp: env_line_def)
  qed
  ultimately show ?thesis using ls names by auto
qed

definition demo_template :: template where
  "demo_template = with_environment [(''B'', ''x'' @ [CHR 10] @ ''RUN evil''), (''A'', ''1'')]
     (pip_install [''numpy''] new_template)"

definition demo_dockerfile :: str where
  "demo_dockerfile = (case dockerfile demo_template of Inr s \<Rightarrow> s | Inl _ \<Rightarrow> [])"

lemma environment_cannot_inject_witness:
  "\<exists>ls. docker_lines demo_template = Inr ls \<and> split_on (CHR 10) demo_dockerfile = ls @ [[]] \<and>
    (\<forall>(k, v) \<in> set (tp_environment demo_template). variable_name k \<and>
      (\<exists>q. ''ENV '' @ k @ ''='' @ q \<in> set ls \<and> json_loads q = Inr (JStr v)))"
  by (rule environment_cannot_inject) code_simp+

text \<open>
  A template's Dockerfile, and with it the tag of the image, does not depend on the order in which its
  environment variables were set.
\<close>

theorem dockerfile_deterministic:
  assumes "distinct (map fst (tp_environment t))" "distinct (map fst env)" "set env = set (tp_environment t)"
  shows "dockerfile (t\<lparr>tp_environment := env\<rparr>) = dockerfile t \<and>
    template_tag B None (case dockerfile (t\<lparr>tp_environment := env\<rparr>) of Inr c \<Rightarrow> c | Inl _ \<Rightarrow> []) =
    template_tag B None (case dockerfile t of Inr c \<Rightarrow> c | Inl _ \<Rightarrow> [])"
proof -
  have "sort_key fst env = sort_key fst (tp_environment t)"
    using assms by (intro sort_key_distinct) auto
  then have "dockerfile (t\<lparr>tp_environment := env\<rparr>) = dockerfile t"
    by (simp add: dockerfile_def docker_lines_def env_lines_def)
  then show ?thesis by simp
qed

definition demo_builder :: "unit builder" where
  "demo_builder = \<lparr>bu_sha256 = (\<lambda>_. ''00''), bu_connect = ret (), bu_build = (\<lambda>_ _. ret ())\<rparr>"

lemma dockerfile_deterministic_witness:
  "dockerfile (demo_template\<lparr>tp_environment := rev (tp_environment demo_template)\<rparr>) = dockerfile demo_template \<and>
    template_tag demo_builder None (case dockerfile (demo_template\<lparr>tp_environment := rev (tp_environment demo_template)\<rparr>) of
      Inr c \<Rightarrow> c | Inl _ \<Rightarrow> []) =
    template_tag demo_builder None (case dockerfile demo_template of Inr c \<Rightarrow> c | Inl _ \<Rightarrow> [])"
proof (rule dockerfile_deterministic)
  show "distinct (map fst (tp_environment demo_template))" by code_simp
  show "distinct (map fst (rev (tp_environment demo_template)))" by code_simp
  show "set (rev (tp_environment demo_template)) = set (tp_environment demo_template)" by simp
qed

section \<open>Git\<close>

text \<open>
  C39. \<open>clone\<close> cannot be tricked into another command: the shell reads its script as exactly the words of one
  \<open>git clone\<close>, with the branch, the URL and the directory as they were given, whatever characters they have.
\<close>

theorem clone_is_one_command:
  "sh_words (clone_script directory url ref depth) = Some (map Word ([''git'', ''clone'', ''--depth'', int_text depth] @
     (case ref of None \<Rightarrow> [] | Some r \<Rightarrow> if r = [] then [] else [''--branch'', r]) @ [url, directory]))"
  using clone_words [of directory url ref depth] by (simp add: clone_command_def)

text \<open>But a URL that starts with a dash is an option to \<open>git\<close>: nothing separates the options from the URL.\<close>

lemma clone_option:
  "sh_words (clone_script git_directory ''--upload-pack=touch${IFS}x;'' None 1) =
     Some (map Word [''git'', ''clone'', ''--depth'', ''1'', ''--upload-pack=touch${IFS}x;'', ''/workspace/repo''])"
  unfolding clone_words by code_simp

end
