(* ===== verification/Session.thy ===== *)
theory Session
  imports Sandbox_Facts Json_Parse
begin

text \<open>
  \<open>src/agentnest/session.py\<close> and \<open>src/agentnest/_repl_server.py\<close>: a Python interpreter that stays alive inside
  a sandbox, and the host's handle on it. Host and guest exchange files of the workspace: the host writes
  \<open>req-n.py\<close>, the guest answers with \<open>resp-n.json\<close>. Here are the host's operations on the sandbox, as
  \<open>session.py\<close> has them, and one evaluation of the guest; \<open>Session_Protocol\<close> puts the two side by side.
\<close>

section \<open>The exchange\<close>

definition session_dir :: str where
  "session_dir = ''.agentnest-repl''"

definition request_path :: "nat \<Rightarrow> str" where
  "request_path n = session_dir @ ''/req-'' @ nat_digits n @ ''.py''"

definition response_path :: "nat \<Rightarrow> str" where
  "response_path n = session_dir @ ''/resp-'' @ nat_digits n @ ''.json''"

definition temporary_path :: "nat \<Rightarrow> str" where
  "temporary_path n = session_dir @ ''/resp-'' @ nat_digits n @ ''.tmp''"

record session_result =
  sr_stdout :: str
  sr_stderr :: str
  sr_result :: "str option"
  sr_error :: "str option"

definition session_ok :: "session_result \<Rightarrow> bool" where
  "session_ok r = (sr_error r = None)"

text \<open>\<open>str.splitlines()\<close>, on the line ends of ASCII: a carriage return and a line feed are one.\<close>

fun splitlines :: "str \<Rightarrow> str list" where
  "splitlines [] = []"
| "splitlines (c # cs) =
     (if c = CHR 13 \<and> cs \<noteq> [] \<and> hd cs = CHR 10 then splitlines cs
      else if code c \<in> {10, 11, 12, 13, 28, 29, 30} then [] # splitlines cs
      else (case splitlines cs of [] \<Rightarrow> [[c]] | l # ls \<Rightarrow> (c # l) # ls))"

text \<open>\<open>self.error.strip().splitlines()[-1]\<close> of a blank text is an \<open>IndexError\<close>.\<close>

definition session_check :: "session_result \<Rightarrow> exn + session_result" where
  "session_check r = (case sr_error r of None \<Rightarrow> Inr r
     | Some e \<Rightarrow> (case rev (splitlines (strip e)) of [] \<Rightarrow> Inl (Exn PyException ''list index out of range'')
         | l # _ \<Rightarrow> Inl (Exn ExecutionError l)))"

text \<open>What the host makes of a response; the fields of a reply are taken to be texts.\<close>

definition session_reply :: "str \<Rightarrow> exn + session_result" where
  "session_reply payload =
     sum_bind (json_loads payload) (\<lambda>v. sum_bind (as_object v) (\<lambda>d.
     sum_bind (sum_bind (item d ''stdout'') as_str) (\<lambda>out.
     sum_bind (sum_bind (item d ''stderr'') as_str) (\<lambda>err.
     sum_bind (field_or d ''result'' (as_option as_str) None) (\<lambda>res.
     sum_bind (field_or d ''error'' (as_option as_str) None) (\<lambda>e.
     Inr \<lparr>sr_stdout = out, sr_stderr = err, sr_result = res, sr_error = e\<rparr>))))))"

section \<open>The host\<close>

record session =
  ss_index :: nat
  ss_started :: bool

definition new_session :: session where
  "new_session = \<lparr>ss_index = 0, ss_started = False\<rparr>"

type_synonym ('b, 'w, 'a) session_op = "(exn, session \<times> ('b, 'w) state, 'a) comp"

definition server_script :: str where
  "server_script = ''nohup python /workspace/'' @ session_dir @ ''/server.py >/workspace/'' @ session_dir @
     ''/server.log 2>&1 &''"

definition session_start :: "('b, 'w) ambient \<Rightarrow> str \<Rightarrow> ('b, 'w, unit) session_op" where
  "session_start A server_source =
     bnd (gets (ss_started \<circ> fst)) (\<lambda>started.
     if started then ret ()
     else next_do (on_snd (write_file A (session_dir @ ''/server.py'') (TextContent server_source)))
       (bnd (on_snd (exec_shell A server_script (Some 15) [] None)) (\<lambda>_.
        modify (\<lambda>(ss, s). (ss\<lparr>ss_started := True\<rparr>, s)))))"

text \<open>The loop of \<open>run\<close>. \<open>pause\<close> is what the world does while the host sleeps; \<open>n\<close> bounds the rounds, and a
  loop whose rounds are over leaves like one whose time is over (\<open>session_run_ends\<close> shows that enough rounds make no difference).\<close>

definition call_timeout :: "str \<Rightarrow> exn" where
  "call_timeout shown = Exn ExecutionTimeoutError (''python session call exceeded '' @ shown @ '' seconds'')"

primrec poll_response ::
  "('b, 'w) ambient \<Rightarrow> ('w \<Rightarrow> 'w) \<Rightarrow> str \<Rightarrow> str \<Rightarrow> rat \<Rightarrow> nat \<Rightarrow> ('b, 'w, content) sandbox_method" where
  "poll_response A pause shown path deadline 0 = raise (call_timeout shown)"
| "poll_response A pause shown path deadline (Suc n) =
     bnd (monotonic A) (\<lambda>now.
     if now < deadline
     then try_except (read_file A path True)
       (\<lambda>e. if exn_isa e FileAccessError
          then next_do (modify (\<lambda>(sb, out). (sb, out\<lparr>world := pause (world out)\<rparr>)))
            (poll_response A pause shown path deadline n)
          else raise e)
     else raise (call_timeout shown))"

text \<open>\<open>shown\<close> is the timeout as \<open>{timeout:g}\<close> writes it.\<close>

definition session_run ::
  "('b, 'w) ambient \<Rightarrow> ('w \<Rightarrow> 'w) \<Rightarrow> str \<Rightarrow> nat \<Rightarrow> str \<Rightarrow> str \<Rightarrow> rat \<Rightarrow> ('b, 'w, session_result) session_op" where
  "session_run A pause server_source n source shown timeout =
     next_do (session_start A server_source)
     (bnd (gets (ss_index \<circ> fst)) (\<lambda>index.
      next_do (on_snd (write_file A (request_path index) (TextContent source)))
      (bnd (on_snd (monotonic A)) (\<lambda>now.
       bnd (on_snd (poll_response A pause shown (response_path index) (now + timeout) n)) (\<lambda>payload.
       case payload of
         BytesContent _ \<Rightarrow> raise (Exn AssertionError [])
       | TextContent t \<Rightarrow>
           next_do (modify (\<lambda>(ss, s). (ss\<lparr>ss_index := Suc (ss_index ss)\<rparr>, s)))
             (of_sum (session_reply t)))))))"

text \<open>\<open>Sandbox.python_session\<close>.\<close>

definition python_session :: "('b, 'w) ambient \<Rightarrow> str \<Rightarrow> ('b, 'w, session) sandbox_method" where
  "python_session A server_source =
     next_do ensure_active
     (next_do (approve A EXECUTE_PYTHON [(''session'', DBool True)])
     (\<lambda>s. case session_start A server_source (new_session, s) of
        (Inl e, (_, s')) \<Rightarrow> (Inl e, s') | (Inr _, (ss, s')) \<Rightarrow> (Inr ss, s')))"

section \<open>One evaluation of the guest\<close>

text \<open>The interpreter is a parameter: parsing (or the traceback of a syntax error), whether a statement is an
  expression, and running statements or an expression in a namespace, which gives what was written to the
  standard streams and a traceback or the value's text, if it is not \<open>None\<close>.\<close>

record ('s, 'e, 'ns) python =
  pn_parse :: "str \<Rightarrow> str + 's list"
  pn_expression :: "'s \<Rightarrow> 'e option"
  pn_exec :: "'s list \<Rightarrow> 'ns \<Rightarrow> (str \<times> str) \<times> (str + unit) \<times> 'ns"
  pn_eval :: "'e \<Rightarrow> 'ns \<Rightarrow> (str \<times> str) \<times> (str + str option) \<times> 'ns"

text \<open>The statements before a trailing expression, and that expression.\<close>

definition split_body :: "('s, 'e, 'ns) python \<Rightarrow> 's list \<Rightarrow> 's list \<times> 'e option" where
  "split_body P body = (case rev body of [] \<Rightarrow> ([], None)
     | s # before \<Rightarrow> (case pn_expression P s of None \<Rightarrow> (body, None) | Some e \<Rightarrow> (rev before, Some e)))"

definition execute :: "('s, 'e, 'ns) python \<Rightarrow> str \<Rightarrow> 'ns \<Rightarrow> session_result \<times> 'ns" where
  "execute P source ns = (case pn_parse P source of
     Inl trace \<Rightarrow> (\<lparr>sr_stdout = [], sr_stderr = [], sr_result = None, sr_error = Some trace\<rparr>, ns)
   | Inr body \<Rightarrow>
       let (statements, last_expression) = split_body P body;
           ((out, err), r, ns1) = (if statements = [] then (([], []), Inr (), ns) else pn_exec P statements ns)
       in case (r, last_expression) of
            (Inl trace, _) \<Rightarrow> (\<lparr>sr_stdout = out, sr_stderr = err, sr_result = None, sr_error = Some trace\<rparr>, ns1)
          | (Inr _, None) \<Rightarrow> (\<lparr>sr_stdout = out, sr_stderr = err, sr_result = None, sr_error = None\<rparr>, ns1)
          | (Inr _, Some e) \<Rightarrow>
              (let ((out2, err2), v, ns2) = pn_eval P e ns1 in case v of
                 Inl trace \<Rightarrow> (\<lparr>sr_stdout = out @ out2, sr_stderr = err @ err2, sr_result = None, sr_error = Some trace\<rparr>, ns2)
               | Inr shown \<Rightarrow> (\<lparr>sr_stdout = out @ out2, sr_stderr = err @ err2, sr_result = shown, sr_error = None\<rparr>, ns2)))"

text \<open>\<open>json.dump(response, handle)\<close>.\<close>

definition reply_json :: "session_result \<Rightarrow> json" where
  "reply_json r = JObj [(''stdout'', JStr (sr_stdout r)), (''stderr'', JStr (sr_stderr r)),
     (''error'', json_option JStr (sr_error r)), (''result'', json_option JStr (sr_result r))]"

definition reply_text :: "session_result \<Rightarrow> str" where
  "reply_text r = json_dumps (\<lambda>_. []) (reply_json r)"

section \<open>Facts\<close>

text \<open>The interpreter's texts are \<open>str\<close> values without lone surrogates.\<close>

definition reply_wf :: "session_result \<Rightarrow> bool" where
  "reply_wf r \<longleftrightarrow> utf8_valid (sr_stdout r) \<and> utf8_valid (sr_stderr r) \<and>
     (case sr_error r of None \<Rightarrow> True | Some t \<Rightarrow> utf8_valid t) \<and> (case sr_result r of None \<Rightarrow> True | Some t \<Rightarrow> utf8_valid t)"

lemma json_wf_option: "json_wf (json_option JStr x) = (case x of None \<Rightarrow> True | Some t \<Rightarrow> utf8_valid t)"
  by (cases x) (simp_all add: json_option_def)

lemma reply_read:
  assumes "reply_wf r"
  shows "session_reply (reply_text r) = Inr r"
proof -
  have "utf8_valid ''stdout'' \<and> utf8_valid ''stderr'' \<and> utf8_valid ''error'' \<and> utf8_valid ''result''" by code_simp
  with assms have "json_wf (reply_json r)" by (simp add: reply_json_def reply_wf_def json_wf_option)
  from json_loads_dumps [OF this, of "\<lambda>_. []"] show ?thesis
    by (simp add: session_reply_def reply_text_def) (simp add: reply_json_def item_def field_or_def)
qed

text \<open>The names of the exchanged files differ.\<close>

lemma nat_digits_dot: "CHR ''.'' \<notin> set (nat_digits n)"
  using nat_digits_all [of n] by (auto simp: is_digit_def)

lemma digits_append: "nat_digits m @ CHR ''.'' # s = nat_digits n @ CHR ''.'' # t \<longleftrightarrow> m = n \<and> s = t"
proof
  assume eq: "nat_digits m @ CHR ''.'' # s = nat_digits n @ CHR ''.'' # t"
  from arg_cong [OF this, of "split_on CHR ''.''"] have "nat_digits m = nat_digits n"
    by (simp add: split_on_append_sep nat_digits_dot)
  with eq show "m = n \<and> s = t" by (simp add: nat_digits_inj)
qed simp

lemma path_differ [simp]:
  "request_path m = request_path n \<longleftrightarrow> m = n" "response_path m = response_path n \<longleftrightarrow> m = n"
  "temporary_path m = temporary_path n \<longleftrightarrow> m = n"
  "request_path m \<noteq> response_path n" "request_path m \<noteq> temporary_path n" "response_path m \<noteq> temporary_path n"
  "response_path n \<noteq> request_path m" "temporary_path n \<noteq> request_path m" "temporary_path n \<noteq> response_path m"
  by (simp_all add: request_path_def response_path_def temporary_path_def digits_append nat_digits_inj)

text \<open>Reading a file never turns the clock back.\<close>

definition ticked :: "nat \<Rightarrow> ('b, 'w) state \<Rightarrow> bool" where
  "ticked n s \<longleftrightarrow> n \<le> tick (snd s)"

lemma ticked_steps:
  "keeps (ticked n) (backend_call m)" "keeps (ticked n) (emit A ty attrs)" "keeps (ticked n) ensure_active"
  "keeps (ticked n) (approve A act details)"
  by (rule keepsI; auto simp: ticked_def backend_call_def emit_def ensure_active_def approve_def Let_def
      split: prod.splits option.splits if_splits)+

lemma read_ticks: "keeps (\<lambda>s. n \<le> tick (snd s)) (read_file A path decoded)"
proof -
  have "keeps (ticked n) (read_file A path decoded)"
    unfolding read_file_def by (intro keeps_steps ticked_steps)
  then show ?thesis by (simp add: ticked_def [abs_def])
qed

end
