(* ===== verification/Session_Protocol.thy ===== *)
theory Session_Protocol
  imports Session
begin

text \<open>
  Host and guest side by side: the loop of \<open>serve\<close> in \<open>_repl_server.py\<close> and the calls of
  \<open>PythonSession.run\<close>, as steps on the files they exchange, in any interleaving. A step is one access to a
  file; the host's writes are atomic, as the backends' are. Snippets leave the files of the session alone. As
  long as no call of the host has failed, every result is that of its own snippet, run in order in one
  namespace.
\<close>

section \<open>State and steps\<close>

type_synonym files = "str \<Rightarrow> str option"

text \<open>Where the guest is in its loop.\<close>

datatype server_at = Polling | Opening | Running str | Writing str | Replacing | Removing | Crashed

record 'ns repl_server =
  rs_index :: nat
  rs_namespace :: 'ns
  rs_at :: server_at

text \<open>The host: its index, the snippet of a call under way, and the outcomes of the calls that are over.\<close>

record client =
  cl_index :: nat
  cl_waiting :: "str option"
  cl_log :: "(str \<times> (exn + session_result)) list"

type_synonym 'ns exchange = "files \<times> 'ns repl_server \<times> client"

definition start_exchange :: "'ns \<Rightarrow> 'ns exchange" where
  "start_exchange ns = (Map.empty, \<lparr>rs_index = 0, rs_namespace = ns, rs_at = Polling\<rparr>,
     \<lparr>cl_index = 0, cl_waiting = None, cl_log = []\<rparr>)"

text \<open>The guest's next step; none while there is no request, and none after a crash.\<close>

definition server_step :: "('s, 'e, 'ns) python \<Rightarrow> files \<Rightarrow> 'ns repl_server \<Rightarrow> (files \<times> 'ns repl_server) option" where
  "server_step P f rs =
     (let request = request_path (rs_index rs); temp = temporary_path (rs_index rs); response = response_path (rs_index rs) in
      case rs_at rs of
        Polling \<Rightarrow> if f request = None then None else Some (f, rs\<lparr>rs_at := Opening\<rparr>)
      | Opening \<Rightarrow> (case f request of None \<Rightarrow> Some (f, rs\<lparr>rs_at := Crashed\<rparr>)
          | Some source \<Rightarrow> Some (f, rs\<lparr>rs_at := Running source\<rparr>))
      | Running source \<Rightarrow> (case execute P source (rs_namespace rs) of
          (r, ns) \<Rightarrow> Some (f, rs\<lparr>rs_namespace := ns, rs_at := Writing (reply_text r)\<rparr>))
      | Writing t \<Rightarrow> Some (f(temp \<mapsto> t), rs\<lparr>rs_at := Replacing\<rparr>)
      | Replacing \<Rightarrow> (case f temp of None \<Rightarrow> Some (f, rs\<lparr>rs_at := Crashed\<rparr>)
          | Some t \<Rightarrow> Some (f(response \<mapsto> t, temp := None), rs\<lparr>rs_at := Removing\<rparr>))
      | Removing \<Rightarrow> (case f request of None \<Rightarrow> Some (f, rs\<lparr>rs_at := Crashed\<rparr>)
          | Some _ \<Rightarrow> Some (f(request := None), rs\<lparr>rs_at := Polling, rs_index := Suc (rs_index rs)\<rparr>))
      | Crashed \<Rightarrow> None)"

text \<open>The host: a call writes its request; it is over when the response can be read, or when reading raises
  (its time is over, the response exceeds the read limit, the sandbox was destroyed).\<close>

inductive exchange_step :: "('s, 'e, 'ns) python \<Rightarrow> 'ns exchange \<Rightarrow> 'ns exchange \<Rightarrow> bool" for P where
  Serve: "server_step P f rs = Some (f', rs') \<Longrightarrow> exchange_step P (f, rs, c) (f', rs', c)"
| Call: "cl_waiting c = None \<Longrightarrow>
    exchange_step P (f, rs, c) (f(request_path (cl_index c) \<mapsto> source), rs, c\<lparr>cl_waiting := Some source\<rparr>)"
| Reply: "cl_waiting c = Some source \<Longrightarrow> f (response_path (cl_index c)) = Some t \<Longrightarrow>
    exchange_step P (f, rs, c)
      (f, rs, c\<lparr>cl_waiting := None, cl_index := Suc (cl_index c), cl_log := cl_log c @ [(source, session_reply t)]\<rparr>)"
| Fail: "cl_waiting c = Some source \<Longrightarrow>
    exchange_step P (f, rs, c) (f, rs, c\<lparr>cl_waiting := None, cl_log := cl_log c @ [(source, Inl e)]\<rparr>)"

inductive_cases exchange_stepE: "exchange_step P (f, rs, c) t"

section \<open>What a session promises\<close>

text \<open>The replies to snippets that run one after the other in one namespace, and the namespace after them.\<close>

primrec replies :: "('s, 'e, 'ns) python \<Rightarrow> 'ns \<Rightarrow> str list \<Rightarrow> session_result list" where
  "replies P ns [] = []"
| "replies P ns (x # xs) = fst (execute P x ns) # replies P (snd (execute P x ns)) xs"

primrec after_all :: "('s, 'e, 'ns) python \<Rightarrow> 'ns \<Rightarrow> str list \<Rightarrow> 'ns" where
  "after_all P ns [] = ns"
| "after_all P ns (x # xs) = after_all P (snd (execute P x ns)) xs"

lemma replies_append: "replies P ns (xs @ [x]) = replies P ns xs @ [fst (execute P x (after_all P ns xs))]"
  by (induction xs arbitrary: ns) auto

lemma after_append: "after_all P ns (xs @ [x]) = snd (execute P x (after_all P ns xs))"
  by (induction xs arbitrary: ns) auto

definition faithful :: "('s, 'e, 'ns) python \<Rightarrow> 'ns \<Rightarrow> client \<Rightarrow> bool" where
  "faithful P ns c \<longleftrightarrow> cl_index c = length (cl_log c) \<and> map snd (cl_log c) = map Inr (replies P ns (map fst (cl_log c)))"

definition unfailed :: "client \<Rightarrow> bool" where
  "unfailed c \<longleftrightarrow> (\<forall>(_, r) \<in> set (cl_log c). \<exists>x. r = Inr x)"

text \<open>The namespace, and the reply that is due, when the snippets in the log have run.\<close>

definition ns_reached :: "('s, 'e, 'ns) python \<Rightarrow> 'ns \<Rightarrow> client \<Rightarrow> 'ns" where
  "ns_reached P ns c = after_all P ns (map fst (cl_log c))"

text \<open>The files of the session: no request after \<open>k\<close>, that of \<open>k\<close> is \<open>q\<close>; no response after \<open>k\<close>, that of
  \<open>k\<close> is \<open>p\<close>.\<close>

definition exchanged :: "files \<Rightarrow> nat \<Rightarrow> str option \<Rightarrow> str option \<Rightarrow> bool" where
  "exchanged f k q p \<longleftrightarrow> f (request_path k) = q \<and> f (response_path k) = p \<and>
     (\<forall>j > k. f (request_path j) = None \<and> f (response_path j) = None)"

text \<open>The guest, seen from a call: it has not yet cleaned up after the last one; it serves this one; it has
  served it.\<close>

inductive in_phase :: "('s, 'e, 'ns) python \<Rightarrow> 'ns \<Rightarrow> 'ns exchange \<Rightarrow> bool" for P ns where
  Behind: "\<lbrakk>exchanged f (cl_index c) (cl_waiting c) None; cl_index c = Suc i; f (request_path i) \<noteq> None\<rbrakk> \<Longrightarrow>
    in_phase P ns (f, \<lparr>rs_index = i, rs_namespace = ns_reached P ns c, rs_at = Removing\<rparr>, c)"
| Idle: "exchanged f (cl_index c) (cl_waiting c) None \<Longrightarrow>
    in_phase P ns (f, \<lparr>rs_index = cl_index c, rs_namespace = ns_reached P ns c, rs_at = Polling\<rparr>, c)"
| Serving: "\<lbrakk>exchanged f (cl_index c) (Some x) None; cl_waiting c = Some x; a = Opening \<or> a = Running x\<rbrakk> \<Longrightarrow>
    in_phase P ns (f, \<lparr>rs_index = cl_index c, rs_namespace = ns_reached P ns c, rs_at = a\<rparr>, c)"
| Answering: "\<lbrakk>exchanged f (cl_index c) (Some x) None; cl_waiting c = Some x; execute P x (ns_reached P ns c) = (r, ns');
      a = Writing (reply_text r) \<or> a = Replacing \<and> f (temporary_path (cl_index c)) = Some (reply_text r)\<rbrakk> \<Longrightarrow>
    in_phase P ns (f, \<lparr>rs_index = cl_index c, rs_namespace = ns', rs_at = a\<rparr>, c)"
| Answered: "\<lbrakk>exchanged f (cl_index c) (Some x) (Some (reply_text r)); cl_waiting c = Some x;
      execute P x (ns_reached P ns c) = (r, ns')\<rbrakk> \<Longrightarrow>
    in_phase P ns (f, \<lparr>rs_index = cl_index c, rs_namespace = ns', rs_at = Removing\<rparr>, c)"
| Ahead: "\<lbrakk>exchanged f (cl_index c) None (Some (reply_text r)); cl_waiting c = Some x;
      execute P x (ns_reached P ns c) = (r, ns')\<rbrakk> \<Longrightarrow>
    in_phase P ns (f, \<lparr>rs_index = Suc (cl_index c), rs_namespace = ns', rs_at = Polling\<rparr>, c)"

lemma exchanged_next: "exchanged f k q p \<Longrightarrow> exchanged f (Suc k) None None"
  by (auto simp: exchanged_def)

lemma exchanged_upd:
  "exchanged f k q p \<Longrightarrow> exchanged (f(request_path k := q')) k q' p"
  "exchanged f k q p \<Longrightarrow> exchanged (f(response_path k \<mapsto> t, temporary_path k := None)) k q (Some t)"
  "exchanged f k q p \<Longrightarrow> exchanged (f(temporary_path i := z)) k q p"
  "exchanged f k q p \<Longrightarrow> i < k \<Longrightarrow> exchanged (f(request_path i := z)) k q p"
  by (auto simp: exchanged_def)

lemma phase_served:
  assumes "in_phase P ns (f, rs, c)" "server_step P f rs = Some (f', rs')"
  shows "in_phase P ns (f', rs', c)"
  using assms(1)
proof cases
  case (Behind i)
  then have "f' = f(request_path i := None)"
    "rs' = \<lparr>rs_index = cl_index c, rs_namespace = ns_reached P ns c, rs_at = Polling\<rparr>"
    using assms(2) by (auto simp: server_step_def)
  moreover have "exchanged (f(request_path i := None)) (cl_index c) (cl_waiting c) None"
    using Behind by (intro exchanged_upd) auto
  ultimately show ?thesis using in_phase.Idle by simp
next
  case Idle
  then show ?thesis using assms(2)
    by (auto simp: server_step_def exchanged_def split: if_splits intro!: in_phase.Serving)
next
  case (Serving x a)
  have q: "f (request_path (cl_index c)) = Some x" using Serving by (simp add: exchanged_def)
  from Serving(4) show ?thesis
  proof
    assume "a = Opening"
    then have "f' = f" "rs' = \<lparr>rs_index = cl_index c, rs_namespace = ns_reached P ns c, rs_at = Running x\<rparr>"
      using assms(2) Serving(1) q by (auto simp: server_step_def)
    then show ?thesis using in_phase.Serving [OF Serving(2,3), of "Running x"] by simp
  next
    assume "a = Running x"
    obtain r ns' where r: "execute P x (ns_reached P ns c) = (r, ns')" by (cases "execute P x (ns_reached P ns c)") auto
    then have "f' = f" "rs' = \<lparr>rs_index = cl_index c, rs_namespace = ns', rs_at = Writing (reply_text r)\<rparr>"
      using assms(2) Serving(1) \<open>a = Running x\<close> by (auto simp: server_step_def)
    then show ?thesis using in_phase.Answering [OF Serving(2,3) r, of "Writing (reply_text r)"] by simp
  qed
next
  case (Answering x r ns' a)
  from Answering(5) show ?thesis
  proof (elim disjE conjE)
    assume "a = Writing (reply_text r)"
    then have "f' = f(temporary_path (cl_index c) \<mapsto> reply_text r)"
      "rs' = \<lparr>rs_index = cl_index c, rs_namespace = ns', rs_at = Replacing\<rparr>"
      using assms(2) Answering(1) by (auto simp: server_step_def)
    then show ?thesis using in_phase.Answering [OF exchanged_upd(3) [OF Answering(2)] Answering(3,4), of Replacing] by simp
  next
    assume "a = Replacing" "f (temporary_path (cl_index c)) = Some (reply_text r)"
    then have "f' = f(response_path (cl_index c) \<mapsto> reply_text r, temporary_path (cl_index c) := None)"
      "rs' = \<lparr>rs_index = cl_index c, rs_namespace = ns', rs_at = Removing\<rparr>"
      using assms(2) Answering(1) by (auto simp: server_step_def)
    then show ?thesis using in_phase.Answered [OF exchanged_upd(2) [OF Answering(2)] Answering(3,4)] by simp
  qed
next
  case (Answered x r ns')
  then show ?thesis using assms(2)
    by (auto simp: server_step_def exchanged_def intro!: in_phase.Ahead)
next
  case Ahead
  then show ?thesis using assms(2) by (simp add: server_step_def exchanged_def)
qed

lemma faithful_reply:
  assumes "faithful P ns c" "cl_waiting c = Some x" "execute P x (ns_reached P ns c) = (r, ns')"
  shows "faithful P ns (c\<lparr>cl_waiting := None, cl_index := Suc (cl_index c), cl_log := cl_log c @ [(x, Inr r)]\<rparr>)"
    "ns_reached P ns (c\<lparr>cl_waiting := None, cl_index := Suc (cl_index c), cl_log := cl_log c @ [(x, Inr r)]\<rparr>) = ns'"
  using assms by (simp_all add: faithful_def ns_reached_def replies_append after_append)

text \<open>Reachable states.\<close>

definition session_inv :: "('s, 'e, 'ns) python \<Rightarrow> 'ns \<Rightarrow> 'ns exchange \<Rightarrow> bool" where
  "session_inv P ns t \<longleftrightarrow> (unfailed (snd (snd t)) \<longrightarrow> faithful P ns (snd (snd t)) \<and> in_phase P ns t)"

lemma session_inv_start: "session_inv P ns (start_exchange ns)"
proof -
  define c where "c = \<lparr>cl_index = 0, cl_waiting = None, cl_log = []\<rparr>"
  have "in_phase P ns (Map.empty, \<lparr>rs_index = cl_index c, rs_namespace = ns_reached P ns c, rs_at = Polling\<rparr>, c)"
    by (rule in_phase.Idle) (simp add: exchanged_def c_def)
  then show ?thesis by (simp add: session_inv_def start_exchange_def faithful_def ns_reached_def c_def)
qed

lemma unfailed_log: "unfailed (c\<lparr>cl_waiting := w, cl_index := i, cl_log := cl_log c @ [(x, r)]\<rparr>) \<longleftrightarrow> unfailed c \<and> (\<exists>y. r = Inr y)"
  "unfailed (c\<lparr>cl_waiting := w\<rparr>) = unfailed c" "unfailed (c\<lparr>cl_waiting := w, cl_log := cl_log c @ [(x, r)]\<rparr>) \<longleftrightarrow> unfailed c \<and> (\<exists>y. r = Inr y)"
  by (auto simp: unfailed_def)

text \<open>A call from the host, and its reply.\<close>

lemma phase_called:
  assumes "in_phase P ns (f, rs, c)" "cl_waiting c = None"
  shows "in_phase P ns (f(request_path (cl_index c) \<mapsto> x), rs, c\<lparr>cl_waiting := Some x\<rparr>)"
proof -
  let ?c = "c\<lparr>cl_waiting := Some x\<rparr>" and ?f = "f(request_path (cl_index c) \<mapsto> x)"
  have r: "ns_reached P ns ?c = ns_reached P ns c" by (simp add: ns_reached_def)
  show ?thesis using assms(1)
  proof cases
    case (Behind i)
    then have "in_phase P ns (?f, \<lparr>rs_index = i, rs_namespace = ns_reached P ns ?c, rs_at = Removing\<rparr>, ?c)"
      using assms(2) exchanged_upd(1) [of f "cl_index c"] by (intro in_phase.Behind) auto
    with Behind r show ?thesis by simp
  next
    case Idle
    then have "in_phase P ns (?f, \<lparr>rs_index = cl_index ?c, rs_namespace = ns_reached P ns ?c, rs_at = Polling\<rparr>, ?c)"
      using assms(2) exchanged_upd(1) [of f "cl_index c"] by (intro in_phase.Idle) auto
    with Idle r show ?thesis by simp
  qed (use assms(2) in auto)
qed

lemma phase_replied:
  assumes "in_phase P ns (f, rs, c)" "faithful P ns c" "cl_waiting c = Some x" "f (response_path (cl_index c)) = Some t"
    and wf: "\<And>z n. reply_wf (fst (execute P z n))"
  shows "let c' = c\<lparr>cl_waiting := None, cl_index := Suc (cl_index c), cl_log := cl_log c @ [(x, session_reply t)]\<rparr> in
    faithful P ns c' \<and> in_phase P ns (f, rs, c')"
proof -
  show ?thesis using assms(1)
  proof cases
    case (Answered y r ns')
    define c' where "c' = c\<lparr>cl_waiting := None, cl_index := Suc (cl_index c), cl_log := cl_log c @ [(x, session_reply t)]\<rparr>"
    have x: "y = x" "t = reply_text r" using Answered assms(3,4) by (auto simp: exchanged_def)
    have reply: "session_reply t = Inr r" using wf [of x "ns_reached P ns c"] Answered(4) x reply_read by simp
    note ended = faithful_reply [OF assms(2,3) Answered(4) [unfolded x(1)], folded reply, folded c'_def]
    have "exchanged f (cl_index c') (cl_waiting c') None" using exchanged_next [OF Answered(2)] by (simp add: c'_def)
    then have "in_phase P ns (f, \<lparr>rs_index = cl_index c, rs_namespace = ns_reached P ns c', rs_at = Removing\<rparr>, c')"
      by (rule in_phase.Behind) (use Answered in \<open>auto simp: c'_def exchanged_def\<close>)
    with ended Answered(1) show ?thesis by (simp add: c'_def [symmetric] Let_def)
  next
    case (Ahead r y ns')
    define c' where "c' = c\<lparr>cl_waiting := None, cl_index := Suc (cl_index c), cl_log := cl_log c @ [(x, session_reply t)]\<rparr>"
    have x: "y = x" "t = reply_text r" using Ahead assms(3,4) by (auto simp: exchanged_def)
    have reply: "session_reply t = Inr r" using wf [of x "ns_reached P ns c"] Ahead(4) x reply_read by simp
    note ended = faithful_reply [OF assms(2,3) Ahead(4) [unfolded x(1)], folded reply, folded c'_def]
    have "exchanged f (cl_index c') (cl_waiting c') None" using exchanged_next [OF Ahead(2)] by (simp add: c'_def)
    then have "in_phase P ns (f, \<lparr>rs_index = cl_index c', rs_namespace = ns_reached P ns c', rs_at = Polling\<rparr>, c')"
      by (rule in_phase.Idle)
    with ended Ahead(1) show ?thesis by (simp add: c'_def [symmetric] Let_def) (simp add: c'_def)
  qed (use assms(3,4) in \<open>auto simp: exchanged_def\<close>)
qed

lemma session_inv_step:
  assumes "exchange_step P t t'" "session_inv P ns t" and wf: "\<And>z n. reply_wf (fst (execute P z n))"
  shows "session_inv P ns t'"
  using assms(1)
proof cases
  case (Serve f rs f' rs' c)
  then show ?thesis using assms(2) phase_served by (auto simp: session_inv_def)
next
  case (Call c f rs x)
  then show ?thesis using assms(2) phase_called [of P ns f rs c]
    by (auto simp: session_inv_def unfailed_log faithful_def)
next
  case (Reply c x f s rs)
  then show ?thesis using assms(2) Reply(3,4) wf
      phase_replied [where P = P and ns = ns and f = f and rs = rs and c = c and x = x and t = s]
    by (auto simp: session_inv_def unfailed_log Let_def)
next
  case (Fail c x f rs e)
  then show ?thesis by (simp add: session_inv_def unfailed_log)
qed

lemma session_inv_reachable:
  assumes "(exchange_step P)\<^sup>*\<^sup>* (start_exchange ns) t" and wf: "\<And>z n. reply_wf (fst (execute P z n))"
  shows "session_inv P ns t"
  using assms(1) by induction (simp_all add: session_inv_start session_inv_step wf)

end
