(* ===== verification/Async_Sandbox.thy ===== *)
theory Async_Sandbox
  imports Sandbox_Properties
begin

text \<open>
  \<open>src/agentnest/async_sandbox.py\<close>: \<open>AsyncSandbox.stream_shell\<close>, the bridge from the generator of a sandbox,
  which runs in a worker thread, to an asynchronous iterator of the event loop. The threads are a step relation:
  the producer schedules events on the loop, the loop puts them on the queue, the consumer takes them from it.
  The other methods only hand the method of the same name to a worker thread and wait for it.
\<close>

section \<open>Methods in a worker thread\<close>

text \<open>\<open>await asyncio.to_thread(m)\<close>: the outcome of \<open>m\<close>, exception included, is that of the call. Calls are
  interleaved as whole steps, as those of the sandbox.\<close>

definition to_thread :: "('e, 's, 'a) comp \<Rightarrow> ('e, 's, 'a) comp" where
  "to_thread m = m"

definition async_create :: "('b, 'w) ambient \<Rightarrow> 'b \<Rightarrow> sandbox_args \<Rightarrow> (exn, 'w outside, 'b sandbox) comp" where
  "async_create A b a = to_thread (init A b a)"

definition async_exec_python ::
  "('b, 'w) ambient \<Rightarrow> str \<Rightarrow> rat option \<Rightarrow> secret_env \<Rightarrow> str option \<Rightarrow> ('b, 'w, exec_result) sandbox_method" where
  "async_exec_python A source t env wd = to_thread (exec_python A source t env wd)"

definition async_exec_shell ::
  "('b, 'w) ambient \<Rightarrow> str \<Rightarrow> rat option \<Rightarrow> secret_env \<Rightarrow> str option \<Rightarrow> ('b, 'w, exec_result) sandbox_method" where
  "async_exec_shell A shell_script t env wd = to_thread (exec_shell A shell_script t env wd)"

definition async_write_file :: "('b, 'w) ambient \<Rightarrow> str \<Rightarrow> content \<Rightarrow> ('b, 'w, unit) sandbox_method" where
  "async_write_file A path c = to_thread (write_file A path c)"

definition async_read_file :: "('b, 'w) ambient \<Rightarrow> str \<Rightarrow> bool \<Rightarrow> ('b, 'w, content) sandbox_method" where
  "async_read_file A path decoded = to_thread (read_file A path decoded)"

definition async_snapshot :: "('b, 'w) ambient \<Rightarrow> str \<Rightarrow> ('b, 'w, snapshot_metadata) sandbox_method" where
  "async_snapshot A destination = to_thread (snapshot A destination)"

definition async_restore :: "('b, 'w) ambient \<Rightarrow> str \<Rightarrow> ('b, 'w, unit) sandbox_method" where
  "async_restore A src = to_thread (restore A src)"

definition async_logs :: "('b, 'w) ambient \<Rightarrow> ('b, 'w, str) sandbox_method" where
  "async_logs A = to_thread (logs A)"

definition async_destroy :: "('b, 'w) ambient \<Rightarrow> ('b, 'w, unit) sandbox_method" where
  "async_destroy A = to_thread (destroy A)"

text \<open>\<open>async with sandbox: m\<close>; unlike \<open>Sandbox.__enter__\<close> it does not look whether the sandbox is active.\<close>

definition async_with :: "('b, 'w) ambient \<Rightarrow> ('b, 'w, 'a) sandbox_method \<Rightarrow> ('b, 'w, 'a) sandbox_method" where
  "async_with A m = try_finally m (async_destroy A)"

section \<open>State\<close>

datatype stream_event = ChunkEvent exec_chunk | ErrorEvent exn | NoEvent

datatype producer = Producing | Closing | Returned

datatype consumer = Iterating | Joining | Finished_with "exn + unit"

record bridge =
  br_todo :: "exec_chunk list"
  br_failure :: "exn option"
  br_producer :: producer
  br_scheduled :: "stream_event list"
  br_queue :: "stream_event list"
  br_consumer :: consumer
  br_yielded :: "exec_chunk list"

text \<open>What iterating over the generator gives: its chunks and what it raises in the end.\<close>

definition generated :: "exn + stream_result \<Rightarrow> exec_chunk list \<times> exn option" where
  "generated r = (case r of Inl e \<Rightarrow> ([], Some e) | Inr (cs, failure) \<Rightarrow> (cs, failure))"

definition open_bridge :: "exn + stream_result \<Rightarrow> bridge" where
  "open_bridge r = \<lparr>br_todo = fst (generated r), br_failure = snd (generated r), br_producer = Producing,
     br_scheduled = [], br_queue = [], br_consumer = Iterating, br_yielded = []\<rparr>"

definition async_stream_shell ::
  "('b, 'w) ambient \<Rightarrow> str \<Rightarrow> rat option \<Rightarrow> secret_env \<Rightarrow> str option \<Rightarrow> ('b, 'w) state \<Rightarrow> bridge \<times> ('b, 'w) state" where
  "async_stream_shell A shell_script t env wd s =
     (case stream_shell A shell_script t env wd s of (r, s') \<Rightarrow> (open_bridge r, s'))"

section \<open>Steps\<close>

text \<open>\<open>produce\<close>: the next chunk, the exception, and \<open>None\<close> in the \<open>finally\<close> clause.\<close>

definition post_event :: "stream_event \<Rightarrow> bridge \<Rightarrow> bridge" where
  "post_event ev b = b\<lparr>br_scheduled := br_scheduled b @ [ev]\<rparr>"

definition produce :: "bridge \<Rightarrow> bridge option" where
  "produce b = (case br_producer b of
     Producing \<Rightarrow> (case br_todo b of
         c # cs \<Rightarrow> Some (post_event (ChunkEvent c) (b\<lparr>br_todo := cs\<rparr>))
       | [] \<Rightarrow> (case br_failure b of
           None \<Rightarrow> Some (b\<lparr>br_producer := Closing\<rparr>)
         | Some e \<Rightarrow> Some (post_event (ErrorEvent e) (b\<lparr>br_producer := Closing\<rparr>))))
   | Closing \<Rightarrow> Some (post_event NoEvent (b\<lparr>br_producer := Returned\<rparr>))
   | Returned \<Rightarrow> None)"

text \<open>The loop runs the callbacks in the order they were scheduled.\<close>

definition deliver :: "bridge \<Rightarrow> bridge option" where
  "deliver b = (case br_scheduled b of [] \<Rightarrow> None
     | ev # evs \<Rightarrow> Some (b\<lparr>br_scheduled := evs, br_queue := br_queue b @ [ev]\<rparr>))"

text \<open>One round of the consumer's loop, or the wait for the producer after it.\<close>

definition consume :: "bridge \<Rightarrow> bridge option" where
  "consume b = (case br_consumer b of
     Iterating \<Rightarrow> (case br_queue b of
         [] \<Rightarrow> None
       | NoEvent # evs \<Rightarrow> Some (b\<lparr>br_queue := evs, br_consumer := Joining\<rparr>)
       | ErrorEvent e # evs \<Rightarrow> Some (b\<lparr>br_queue := evs, br_consumer := Finished_with (Inl e)\<rparr>)
       | ChunkEvent c # evs \<Rightarrow> Some (b\<lparr>br_queue := evs, br_yielded := br_yielded b @ [c]\<rparr>))
   | Joining \<Rightarrow> if br_producer b = Returned then Some (b\<lparr>br_consumer := Finished_with (Inr ())\<rparr>) else None
   | Finished_with _ \<Rightarrow> None)"

inductive bridge_step :: "bridge \<Rightarrow> bridge \<Rightarrow> bool" where
  worker: "produce b = Some b' \<Longrightarrow> bridge_step b b'"
| loop: "deliver b = Some b' \<Longrightarrow> bridge_step b b'"
| iterator: "consume b = Some b' \<Longrightarrow> bridge_step b b'"

inductive_cases bridge_stepE: "bridge_step b b'"

section \<open>The invariant\<close>

text \<open>The events that are on their way or to come, in order.\<close>

definition upcoming :: "bridge \<Rightarrow> stream_event list" where
  "upcoming b = br_queue b @ br_scheduled b @ (case br_producer b of
     Producing \<Rightarrow> map ChunkEvent (br_todo b) @ map ErrorEvent (case br_failure b of None \<Rightarrow> [] | Some e \<Rightarrow> [e]) @ [NoEvent]
   | Closing \<Rightarrow> [NoEvent] | Returned \<Rightarrow> [])"

definition script :: "exec_chunk list \<Rightarrow> exn option \<Rightarrow> stream_event list" where
  "script cs failure = map ChunkEvent cs @ map ErrorEvent (case failure of None \<Rightarrow> [] | Some e \<Rightarrow> [e]) @ [NoEvent]"

definition bridge_inv :: "exec_chunk list \<Rightarrow> exn option \<Rightarrow> bridge \<Rightarrow> bool" where
  "bridge_inv cs failure b \<longleftrightarrow> br_failure b = failure \<and> (case br_consumer b of
     Iterating \<Rightarrow> \<exists>rest. cs = br_yielded b @ rest \<and> upcoming b = script rest failure
   | Joining \<Rightarrow> br_yielded b = cs \<and> failure = None \<and> br_producer b = Returned
   | Finished_with q \<Rightarrow> br_yielded b = cs \<and> q = (case failure of None \<Rightarrow> Inr () | Some e \<Rightarrow> Inl e))"

lemma produce_upcoming: "produce b = Some b' \<Longrightarrow> upcoming b' = upcoming b \<and> br_failure b' = br_failure b \<and>
    br_yielded b' = br_yielded b \<and> br_consumer b' = br_consumer b \<and> br_producer b \<noteq> Returned"
  by (auto simp: produce_def upcoming_def post_event_def split: producer.splits list.splits option.splits)

lemma deliver_upcoming: "deliver b = Some b' \<Longrightarrow> upcoming b' = upcoming b \<and> br_failure b' = br_failure b \<and>
    br_yielded b' = br_yielded b \<and> br_consumer b' = br_consumer b \<and> br_producer b' = br_producer b"
  by (cases "br_producer b") (auto simp: deliver_def upcoming_def split: list.splits)

lemma script_cases:
  assumes "ev # evs = script cs failure"
  obtains (chunk) c rest where "cs = c # rest" "ev = ChunkEvent c" "evs = script rest failure"
  | (error) e where "cs = []" "failure = Some e" "ev = ErrorEvent e"
  | (last) "cs = []" "failure = None" "ev = NoEvent" "evs = []"
  using assms by (cases cs; cases failure) (auto simp: script_def)

lemma consume_inv:
  assumes inv: "bridge_inv cs failure b" and step: "consume b = Some b'"
  shows "bridge_inv cs failure b'"
proof (cases "br_consumer b")
  case Iterating
  with step obtain ev evs where q: "br_queue b = ev # evs" by (auto simp: consume_def split: list.splits)
  define b1 where "b1 = b\<lparr>br_queue := evs\<rparr>"
  have up: "upcoming b = ev # upcoming b1" by (cases "br_producer b") (simp_all add: upcoming_def q b1_def)
  from inv Iterating up obtain rest where rest: "cs = br_yielded b @ rest" "ev # upcoming b1 = script rest failure"
    and fail: "br_failure b = failure"
    by (auto simp: bridge_inv_def)
  from rest(2) show ?thesis
  proof (cases rule: script_cases)
    case (chunk c rest')
    have "upcoming (b1\<lparr>br_yielded := ys\<rparr>) = upcoming b1" for ys by (cases "br_producer b1") (simp_all add: upcoming_def)
    with chunk rest(1) fail step Iterating q show ?thesis
      by (auto simp: consume_def bridge_inv_def b1_def)
  next
    case (error e)
    with rest(1) fail step Iterating q show ?thesis by (auto simp: consume_def bridge_inv_def)
  next
    case last
    from last(4) have "br_producer b = Returned"
      by (cases "br_producer b") (auto simp: upcoming_def b1_def)
    with last rest(1) fail step Iterating q show ?thesis by (auto simp: consume_def bridge_inv_def)
  qed
qed (use assms in \<open>auto simp: consume_def bridge_inv_def split: if_splits\<close>)

lemma bridge_step_inv: "bridge_inv cs failure b \<Longrightarrow> bridge_step b b' \<Longrightarrow> bridge_inv cs failure b'"
proof (elim bridge_stepE)
  assume inv: "bridge_inv cs failure b" and "produce b = Some b'"
  with produce_upcoming [of b b'] show "bridge_inv cs failure b'"
    by (cases "br_consumer b") (auto simp: bridge_inv_def)
next
  assume inv: "bridge_inv cs failure b" and "deliver b = Some b'"
  with deliver_upcoming [of b b'] show "bridge_inv cs failure b'"
    by (cases "br_consumer b") (auto simp: bridge_inv_def)
qed (rule consume_inv)

lemma bridge_inv_open: "bridge_inv (fst (generated r)) (snd (generated r)) (open_bridge r)"
  by (simp add: bridge_inv_def open_bridge_def upcoming_def script_def)

section \<open>Progress\<close>

definition remaining :: "bridge \<Rightarrow> nat" where
  "remaining b = 3 * length (br_todo b) + 2 * length (br_scheduled b) + length (br_queue b) +
     (case br_producer b of Producing \<Rightarrow> 6 | Closing \<Rightarrow> 3 | Returned \<Rightarrow> 0) +
     (case br_consumer b of Iterating \<Rightarrow> 2 | Joining \<Rightarrow> 1 | Finished_with _ \<Rightarrow> 0)"

lemma step_remaining: "bridge_step b b' \<Longrightarrow> Suc (remaining b') \<le> remaining b"
  by (elim bridge_stepE)
    (auto simp: produce_def deliver_def consume_def post_event_def remaining_def
      split: producer.splits list.splits option.splits consumer.splits stream_event.splits if_splits)

lemma bridge_run:
  assumes "(bridge_step ^^ n) b b'"
  shows "n + remaining b' \<le> remaining b" "bridge_inv cs failure b \<Longrightarrow> bridge_inv cs failure b'"
  using assms
proof (induction n arbitrary: b')
  case (Suc n)
  {
    case 1
    then obtain c where "(bridge_step ^^ n) b c" "bridge_step c b'" by auto
    with Suc.IH(1) [of c] step_remaining [of c b'] show ?case by linarith
  next
    case 2
    then obtain c where "(bridge_step ^^ n) b c" "bridge_step c b'" by auto
    with Suc.IH(2) [of c] 2 bridge_step_inv show ?case by blast
  }
qed auto

lemma bridge_progress:
  assumes inv: "bridge_inv cs failure b" and "\<forall>q. br_consumer b \<noteq> Finished_with q"
  shows "\<exists>b'. bridge_step b b'"
proof (cases "br_producer b = Returned")
  case False
  then have "\<exists>b'. produce b = Some b'"
    by (auto simp: produce_def split: producer.splits list.splits option.splits)
  then show ?thesis by (auto intro: bridge_step.intros)
next
  case returned: True
  show ?thesis
  proof (cases "br_scheduled b")
    case (Cons ev evs)
    then show ?thesis by (auto intro!: bridge_step.intros(2) simp: deliver_def)
  next
    case Nil
    have "\<exists>b'. consume b = Some b'"
    proof (cases "br_consumer b")
      case Iterating
      with inv returned Nil obtain rest where "br_queue b = script rest failure"
        by (auto simp: bridge_inv_def upcoming_def)
      then have "br_queue b \<noteq> []" by (simp add: script_def)
      with Iterating show ?thesis by (auto simp: consume_def neq_Nil_conv split: stream_event.split)
    qed (use assms returned in \<open>auto simp: consume_def\<close>)
    then show ?thesis by (auto intro: bridge_step.intros)
  qed
qed

section \<open>The property\<close>

text \<open>
  C33. The asynchronous stream gives what the synchronous one gives: under every schedule of the worker thread,
  the loop and the consumer, the chunks yielded so far are the first chunks of the generator in order; an
  iteration that is over has yielded all of them and ended as the generator did, with its exception if it raised
  one; one that is not over can go on, and no schedule has more than \<open>3 n + 8\<close> steps for \<open>n\<close> chunks.
\<close>

theorem async_stream_faithful:
  assumes "(bridge_step ^^ n) (fst (async_stream_shell A shell_script t env wd s)) b"
  shows "case generated (fst (stream_shell A shell_script t env wd s)) of (chunks, failure) \<Rightarrow>
    prefix (br_yielded b) chunks \<and>
    (case br_consumer b of
       Finished_with q \<Rightarrow> br_yielded b = chunks \<and> q = (case failure of None \<Rightarrow> Inr () | Some e \<Rightarrow> Inl e)
     | _ \<Rightarrow> \<exists>b'. bridge_step b b') \<and>
    n \<le> 3 * length chunks + 8"
proof -
  let ?r = "fst (stream_shell A shell_script t env wd s)"
  have start: "fst (async_stream_shell A shell_script t env wd s) = open_bridge ?r"
    by (simp add: async_stream_shell_def split_beta)
  note run = assms [unfolded start]
  note inv = bridge_run(2) [OF run bridge_inv_open]
  have "n + remaining b \<le> 3 * length (fst (generated ?r)) + 8"
    using bridge_run(1) [OF run] by (simp add: remaining_def open_bridge_def)
  moreover have "prefix (br_yielded b) (fst (generated ?r))"
    using inv by (auto simp: bridge_inv_def split: consumer.splits)
  ultimately show ?thesis
    using inv bridge_progress [OF inv] by (cases "br_consumer b") (auto simp: bridge_inv_def split_beta)
qed

lemma bridge_starts: "\<exists>b. (bridge_step ^^ 1) (open_bridge r) b"
proof -
  have "produce (open_bridge r) \<noteq> None"
    by (simp add: produce_def open_bridge_def split: list.split option.split)
  then show ?thesis by (auto intro: bridge_step.intros(1))
qed

lemma async_stream_faithful_witness:
  "\<exists>b. (bridge_step ^^ 1) (fst (async_stream_shell (demo_ambient allow_all) ''echo hi'' None [] None (demo_sb, demo_out))) b \<and>
    (case generated (fst (stream_shell (demo_ambient allow_all) ''echo hi'' None [] None (demo_sb, demo_out))) of (chunks, failure) \<Rightarrow>
    prefix (br_yielded b) chunks \<and>
    (case br_consumer b of
       Finished_with q \<Rightarrow> br_yielded b = chunks \<and> q = (case failure of None \<Rightarrow> Inr () | Some e \<Rightarrow> Inl e)
     | _ \<Rightarrow> \<exists>b'. bridge_step b b') \<and>
    1 \<le> 3 * length chunks + 8)"
proof -
  let ?s = "async_stream_shell (demo_ambient allow_all) ''echo hi'' None [] None (demo_sb, demo_out)"
  have "fst ?s = open_bridge (fst (stream_shell (demo_ambient allow_all) ''echo hi'' None [] None (demo_sb, demo_out)))"
    by (simp only: async_stream_shell_def split_beta fst_conv)
  with bridge_starts obtain b where b: "(bridge_step ^^ 1) (fst ?s) b" by metis
  from b async_stream_faithful [OF b] show ?thesis by (intro exI conjI)
qed

end
