(* ===== verification/Event_Logs.thy ===== *)
theory Event_Logs
  imports Approvals Json_Parse "HOL-Library.List_Lexorder" "HOL-Library.Char_ord"
begin

text \<open>
  The rest of \<open>src/agentnest/events.py\<close>: the payload of an event, the JSON log and the attributes of an
  OpenTelemetry span. The logger and the tracer are libraries: what is modelled is what they are given.
\<close>

fun detail_json :: "detail \<Rightarrow> json" where
  "detail_json (DText s) = JStr s"
| "detail_json (DInt n) = JInt n"
| "detail_json (DBool b) = JBool b"
| "detail_json (DRat q) = JFloat q"
| "detail_json (DList ss) = JList (map JStr ss)"
| "detail_json DNone = JNull"

text \<open>\<open>SandboxEvent.to_dict\<close>.\<close>

definition event_payload :: "sandbox_event \<Rightarrow> (str, json) dict" where
  "event_payload ev = [(''type'', JStr (event_value (ev_type ev))), (''sandbox_id'', JStr (ev_sandbox ev)),
     (''timestamp'', JFloat (ev_timestamp ev)), (''attributes'', JObj (map (map_prod id detail_json) (ev_attributes ev))),
     (''event_id'', JStr (ev_id ev))]"

text \<open>\<open>sort_keys=True\<close>, at every level.\<close>

primrec sort_keys :: "json \<Rightarrow> json" where
  "sort_keys JNull = JNull"
| "sort_keys (JBool b) = JBool b"
| "sort_keys (JInt n) = JInt n"
| "sort_keys (JFloat q) = JFloat q"
| "sort_keys (JStr s) = JStr s"
| "sort_keys (JList vs) = JList (map sort_keys vs)"
| "sort_keys (JObj d) = JObj (sort_key fst (map (map_prod id sort_keys) d))"

text \<open>\<open>JsonLogObserver.emit\<close>: the line that is logged.\<close>

definition json_log_line :: "(rat \<Rightarrow> str) \<Rightarrow> sandbox_event \<Rightarrow> str" where
  "json_log_line fr ev = json_dumps fr (sort_keys (JObj (event_payload ev)))"

text \<open>\<open>OpenTelemetryObserver.emit\<close>: the name of the span and its attributes; a later one with the same key
  replaces an earlier one.\<close>

fun span_value :: "detail \<Rightarrow> bool" where
  "span_value (DList _) = False" | "span_value DNone = False" | "span_value _ = True"

definition span_attributes :: "sandbox_event \<Rightarrow> (str, detail) dict" where
  "span_attributes ev = fold (\<lambda>(k, v) d. if span_value v then dict_set (''agentnest.'' @ k) v d else d) (ev_attributes ev)
     [(''agentnest.event_id'', DText (ev_id ev)), (''agentnest.sandbox_id'', DText (ev_sandbox ev))]"

definition span_of :: "sandbox_event \<Rightarrow> str \<times> (str, detail) dict" where
  "span_of ev = (event_value (ev_type ev), span_attributes ev)"

text \<open>A span names its event and sandbox, unless an attribute has one of their names.\<close>

lemma span_identity:
  assumes "''event_id'' \<notin> fst ` set (ev_attributes ev)" "''sandbox_id'' \<notin> fst ` set (ev_attributes ev)"
  shows "map_of (span_attributes ev) ''agentnest.event_id'' = Some (DText (ev_id ev))"
    "map_of (span_attributes ev) ''agentnest.sandbox_id'' = Some (DText (ev_sandbox ev))"
proof -
  have keep: "map_of (fold (\<lambda>(k, v) d. if span_value v then dict_set (''agentnest.'' @ k) v d else d) xs d) (''agentnest.'' @ n)
      = map_of d (''agentnest.'' @ n)" if "n \<notin> fst ` set xs" for xs d n
    using that by (induction xs arbitrary: d) auto
  from keep [OF assms(1)] keep [OF assms(2)]
  show "map_of (span_attributes ev) ''agentnest.event_id'' = Some (DText (ev_id ev))"
    "map_of (span_attributes ev) ''agentnest.sandbox_id'' = Some (DText (ev_sandbox ev))"
    by (simp_all add: span_attributes_def)
qed

end
