(* ===== verification/Sandbox_Tools.thy ===== *)
theory Sandbox_Tools
  imports Session Registry
begin

text \<open>
  The rest of \<open>src/agentnest/sandbox.py\<close>: what is built on the methods of \<open>Sandbox\<close>, that is JSON results,
  the list of artifacts, copying files from and to the host, the choice of the backend and the context
  manager. The disk of the host is a parameter.
\<close>

section \<open>Results as JSON\<close>

definition exec_json :: "('b, 'w) ambient \<Rightarrow> str \<Rightarrow> rat option \<Rightarrow> secret_env \<Rightarrow> ('b, 'w, json) sandbox_method" where
  "exec_json A source timeout env =
     bnd (exec_python A source timeout env None) (\<lambda>r.
     bnd (of_sum (check_result r)) (\<lambda>r'. of_sum (json_loads (stdout r'))))"

section \<open>Artifacts\<close>

text \<open>The program that lists the files.\<close>

definition artifacts_code :: "str \<Rightarrow> str" where
  "artifacts_code pattern = join_with [CHR 10]
     ['''', ''import hashlib, json'', ''from pathlib import Path'', ''root = Path('' @ py_repr ''/workspace'' @ '')'',
      ''items = []'', ''for path in sorted(root.glob('' @ json_quote pattern @ '')):'',
      ''    if path.is_file() and not path.is_symlink():'', ''        data = path.read_bytes()'',
      ''        items.append({'', ''            '' @ py_repr ''path'' @ '': str(path.relative_to(root)),'',
      ''            '' @ py_repr ''size'' @ '': len(data),'',
      ''            '' @ py_repr ''sha256'' @ '': hashlib.sha256(data).hexdigest(),'',
      ''        })'', ''print(json.dumps(items))'', '''']"

text \<open>\<open>Artifact(**item)\<close>. The class does not check the types of its fields, so they are the values of the
  guest's JSON as they are; another key, a missing one and an item that is no object are a \<open>TypeError\<close>.\<close>

record artifact_item =
  ai_path :: json
  ai_size :: json
  ai_sha256 :: json

definition artifact_of_json :: "json \<Rightarrow> exn + artifact_item" where
  "artifact_of_json v = sum_bind (as_object v) (\<lambda>d.
     sum_bind (only_keys [''path'', ''size'', ''sha256''] d) (\<lambda>_.
     case (map_of d ''path'', map_of d ''size'', map_of d ''sha256'') of
       (Some p, Some n, Some h) \<Rightarrow> Inr \<lparr>ai_path = p, ai_size = n, ai_sha256 = h\<rparr>
     | _ \<Rightarrow> Inl type_error))"

text \<open>The loop over the payload: the elements of a list; the keys of an object and the characters of a text,
  which are no mappings; nothing else can be iterated.\<close>

definition artifacts_of_json :: "json \<Rightarrow> exn + artifact_item list" where
  "artifacts_of_json payload = (case payload of
     JList vs \<Rightarrow> sum_all artifact_of_json vs
   | JObj [] \<Rightarrow> Inr []
   | JStr [] \<Rightarrow> Inr []
   | _ \<Rightarrow> Inl type_error)"

definition pattern_ok :: "str \<Rightarrow> bool" where
  "pattern_ok pattern = (\<not> prefix ''/'' pattern \<and> ''..'' \<notin> set (split_on CHR ''/'' pattern))"

definition artifacts :: "('b, 'w) ambient \<Rightarrow> str \<Rightarrow> ('b, 'w, artifact_item list) sandbox_method" where
  "artifacts A pattern =
     next_do (guard_or (pattern_ok pattern) (value_error ''artifact pattern must stay within the workspace''))
     (bnd (exec_json A (artifacts_code pattern) None []) (\<lambda>payload. of_sum (artifacts_of_json payload)))"

section \<open>Copying files\<close>

record 'w host_disk =
  hd_read :: "str \<Rightarrow> (exn, 'w, bytes) comp"
  hd_make_parents :: "str \<Rightarrow> (exn, 'w, unit) comp"
  hd_write :: "str \<Rightarrow> bytes \<Rightarrow> (exn, 'w, unit) comp"

definition on_world :: "(exn, 'w, 'a) comp \<Rightarrow> ('b, 'w, 'a) sandbox_method" where
  "on_world m = (\<lambda>(sb, out). case m (world out) of (r, w) \<Rightarrow> (r, (sb, out\<lparr>world := w\<rparr>)))"

text \<open>\<open>Path(source).name\<close>: the last component; a path that is only a root has none.\<close>

definition path_name :: "str \<Rightarrow> str" where
  "path_name p = (case rev (path_parts p) of [] \<Rightarrow> [] | c # _ \<Rightarrow> if slash \<in> set c then [] else c)"

definition upload_file :: "'w host_disk \<Rightarrow> ('b, 'w) ambient \<Rightarrow> str \<Rightarrow> str option \<Rightarrow> ('b, 'w, unit) sandbox_method" where
  "upload_file H A src destination =
     (let target = or_else (case destination of None \<Rightarrow> [] | Some d \<Rightarrow> d) (path_name src) in
      bnd (on_world (hd_read H src)) (\<lambda>content. write_file A target (BytesContent content)))"

definition download_file :: "'w host_disk \<Rightarrow> ('b, 'w) ambient \<Rightarrow> str \<Rightarrow> str \<Rightarrow> ('b, 'w, unit) sandbox_method" where
  "download_file H A src destination =
     bnd (read_file A src False) (\<lambda>payload. case payload of
       TextContent _ \<Rightarrow> raise (Exn AssertionError [])
     | BytesContent b \<Rightarrow>
         next_do (on_world (hd_make_parents H destination)) (on_world (hd_write H destination b)))"

section \<open>The backend and the context manager\<close>

datatype 'b backend_choice = BackendName str | BackendInstance 'b

text \<open>The factory that the registry finds makes the instance.\<close>

definition resolve_backend ::
  "(str \<times> (exn + (unit \<Rightarrow> exn + 'b))) list \<Rightarrow> 'b backend_choice \<Rightarrow> (unit \<Rightarrow> exn + 'b, 'b) registry_op" where
  "resolve_backend eps choice = (case choice of
     BackendInstance b \<Rightarrow> ret b
   | BackendName name \<Rightarrow> bnd (find_factory eps name) (\<lambda>f. of_sum (f ())))"

definition enter_sandbox :: "('b, 'w, unit) sandbox_method" where
  "enter_sandbox = ensure_active"

definition exit_sandbox :: "('b, 'w) ambient \<Rightarrow> ('b, 'w, unit) sandbox_method" where
  "exit_sandbox A = destroy A"

text \<open>\<open>with sandbox: m\<close>.\<close>

definition with_context :: "('b, 'w) ambient \<Rightarrow> ('b, 'w, 'a) sandbox_method \<Rightarrow> ('b, 'w, 'a) sandbox_method" where
  "with_context A m = next_do enter_sandbox (try_finally m (exit_sandbox A))"

end
