(* ===== verification/Integrations.thy ===== *)
theory Integrations
  imports Sandbox_Tools
begin

text \<open>
  \<open>src/agentnest/integrations\<close>: the runner that the framework integrations share, the LangChain tool and
  the executor for smolagents, as operations on the runner's sandbox and session and the outside.
\<close>

section \<open>The runner\<close>

record 'b runner =
  ru_sandbox :: "'b sandbox"
  ru_session :: "session option"

type_synonym ('b, 'w, 'a) runner_op = "(exn, 'b runner \<times> 'w outside, 'a) comp"

definition runner_args :: "str \<Rightarrow> rat \<Rightarrow> bool \<Rightarrow> security_policy option \<Rightarrow> sandbox_args" where
  "runner_args img timeout net pol =
     default_args\<lparr>sa_image := img, sa_timeout := timeout, sa_network_enabled := net, sa_policy := pol\<rparr>"

definition new_runner ::
  "('b, 'w) ambient \<Rightarrow> 'b \<Rightarrow> str \<Rightarrow> sandbox_args \<Rightarrow> bool \<Rightarrow> (exn, 'w outside, 'b runner) comp" where
  "new_runner A b server_source a stateful =
     bnd (init A b a) (\<lambda>sb out.
     if stateful
     then (case python_session A server_source (sb, out) of
         (Inl e, (_, out')) \<Rightarrow> (Inl e, out')
       | (Inr ss, (sb', out')) \<Rightarrow> (Inr \<lparr>ru_sandbox = sb', ru_session = Some ss\<rparr>, out'))
     else (Inr \<lparr>ru_sandbox = sb, ru_session = None\<rparr>, out))"

definition combined_text :: "session_result \<Rightarrow> str" where
  "combined_text r =
     (let parts = [strip (sr_stdout r)] @ (case sr_result r of None \<Rightarrow> [] | Some t \<Rightarrow> [t]) @
        (case sr_error r of None \<Rightarrow> [] | Some e \<Rightarrow> [strip e])
      in strip (join_with [CHR 10] (filter (\<lambda>p. p \<noteq> []) parts)))"

definition runner_sandbox :: "('b, 'w, 'a) sandbox_method \<Rightarrow> ('b, 'w, 'a) runner_op" where
  "runner_sandbox m = (\<lambda>(ru, out). case m (ru_sandbox ru, out) of (r, (sb, out')) \<Rightarrow> (r, (ru\<lparr>ru_sandbox := sb\<rparr>, out')))"

definition runner_session :: "session \<Rightarrow> ('b, 'w, 'a) session_op \<Rightarrow> ('b, 'w, 'a) runner_op" where
  "runner_session ss m = (\<lambda>(ru, out). case m (ss, (ru_sandbox ru, out)) of
     (r, (ss', (sb, out'))) \<Rightarrow> (r, (ru\<lparr>ru_sandbox := sb, ru_session := Some ss'\<rparr>, out')))"

definition runner_run ::
  "('b, 'w) ambient \<Rightarrow> ('w \<Rightarrow> 'w) \<Rightarrow> str \<Rightarrow> nat \<Rightarrow> str \<Rightarrow> ('b, 'w, str) runner_op" where
  "runner_run A pause server_source n source =
     bnd (gets (ru_session \<circ> fst)) (\<lambda>session. case session of
       Some ss \<Rightarrow> bnd (runner_session ss (session_run A pause server_source n source ''30'' 30)) (\<lambda>outcome.
         ret (combined_text outcome))
     | None \<Rightarrow> bnd (runner_sandbox (exec_python A source None [] None)) (\<lambda>r. ret (strip (stdout r @ stderr r))))"

definition runner_close :: "('b, 'w) ambient \<Rightarrow> ('b, 'w, unit) runner_op" where
  "runner_close A = runner_sandbox (destroy A)"

section \<open>Adapters\<close>

text \<open>\<open>build_langchain_tool\<close>: the runner that the tool calls, its name and its description; \<open>start\<close> is
  \<open>SandboxRunner(**runner_kwargs)\<close>.\<close>

definition langchain_description :: str where
  "langchain_description = ''Execute Python code in a secure, isolated sandbox and return its output. '' @
     ''State persists across calls within a session. Use for any code the agent '' @
     ''should not run on the host.''"

definition build_langchain_tool ::
  "bool \<Rightarrow> (exn, 'w outside, 'b runner) comp \<Rightarrow> 'b runner option \<Rightarrow> str \<Rightarrow> str \<Rightarrow> (exn, 'w outside, 'b runner \<times> str \<times> str) comp" where
  "build_langchain_tool importable start runner name description =
     (if \<not> importable then raise (Exn AgentNestError ''the LangChain integration requires: pip install langchain-core'')
      else bnd (case runner of Some ru \<Rightarrow> ret ru | None \<Rightarrow> start) (\<lambda>active. ret (active, name, description)))"

definition call_executor ::
  "('b, 'w) ambient \<Rightarrow> ('w \<Rightarrow> 'w) \<Rightarrow> str \<Rightarrow> nat \<Rightarrow> str \<Rightarrow> ('b, 'w, str \<times> str \<times> bool) runner_op" where
  "call_executor A pause server_source n code_action =
     bnd (runner_run A pause server_source n code_action) (\<lambda>output. ret (output, output, False))"

text \<open>The values come with their \<open>repr\<close>.\<close>

definition send_variables ::
  "('b, 'w) ambient \<Rightarrow> ('w \<Rightarrow> 'w) \<Rightarrow> str \<Rightarrow> nat \<Rightarrow> (str \<times> str) list \<Rightarrow> ('b, 'w, unit) runner_op" where
  "send_variables A pause server_source n variables =
     for_each variables (\<lambda>(name, value).
       next_do (runner_run A pause server_source n (name @ '' = '' @ value)) (ret ()))"

definition executor_cleanup :: "('b, 'w) ambient \<Rightarrow> ('b, 'w, unit) runner_op" where
  "executor_cleanup A = runner_close A"

end
