(* ===== verification/Mcp.thy ===== *)
theory Mcp
  imports Server
begin

text \<open>
  \<open>src/agentnest/mcp_server.py\<close>: the tools of the MCP server, over the table of its sandboxes; the MCP
  library, which checks the arguments, is outside. An unknown identifier is a \<open>KeyError\<close>.
\<close>

type_synonym ('b, 'w, 'a) mcp_tool = "(exn, ('b, 'w) server, 'a) comp"

definition create_mcp_server :: "bool \<Rightarrow> exn + (str, 'b sandbox) dict" where
  "create_mcp_server importable = (if importable then Inr []
     else Inl (Exn AgentNestError (''MCP support requires: pip install '' @ py_repr ''agentnest[mcp]'')))"

definition mcp_create :: "('b, 'w) server_env \<Rightarrow> str \<Rightarrow> rat \<Rightarrow> bool \<Rightarrow> ('b, 'w, json) mcp_tool" where
  "mcp_create S img timeout net = (\<lambda>(table, out).
     case new_sandbox S (default_args\<lparr>sa_image := img, sa_timeout := timeout, sa_network_enabled := net\<rparr>) ''docker'' out of
       (Inl e, out') \<Rightarrow> (Inl e, (table, out'))
     | (Inr sb, out') \<Rightarrow> (Inr (JObj [(''sandbox_id'', JStr (sb_id sb))]), (dict_set (sb_id sb) sb table, out')))"

definition mcp_sandbox :: "str \<Rightarrow> ('b, 'w, 'a) sandbox_method \<Rightarrow> ('b, 'w, 'a) mcp_tool" where
  "mcp_sandbox sid m = (\<lambda>(table, out). case map_of table sid of
     None \<Rightarrow> (Inl (Exn KeyError sid), (table, out))
   | Some sb \<Rightarrow> (case m (sb, out) of (r, (sb', out')) \<Rightarrow> (r, (dict_set sid sb' table, out'))))"

definition mcp_result :: "exec_result \<Rightarrow> json" where
  "mcp_result r = JObj [(''exit_code'', JInt (exit_code r)), (''stdout'', JStr (stdout r)), (''stderr'', JStr (stderr r)),
     (''duration'', JFloat (duration r))]"

definition mcp_exec_python :: "('b, 'w) ambient \<Rightarrow> str \<Rightarrow> str \<Rightarrow> rat option \<Rightarrow> ('b, 'w, json) mcp_tool" where
  "mcp_exec_python A sid source timeout =
     bnd (mcp_sandbox sid (exec_python A source timeout [] None)) (\<lambda>r. ret (mcp_result r))"

definition mcp_exec_shell :: "('b, 'w) ambient \<Rightarrow> str \<Rightarrow> str \<Rightarrow> rat option \<Rightarrow> ('b, 'w, json) mcp_tool" where
  "mcp_exec_shell A sid script timeout =
     bnd (mcp_sandbox sid (exec_shell A script timeout [] None)) (\<lambda>r. ret (mcp_result r))"

definition mcp_write_file :: "('b, 'w) ambient \<Rightarrow> str \<Rightarrow> str \<Rightarrow> str \<Rightarrow> ('b, 'w, json) mcp_tool" where
  "mcp_write_file A sid path content =
     next_do (mcp_sandbox sid (write_file A path (TextContent content))) (ret (JObj [(''ok'', JBool True)]))"

definition mcp_read_file :: "('b, 'w) ambient \<Rightarrow> str \<Rightarrow> str \<Rightarrow> ('b, 'w, str) mcp_tool" where
  "mcp_read_file A sid path = bnd (mcp_sandbox sid (read_file A path True)) (\<lambda>c. case c of
     TextContent t \<Rightarrow> ret t | BytesContent _ \<Rightarrow> raise (Exn AssertionError []))"

text \<open>The sandbox leaves the table before it is destroyed.\<close>

definition mcp_destroy :: "('b, 'w) ambient \<Rightarrow> str \<Rightarrow> ('b, 'w, json) mcp_tool" where
  "mcp_destroy A sid = (\<lambda>(table, out). case map_of table sid of
     None \<Rightarrow> (Inl (Exn KeyError sid), (table, out))
   | Some sb \<Rightarrow> (case destroy A (sb, out) of
       (Inl e, (_, out')) \<Rightarrow> (Inl e, (dict_pop sid table, out'))
     | (Inr _, (_, out')) \<Rightarrow> (Inr (JObj [(''ok'', JBool True)]), (dict_pop sid table, out'))))"

end
