(* ===== verification/Cli.thy ===== *)
theory Cli
  imports Sandbox_Tools Server Reaper
begin

text \<open>
  \<open>src/agentnest/cli.py\<close>: the commands, from the parsed arguments on (argument parsing is the standard
  library's). What is outside the package is a parameter of \<open>cli_env\<close>: the environment variable of the token, the local files,
  the Docker client, the web server and the MCP server. Printing appends to the two standard streams.
\<close>

section \<open>Arguments\<close>

record cli_options =
  co_image :: str
  co_backend :: str
  co_timeout :: rat
  co_network :: bool
  co_memory :: str
  co_cpus :: rat

definition default_options :: cli_options where
  "default_options = \<lparr>co_image = ''python:3.12-slim'', co_backend = ''docker'', co_timeout = 300, co_network = False,
     co_memory = ''512m'', co_cpus = 1\<rparr>"

definition default_host :: str where
  "default_host = ''127.0.0.1''"

definition default_port :: int where
  "default_port = 8765"

datatype cli_command =
    CliRun str cli_options | CliShell str cli_options | CliDemo | CliPrune bool | CliBackends | CliDoctor
  | CliServe str int | CliMcp

definition sandbox_options :: "cli_options \<Rightarrow> sandbox_args \<times> str" where
  "sandbox_options c = (default_args\<lparr>sa_image := co_image c, sa_timeout := co_timeout c, sa_network_enabled := co_network c,
     sa_limits := default_limits\<lparr>memory := MemText (co_memory c), cpus := co_cpus c\<rparr>\<rparr>, co_backend c)"

section \<open>Output\<close>

record cli_io =
  io_out :: str
  io_err :: str

type_synonym ('w, 'a) cli_op = "(exn, cli_io \<times> 'w outside, 'a) comp"

definition put_out :: "str \<Rightarrow> ('w, unit) cli_op" where
  "put_out s = modify (\<lambda>(io, out). (io\<lparr>io_out := io_out io @ s\<rparr>, out))"

definition put_err :: "str \<Rightarrow> ('w, unit) cli_op" where
  "put_err s = modify (\<lambda>(io, out). (io\<lparr>io_err := io_err io @ s\<rparr>, out))"

definition print_out :: "str \<Rightarrow> ('w, unit) cli_op" where
  "print_out s = put_out (s @ [CHR 10])"

definition print_err :: "str \<Rightarrow> ('w, unit) cli_op" where
  "print_err s = put_err (s @ [CHR 10])"

text \<open>\<open>json.dumps(value, indent=2)\<close>: each element of a list or object on its own line.\<close>

definition indentation :: "nat \<Rightarrow> str" where
  "indentation n = CHR 10 # replicate (2 * n) (CHR '' '')"

definition json_block :: "nat \<Rightarrow> char \<Rightarrow> char \<Rightarrow> str list \<Rightarrow> str" where
  "json_block n l r ts = (if ts = [] then [l, r]
     else l # indentation (Suc n) @ join_with (CHR '','' # indentation (Suc n)) ts @ indentation n @ [r])"

primrec json_indented :: "(rat \<Rightarrow> str) \<Rightarrow> json \<Rightarrow> nat \<Rightarrow> str" where
  "json_indented fr JNull = (\<lambda>n. ''null'')"
| "json_indented fr (JBool b) = (\<lambda>n. if b then ''true'' else ''false'')"
| "json_indented fr (JInt i) = (\<lambda>n. int_text i)"
| "json_indented fr (JFloat q) = (\<lambda>n. fr q)"
| "json_indented fr (JStr s) = (\<lambda>n. json_quote s)"
| "json_indented fr (JList vs) = (\<lambda>n. json_block n CHR ''['' CHR '']'' (map (\<lambda>f. f (Suc n)) (map (json_indented fr) vs)))"
| "json_indented fr (JObj d) = (\<lambda>n. json_block n CHR ''{'' CHR ''}''
     (map (\<lambda>(k, f). json_quote k @ '': '' @ f (Suc n)) (map (map_prod id (json_indented fr)) d)))"

section \<open>The outside\<close>

record ('b, 'w) cli_env =
  ce_ambient :: "('b, 'w) ambient"
  ce_backend :: "str \<Rightarrow> exn + 'b"
  ce_names :: "exn + str list"
  ce_token :: "str option"
  ce_uvicorn :: bool
  ce_serve :: "str option \<Rightarrow> str \<Rightarrow> int \<Rightarrow> (exn, 'w outside, unit) comp"
  ce_mcp :: "(exn, 'w outside, unit) comp"
  ce_prune :: "bool \<Rightarrow> (exn, 'w outside, prune_report) comp"
  ce_file :: "str \<Rightarrow> 'w outside \<Rightarrow> (exn + str) option"
  ce_ping :: "exn + json"
  ce_version :: "exn + json"

section \<open>A sandbox for one command\<close>

text \<open>\<open>with Sandbox(...) as sandbox: body\<close>; the arguments are checked before the backend is looked up, and
  the sandbox is destroyed after the body, output included.\<close>

definition open_sandbox ::
  "('b, 'w) ambient \<Rightarrow> (str \<Rightarrow> exn + 'b) \<Rightarrow> sandbox_args \<Rightarrow> str \<Rightarrow> (exn, 'w outside, 'b sandbox) comp" where
  "open_sandbox A backends a backend = (\<lambda>out. case init_config a of
     Inl e \<Rightarrow> (Inl e, out\<lparr>tick := Suc (tick out)\<rparr>)
   | Inr _ \<Rightarrow> (case backends backend of
       Inl e \<Rightarrow> (Inl e, out\<lparr>tick := Suc (tick out)\<rparr>)
     | Inr b \<Rightarrow> init A b a out))"

type_synonym ('b, 'w, 'a) block_op = "(exn, cli_io \<times> ('b, 'w) state, 'a) comp"

definition block_put :: "str \<Rightarrow> str \<Rightarrow> ('b, 'w, unit) block_op" where
  "block_put printed complained =
     modify (\<lambda>(io, s). (io\<lparr>io_out := io_out io @ printed, io_err := io_err io @ complained\<rparr>, s))"

definition sandbox_block ::
  "('b, 'w) ambient \<Rightarrow> (str \<Rightarrow> exn + 'b) \<Rightarrow> sandbox_args \<times> str \<Rightarrow> ('b, 'w, 'a) block_op \<Rightarrow> ('w, 'a) cli_op" where
  "sandbox_block A backends options body = (\<lambda>(io, out).
     case open_sandbox A backends (fst options) (snd options) out of
       (Inl e, out') \<Rightarrow> (Inl e, (io, out'))
     | (Inr sb, out') \<Rightarrow>
         (case next_do (on_snd enter_sandbox) (try_finally body (on_snd (exit_sandbox A))) (io, (sb, out')) of
            (r, (io', (_, out''))) \<Rightarrow> (r, (io', out''))))"

definition report_result :: "exec_result \<Rightarrow> ('b, 'w, int) block_op" where
  "report_result r = next_do (block_put (stdout r) (stderr r)) (ret (exit_code r))"

text \<open>The source of \<open>run\<close>: the text of an existing file whose name ends in \<open>.py\<close>, or the argument.\<close>

definition program_text :: "('b, 'w) cli_env \<Rightarrow> str \<Rightarrow> 'w outside \<Rightarrow> exn + str" where
  "program_text C source out = (if suffix ''.py'' source
     then (case ce_file C source out of None \<Rightarrow> Inr source | Some r \<Rightarrow> r) else Inr source)"

definition cli_run :: "('b, 'w) cli_env \<Rightarrow> str \<Rightarrow> cli_options \<Rightarrow> ('w, int) cli_op" where
  "cli_run C source opts = sandbox_block (ce_ambient C) (ce_backend C) (sandbox_options opts)
     (bnd (gets (\<lambda>(_, (_, out)). program_text C source out)) (\<lambda>found.
      bnd (of_sum found) (\<lambda>program.
      bnd (on_snd (exec_python (ce_ambient C) program None [] None)) report_result)))"

definition cli_shell :: "('b, 'w) cli_env \<Rightarrow> str \<Rightarrow> cli_options \<Rightarrow> ('w, int) cli_op" where
  "cli_shell C script opts = sandbox_block (ce_ambient C) (ce_backend C) (sandbox_options opts)
     (bnd (on_snd (exec_shell (ce_ambient C) script None [] None)) report_result)"

section \<open>The demonstration\<close>

definition block_print :: "str \<Rightarrow> ('b, 'w, unit) block_op" where
  "block_print s = block_put (s @ [CHR 10]) []"

text \<open>A session for some calls; \<open>pause\<close>, the source of the server and the bound on the rounds of a call are
  those of \<open>session_run\<close>.\<close>

definition demo_session ::
  "('b, 'w) ambient \<Rightarrow> ('w \<Rightarrow> 'w) \<Rightarrow> str \<Rightarrow> nat \<Rightarrow> ('b, 'w, session_result) sandbox_method" where
  "demo_session A pause server_source n =
     bnd (python_session A server_source) (\<lambda>ss s.
     let run = (\<lambda>code. session_run A pause server_source n code ''30'' 30) in
     case next_do (bnd (run ''total = 0'') (\<lambda>_. ret ()))
       (next_do (for_each [1, 2, 3, 4] (\<lambda>value. bnd (run (''total += '' @ int_text value)) (\<lambda>_. ret ())))
       (bnd (run ''total'') (\<lambda>r. of_sum (session_check r)))) (ss, s) of (r, (_, s')) \<Rightarrow> (r, s'))"

definition demo_network_code :: str where
  "demo_network_code = ''import urllib.request'' @ [CHR 10] @
     ''urllib.request.urlopen('' @ py_repr ''https://example.com'' @ '', timeout=5)''"

definition demo_body :: "('b, 'w) ambient \<Rightarrow> ('w \<Rightarrow> 'w) \<Rightarrow> str \<Rightarrow> nat \<Rightarrow> ('b, 'w, unit) block_op" where
  "demo_body A pause server_source n =
     next_do (block_print ''Started a locked-down sandbox: non-root, read-only root, no network.'')
     (next_do (on_snd (write_file A ''demo.py'' (TextContent (''print('' @ py_repr ''hello from an isolated sandbox'' @ '')''))))
     (bnd (on_snd (exec_shell A ''python demo.py'' None [] None)) (\<lambda>printed.
     next_do (block_print (''  ran a file       -> '' @ strip (stdout printed)))
     (bnd (on_snd (demo_session A pause server_source n)) (\<lambda>r.
     next_do (block_print (''  stateful session -> total is '' @ (case sr_result r of None \<Rightarrow> ''None'' | Some t \<Rightarrow> t)))
     (bnd (on_snd (exec_python A demo_network_code None [] None)) (\<lambda>blocked.
     block_print (''  network egress   -> blocked by default: '' @ (if exit_code blocked = 0 then ''False'' else ''True'')))))))))"

text \<open>The observer collects the events of this sandbox.\<close>

definition cli_demo :: "('b, 'w) cli_env \<Rightarrow> ('w \<Rightarrow> 'w) \<Rightarrow> str \<Rightarrow> nat \<Rightarrow> ('w, int) cli_op" where
  "cli_demo C pause server_source n =
     (let A = (ce_ambient C)\<lparr>am_observers := [\<lambda>_. None]\<rparr> in
      try_except
        (bnd (gets (length \<circ> emitted \<circ> snd)) (\<lambda>before.
         next_do (sandbox_block A (ce_backend C) (default_args\<lparr>sa_image := ''python:3.12-slim'', sa_timeout := 60\<rparr>, ''docker'')
           (demo_body A pause server_source n))
         (bnd (gets (length \<circ> emitted \<circ> snd)) (\<lambda>now.
          next_do (print_out (''Sandbox destroyed. Captured '' @ int_text (int (now - before)) @ '' audit events.'')) (ret 0)))))
        (\<lambda>e. if exn_isa e PyException
          then next_do (print_err (''demo could not run: '' @ exn_msg e))
            (next_do (print_err ''Check your Docker setup with: agentnest doctor'') (ret 1))
          else raise e))"

section \<open>Commands\<close>

definition loopback_hosts :: "str list" where
  "loopback_hosts = [''127.0.0.1'', ''localhost'', ''::1'']"

definition cli_serve :: "('b, 'w) cli_env \<Rightarrow> str \<Rightarrow> int \<Rightarrow> ('w, int) cli_op" where
  "cli_serve C address port =
     (let api_token = ce_token C in
      if address \<notin> set loopback_hosts \<and> (api_token = None \<or> api_token = Some [])
      then next_do (print_err ''Refusing a non-loopback API without AGENTNEST_API_TOKEN'') (ret 2)
      else if \<not> ce_uvicorn C
      then next_do (print_err (''Install server support with: pip install '' @ py_repr ''agentnest[server]'')) (ret 2)
      else next_do (on_snd (ce_serve C api_token address port)) (ret 0))"

definition cli_prune :: "('b, 'w) cli_env \<Rightarrow> bool \<Rightarrow> ('w, int) cli_op" where
  "cli_prune C force_all = try_except
     (bnd (on_snd (ce_prune C force_all)) (\<lambda>report.
      next_do (print_out (json_indented (\<lambda>_. []) (JObj [(''removed'', JInt (int (total report))),
        (''containers'', json_list (pr_containers report)), (''networks'', json_list (pr_networks report))]) 0)) (ret 0)))
     (\<lambda>e. if exn_isa e PyException then next_do (print_err (''prune failed: '' @ exn_msg e)) (ret 1) else raise e)"

text \<open>Whether a JSON value is true in Python.\<close>

fun json_truth :: "json \<Rightarrow> bool" where
  "json_truth JNull = False" | "json_truth (JBool b) = b" | "json_truth (JInt n) = (n \<noteq> 0)"
| "json_truth (JFloat q) = (q \<noteq> 0)" | "json_truth (JStr s) = (s \<noteq> [])" | "json_truth (JList vs) = (vs \<noteq> [])"
| "json_truth (JObj d) = (d \<noteq> [])"

text \<open>The client, its \<open>ping\<close> and its \<open>version\<close>; what came before an exception stays in the report.\<close>

definition docker_report :: "('b, 'w) cli_env \<Rightarrow> (str, json) dict \<Rightarrow> exn + (str, json) dict" where
  "docker_report C start =
     (let caught = (\<lambda>r e. if exn_isa e PyException then Inr (r @ [(''docker_error'', JStr (exn_msg e))]) else Inl e) in
      case ce_ping C of Inl e \<Rightarrow> caught start e
      | Inr ping \<Rightarrow> (let r = dict_set ''docker'' ping start in
          case ce_version C of Inl e \<Rightarrow> caught r e | Inr version \<Rightarrow> Inr (r @ [(''docker_version'', version)])))"

definition cli_doctor :: "('b, 'w) cli_env \<Rightarrow> ('w, int) cli_op" where
  "cli_doctor C =
     bnd (of_sum (ce_names C)) (\<lambda>names.
     bnd (of_sum (docker_report C [(''backends'', json_list names), (''docker'', JBool False)])) (\<lambda>report.
     next_do (print_out (json_indented (\<lambda>_. []) (JObj report) 0))
       (ret (case map_of report ''docker'' of Some v \<Rightarrow> if json_truth v then 0 else 1 | None \<Rightarrow> 1))))"

definition cli_backends :: "('b, 'w) cli_env \<Rightarrow> ('w, int) cli_op" where
  "cli_backends C = bnd (of_sum (ce_names C)) (\<lambda>names. next_do (print_out (join_with [CHR 10] names)) (ret 0))"

definition cli_main ::
  "('b, 'w) cli_env \<Rightarrow> ('w \<Rightarrow> 'w) \<Rightarrow> str \<Rightarrow> nat \<Rightarrow> cli_command \<Rightarrow> ('w, int) cli_op" where
  "cli_main C pause server_source n c = (case c of
     CliBackends \<Rightarrow> cli_backends C
   | CliDoctor \<Rightarrow> cli_doctor C
   | CliServe address port \<Rightarrow> cli_serve C address port
   | CliMcp \<Rightarrow> next_do (on_snd (ce_mcp C)) (ret 0)
   | CliPrune force_all \<Rightarrow> cli_prune C force_all
   | CliDemo \<Rightarrow> cli_demo C pause server_source n
   | CliRun source opts \<Rightarrow> cli_run C source opts
   | CliShell script opts \<Rightarrow> cli_shell C script opts)"

end
