(* ===== verification/Cli_Properties.thy ===== *)
theory Cli_Properties
  imports Cli Docker_Account Remote_Properties
begin

text \<open>
  Properties of the commands: \<open>serve\<close> never offers the API beyond the loopback interface without a token that
  requests have to know, and \<open>run\<close> and \<open>shell\<close> on Docker leave nothing behind, whatever the program does.
\<close>

section \<open>A block with a sandbox\<close>








section \<open>Opening the sandbox\<close>








section \<open>The properties\<close>

text \<open>A command line over the demonstration daemon.\<close>

definition demo_cli :: "(docker_rt, docker_world) cli_env" where
  "demo_cli = \<lparr>ce_ambient = docker_ambient, ce_backend = (\<lambda>_. Inr demo_runtime), ce_names = Inr [''docker''],
     ce_token = Some ''t0ken'', ce_uvicorn = True, ce_serve = (\<lambda>_ _ _. ret ()), ce_mcp = ret (),
     ce_prune = (\<lambda>_. raise (Exn DockerException ''no daemon'')), ce_file = (\<lambda>_ _. None),
     ce_ping = Inr (JBool True), ce_version = Inr (JStr ''27'')\<rparr>"

definition demo_io :: cli_io where
  "demo_io = \<lparr>io_out = [], io_err = []\<rparr>"

abbreviation demo_run :: "cli_command \<Rightarrow> (exn + int) \<times> cli_io \<times> docker_world outside" where
  "demo_run c \<equiv> cli_main demo_cli id [] 3 c (demo_io, docker_out)"



text \<open>
  C28. The API is not offered to other hosts without a token: with an address that is not the loopback
  interface, \<open>agentnest serve\<close> returns 2 and has started nothing, or there is a token that is not empty, the
  server runs with it, and such a server leaves its sandboxes and the world as they are under every request that does
  not carry that token.
\<close>

theorem serves_safely:
  assumes "address \<notin> set loopback_hosts"
    and "cli_main C pause server_source n (CliServe address port) (io, out) = (r, (io', out'))"
  shows "(r = Inr 2 \<and> out' = out) \<or>
    (\<exists>token. ce_token C = Some token \<and> token \<noteq> [] \<and> ce_serve C (Some token) address port out = (map_sum id (\<lambda>_. ()) r, out') \<and>
      (\<forall>S path q s. se_token S = Some token \<longrightarrow> map_of (hq_headers q) ''Authorization'' \<noteq> Some (''Bearer '' @ token) \<longrightarrow>
         snd (serve_request S path q s) = s))"
proof (cases "ce_uvicorn C \<and> (\<exists>token. ce_token C = Some token \<and> token \<noteq> [])")
  case False
  then have "r = Inr 2 \<and> out' = out"
    using assms by (cases "ce_token C")
      (auto simp: cli_main_def cli_serve_def Let_def print_err_def put_err_def comp_defs split: prod.splits if_splits)
  then show ?thesis ..
next
  case True
  then obtain token where t: "ce_token C = Some token" "token \<noteq> []" by blast
  obtain q w where "ce_serve C (Some token) address port out = (q, w)"
    by (cases "ce_serve C (Some token) address port out")
  with t True assms have "ce_serve C (Some token) address port out = (map_sum id (\<lambda>_. ()) r, out')"
    by (auto simp: cli_main_def cli_serve_def Let_def comp_defs on_snd_def split: sum.splits)
  moreover have "snd (serve_request S path q s) = s"
    if "se_token S = Some token" "map_of (hq_headers q) ''Authorization'' \<noteq> Some (''Bearer '' @ token)" for S path q s
    using unauthorized_inert [OF that(1) t(2) that(2), of path s] by auto
  ultimately show ?thesis using t by blast
qed

lemma serves_safely_witness:
  "let run = demo_run (CliServe ''0.0.0.0'' default_port) in
   (fst run = Inr 2 \<and> snd (snd run) = docker_out) \<or>
    (\<exists>token. ce_token demo_cli = Some token \<and> token \<noteq> [] \<and>
      ce_serve demo_cli (Some token) ''0.0.0.0'' default_port docker_out = (map_sum id (\<lambda>_. ()) (fst run), snd (snd run)) \<and>
      (\<forall>S path q s. se_token (S :: (bool, exec_request list) server_env) = Some token \<longrightarrow>
         map_of (hq_headers q) ''Authorization'' \<noteq> Some (''Bearer '' @ token) \<longrightarrow> snd (serve_request S path q s) = s))"
proof -
  let ?run = "demo_run (CliServe ''0.0.0.0'' default_port)"
  have "?run = (fst ?run, (fst (snd ?run), snd (snd ?run)))" by simp
  from serves_safely [OF _ this] show ?thesis unfolding Let_def by (simp add: loopback_hosts_def)
qed

end
