(* ===== verification/Spec2Isabelle.thy ===== *)
theory Spec2Isabelle
  imports Remote_Properties Core_Properties Sandbox_Properties Sandbox_Threads Egress_Proxy_Properties Docker_Properties Docker_Account Docker_Snapshot Pool_Properties Registry Reaper_Properties Kubernetes_Exec Bounded_Call Tools_Properties Session_Properties Async_Sandbox Event_Logs Integrations Mcp Cli_Properties
begin

text \<open>
  A verification library for AgentNest, a Python package that runs the code of AI agents in isolated sandboxes.

  \<^bold>\<open>The program.\<close> A \<open>Sandbox\<close> (\<open>sandbox.py\<close>) checks its arguments, asks an approval hook before each
  action, resolves and redacts secrets, emits audit events, enforces a lifetime with a timer, and leaves the
  isolation to a runtime: containers (\<open>runtime/docker.py\<close>, with an egress proxy \<open>_egress_proxy.py\<close> in a sidecar,
  \<open>egress.py\<close>, when a policy has an allowlist), Pods (\<open>runtime/kubernetes.py\<close>) or an AgentNest server
  (\<open>runtime/remote.py\<close>, \<open>runtime/firecracker.py\<close>; the server is \<open>server.py\<close>). Files of a workspace on the host are
  reached through \<open>filesystem.py\<close>. On top of sandboxes there are a pool (\<open>pool.py\<close>), persistent Python sessions
  (\<open>session.py\<close> on the host, \<open>_repl_server.py\<close> in the guest), an asynchronous facade, a Git helper, image
  templates, profiles and presets, the command line, an MCP server and adapters for agent frameworks. \<open>reaper.py\<close>
  removes what crashes have left; \<open>registry.py\<close> finds runtimes by name.

  \<^bold>\<open>The style of the model.\<close> A Python method is a computation \<open>'s \<Rightarrow> (exn + 'a) \<times> 's\<close> (\<open>Prelude\<close>): it takes the
  fields of its object and the outside, and returns a value or raises, with the state it leaves either way.
  Exceptions are their class and message (\<open>Errors\<close>), and an \<open>except\<close> clause is a test on the class. What is not
  part of the package is a parameter: the Docker SDK, the Kubernetes client, HTTP connections, YAML, the web and MCP
  frameworks, clocks and random identifiers are functions of the number of the call or reading, so the theorems
  hold for every behaviour of them, failures included. Definitions are executable; witnesses evaluate them.

  \<^bold>\<open>Theories and the files they model.\<close>
  \<^item> Values: \<open>PyText\<close>, \<open>Utf8\<close>, \<open>Formatting\<close>, \<open>Base64\<close>, \<open>Json\<close>, \<open>Json_Text\<close>, \<open>Json_Parse\<close> and \<open>Shell\<close> are the parts of
    the standard library the source relies on. \<open>Policy\<close>, \<open>Secrets\<close>, \<open>Models\<close>, \<open>Approvals\<close> (with the events) and
    \<open>Event_Logs\<close> are the files of those names; \<open>Paths\<close> is the checking of paths in \<open>filesystem.py\<close> and \<open>sandbox.py\<close>.
  \<^item> Workspace files: \<open>Workspace\<close> is \<open>filesystem.py\<close> as system calls, before each of which the guest may change the
    disk and each of which may fail; \<open>Workspace_Rules\<close>, \<open>Workspace_Safety\<close> and \<open>Workspace_Function\<close> prove
    confinement and the functional behaviour, \<open>Core_Properties\<close> states them.
  \<^item> Sandboxes: \<open>Backend\<close> has the operation table of a runtime and the locale \<open>runtime_contract\<close>; \<open>Sandbox\<close> and
    \<open>Sandbox_Tools\<close> are \<open>sandbox.py\<close>. \<open>Sandbox_Facts\<close>, \<open>Sandbox_Exec\<close> and \<open>Sandbox_Lifecycle\<close> prove what holds on every
    runtime, the last of them inside the locale; \<open>Sandbox_Properties\<close> states it. \<open>Sandbox_Threads\<close> interleaves the
    threads that destroy one sandbox.
  \<^item> Docker: \<open>Docker_Host\<close> is the world (disk, daemon, owned resources, snapshots), \<open>Egress\<close> the sidecar, \<open>Docker_Fork\<close>
    and \<open>Docker\<close> the runtime. \<open>Docker_Facts\<close> interprets \<open>runtime_contract\<close>; \<open>Docker_Hardening\<close> (options of every
    container), \<open>Docker_Copy\<close> (the copy of a fork), \<open>Docker_Resources\<close> and \<open>Docker_Account\<close> (nothing is owned that the
    fields do not name, through the life of a sandbox), \<open>Docker_Exec\<close> (bounded output, ways out) and
    \<open>Docker_Snapshot\<close> (all or nothing) carry the properties in \<open>Docker_Properties\<close>.
  \<^item> The proxy: \<open>Egress_Proxy\<close>, \<open>Egress_Proxy_Facts\<close>, \<open>Egress_Proxy_Properties\<close>.
  \<^item> Kubernetes: \<open>Kubernetes\<close>, with the interpretation of the contract in \<open>Kubernetes_Facts\<close>, and
    \<open>Kubernetes_Properties\<close>, \<open>Kubernetes_Exec\<close>.
  \<^item> Remote: \<open>Remote\<close> is the client and \<open>Server\<close> the server; \<open>Remote_Facts\<close> interprets the contract for the client,
    \<open>Server_Facts\<close> has the invariants of the server's table, \<open>Remote_Wire\<close> connects the two, \<open>Remote_Properties\<close>
    states that the client refines the server's sandbox.
  \<^item> Many sandboxes: \<open>Pool\<close> and \<open>Pool_Properties\<close> (threads as a step relation), \<open>Reaper\<close> and \<open>Reaper_Properties\<close>,
    \<open>Registry\<close> (with its own locale \<open>name_table\<close>).
  \<^item> Sessions: \<open>Session\<close> is the code of both sides, \<open>Session_Protocol\<close> their interleaving over the shared files,
    \<open>Session_Properties\<close> what a session promises.
  \<^item> Facades: \<open>Async_Sandbox\<close> (worker thread, event loop and consumer as a step relation), \<open>Bounded_Call\<close>
    (\<open>execution.py\<close>), \<open>Templates\<close>, \<open>Git\<close>, \<open>Profiles\<close> (with \<open>presets.py\<close>), \<open>Tools_Properties\<close>, \<open>Integrations\<close>, \<open>Mcp\<close>, \<open>Cli\<close>
    and \<open>Cli_Properties\<close>.

  \<^bold>\<open>What the properties show.\<close> The workspace: nothing outside it is read or changed, under symbolic-link races and
  any failing call, and a write is all or nothing. The sandbox: no action without approval, nothing after
  destruction, only bounded and well-placed requests, no secret in results or logs. Docker and Kubernetes: every
  container and Pod is hardened and isolated, output is bounded, failed creations and ended sandboxes leave
  nothing behind, from the runtime up to the commands of the command line; snapshots are all or nothing, forks
  are isolated. The proxy connects only to admitted hosts. The remote runtime refines the sandbox it stands for;
  the server checks its token before anything else, keeps its table well formed and its sandboxes apart, and is not
  offered to other hosts without a token. The pool lends every sandbox at most once at a time and loses none; the
  reaper removes only what is due. Sessions behave as one sequential interpreter, streams arrive complete and in
  order. JSON texts, Base64, shell words and label deadlines survive their round trips.

  \<^bold>\<open>Fuel and bounds.\<close> \<open>copy_entries\<close> recurses to a depth that exceeds that of every acyclic tree of the disk
  (\<open>copytree_completes\<close>). The wait for a Pod has as many rounds as its deadline and the sleep between two looks
  allow, and one (\<open>kube_wait_ends\<close>). The JSON parser has twice the length of the text as fuel (\<open>fuel_enough\<close>). The
  polling loop of a session takes a number of rounds as its argument; beyond some number the result no longer
  depends on it on a clock that goes on (\<open>session_run_ends\<close>). The scripts of sockets and of the streaming worker are
  finite lists. All other recursion is structural or has a termination proof.

  \<^bold>\<open>Abstractions.\<close> Floats are exact rationals. A \<open>str\<close> is its UTF-8 encoding. A call of a sandbox is one step, so
  threads that share one sandbox interleave whole calls, except in \<open>destroy\<close>, in the pool, in sessions and in the
  asynchronous stream, whose steps are finer. Permission bits, and inodes freed by \<open>rmtree\<close>, are not modelled. Paths of snapshots
  name files directly, links among them are not followed.

  \<^bold>\<open>Not modelled.\<close> The parsing of the command line (\<open>argparse\<close>), and what third-party packages do; the re-exports of
  the \<open>__init__\<close> files; the loop of the proxy that accepts connections, which hands each one to \<open>handle\<close>; benchmarks and
  examples, which only call the package. \<open>send_tools\<close> of the smolagents adapter does nothing.
\<close>

end
